theory Spec2Isabelle
  imports Main "HOL-Library.Word"
begin

section \<open>The command-execution kernel of kernel/register.cc\<close>

text \<open>
  A shallow embedding of \<^verbatim>\<open>kernel/register.cc\<close>: the pass registry, the
  tokenizer and dispatcher \<^verbatim>\<open>Pass::call\<close>, the scoped-call wrappers and the
  frontend and backend drivers. Process-wide variables and the design are fields of one
  state record that every function takes and returns. A C++ exception and a fatal exit
  are outcomes that carry the state reached when they happened, since nothing is rolled
  back. Log output is not part of the state.
\<close>

subsection \<open>Characters and C strings\<close>

abbreviation NUL :: char where "NUL \<equiv> CHR 0x00"
abbreviation TAB :: char where "TAB \<equiv> CHR 0x09"
abbreviation LF :: char where "LF \<equiv> CHR 0x0A"
abbreviation CR :: char where "CR \<equiv> CHR 0x0D"

text \<open>\<^verbatim>\<open>std::string::c_str()\<close> read as a C string ends at the first NUL.\<close>

definition c_str :: "string \<Rightarrow> string" where
  "c_str s = takeWhile (\<lambda>c. c \<noteq> NUL) s"

text \<open>The delimiter set \<^verbatim>\<open>" \t\r\n"\<close> of \<^verbatim>\<open>strspn\<close>, \<^verbatim>\<open>strtok_r\<close>
  and \<^verbatim>\<open>find_first_not_of\<close>.\<close>

definition is_blank :: "char \<Rightarrow> bool" where
  "is_blank c = (c = CHR '' '' \<or> c = TAB \<or> c = CR \<or> c = LF)"

text \<open>\<^verbatim>\<open>s[0]\<close> of a \<^verbatim>\<open>std::string\<close>: the terminating NUL when the string is
  empty.\<close>

definition first_char :: "string \<Rightarrow> char" where
  "first_char s = (if s = [] then NUL else hd s)"

text \<open>A C \<^verbatim>\<open>int\<close> holding a \<^verbatim>\<open>size_t\<close>: the low 32 bits, read signed.\<close>

definition to_int :: "nat \<Rightarrow> int" where
  "to_int n = sint (word_of_nat n :: 32 word)"

text \<open>All tokens \<^verbatim>\<open>strtok_r(s, " \t\r\n", &saveptr)\<close> returns, in order: each call
  skips the leading delimiters and returns the run of other characters that follows.\<close>

function strtok_all :: "string \<Rightarrow> string list" where
  "strtok_all s =
     (let s1 = dropWhile is_blank s in
      if s1 = [] then []
      else takeWhile (\<lambda>c. \<not> is_blank c) s1 # strtok_all (dropWhile (\<lambda>c. \<not> is_blank c) s1))"
  by pat_completeness auto

lemma strtok_all_shrinks:
  "dropWhile is_blank s \<noteq> [] \<Longrightarrow>
   length (dropWhile (\<lambda>c. \<not> is_blank c) (dropWhile is_blank s)) < length s"
proof -
  assume ne: "dropWhile is_blank s \<noteq> []"
  then obtain c r where cr: "dropWhile is_blank s = c # r"
    by (cases "dropWhile is_blank s") auto
  then have "\<not> is_blank c"
    using hd_dropWhile [of is_blank s] ne by auto
  then have "length (dropWhile (\<lambda>c. \<not> is_blank c) (c # r)) \<le> length r"
    by (simp add: length_dropWhile_le)
  moreover have "length (c # r) \<le> length s"
    using cr length_dropWhile_le [of is_blank s] by simp
  ultimately show ?thesis using cr by simp
qed

termination strtok_all
  by (relation "measure length") (auto simp: strtok_all_shrinks)

declare strtok_all.simps [simp del]

subsection \<open>Data model\<close>

datatype error =
    CmdError string
  | FatalError string
  | AssertFailed string
  | StdOutOfRange
  | UndefinedBehaviour string

text \<open>A \<^verbatim>\<open>FILE*\<close> that is not NULL.\<close>

datatype stream =
    Stdin
  | Stdout
  | FileStream string string
  | MemStream string

text \<open>Calls into the operating system and into the design's consistency check, in the
  order they happen.\<close>

datatype event =
    System string
  | Fopen string string
  | Fmemopen string
  | Fclose stream
  | Check

text \<open>Modelled from the spec: \<^verbatim>\<open>RTLIL::Selection\<close> and \<^verbatim>\<open>RTLIL::Module\<close>
  (kernel/rtlil.h is not part of the sources). A selection is built empty with a polarity,
  \<^verbatim>\<open>Selection(false)\<close>, and \<^verbatim>\<open>select(module)\<close> makes it contain the whole
  module.\<close>

record selection =
  full_selection :: bool
  selected_modules :: "string set"
  selected_members :: "(string \<times> string) set"

record rtlil_module =
  name_of_module :: string

definition Selection :: "bool \<Rightarrow> selection" where
  "Selection full = \<lparr> full_selection = full, selected_modules = {}, selected_members = {} \<rparr>"

definition select_module :: "rtlil_module \<Rightarrow> selection \<Rightarrow> selection" where
  "select_module m sel =
     (if \<not> full_selection sel \<and> name_of_module m \<notin> selected_modules sel
      then sel \<lparr> selected_modules := insert (name_of_module m) (selected_modules sel),
                 selected_members := {p \<in> selected_members sel. fst p \<noteq> name_of_module m} \<rparr>
      else sel)"

text \<open>The part of \<^verbatim>\<open>RTLIL::Design\<close> the kernel touches, and the rest of the design
  as an opaque value.\<close>

record 'n design =
  selection_stack :: "selection list"
  selected_active_module :: string
  netlist :: 'n

text \<open>The three classes of command objects; a frontend carries its
  \<^verbatim>\<open>frontend_name\<close>, a backend its \<^verbatim>\<open>backend_name\<close>. The counter
  \<^verbatim>\<open>call_counter\<close> is a C++ \<^verbatim>\<open>int\<close>: 32 bits, read signed, and
  \<^verbatim>\<open>call_counter++\<close> at the largest value goes round to the smallest.\<close>

datatype pass_class =
    PlainPass
  | FrontendPass string
  | BackendPass string

record pass_obj =
  pass_name :: string
  short_help :: string
  call_counter :: "32 word"
  pass_class :: pass_class

text \<open>The process state. Command objects live in a store indexed by their address;
  the registers hold addresses, so a frontend found through \<^verbatim>\<open>pass_register\<close> and
  through \<^verbatim>\<open>frontend_register\<close> is one object with one counter. The chain
  \<^verbatim>\<open>first_queued_pass\<close>, \<^verbatim>\<open>next_queued_pass\<close>, ... is the list of the
  addresses on it. \<^verbatim>\<open>current_script_file\<close> is the unread rest of the open script.\<close>

record 'n world =
  store :: "nat \<Rightarrow> pass_obj"
  store_next :: nat
  first_queued_pass :: "nat list"
  pass_register :: "string \<rightharpoonup> nat"
  frontend_register :: "string \<rightharpoonup> nat"
  backend_register :: "string \<rightharpoonup> nat"
  echo_mode :: bool
  next_args :: "string list"
  current_script_file :: "string option"
  last_here_document :: string
  design :: "'n design"
  events :: "event list"

text \<open>What a call does: it returns a value, or it leaves by an exception or a fatal
  exit, or it never comes back.\<close>

datatype ('a, 'n) outcome =
    Returns 'a "'n world"
  | Raises error "'n world"
  | Diverges

definition and_then ::
  "('a, 'n) outcome \<Rightarrow> ('a \<Rightarrow> 'n world \<Rightarrow> ('b, 'n) outcome) \<Rightarrow> ('b, 'n) outcome" where
  "and_then m f = (case m of Returns x w \<Rightarrow> f x w | Raises e w \<Rightarrow> Raises e w | Diverges \<Rightarrow> Diverges)"

text \<open>The code outside this file: the virtual \<^verbatim>\<open>execute(args, design)\<close> of a plain
  pass, the format-specific \<^verbatim>\<open>execute(f, filename, args, design)\<close> of a frontend or
  backend (it returns the \<^verbatim>\<open>FILE*&\<close> it was given), \<^verbatim>\<open>design->check()\<close>,
  \<^verbatim>\<open>system\<close>, whether \<^verbatim>\<open>fopen\<close> succeeds and the text of
  \<^verbatim>\<open>strerror(errno)\<close> when it does not.\<close>

record 'n ext =
  pass_execute :: "nat \<Rightarrow> string list \<Rightarrow> 'n world \<Rightarrow> (unit, 'n) outcome"
  format_execute ::
    "nat \<Rightarrow> stream option \<Rightarrow> string \<Rightarrow> string list \<Rightarrow> 'n world \<Rightarrow> (stream option, 'n) outcome"
  design_check :: "'n design \<Rightarrow> bool"
  os_system :: "string \<Rightarrow> int"
  os_can_open :: "string \<Rightarrow> string \<Rightarrow> bool"
  os_strerror :: "string \<Rightarrow> string"


subsection \<open>Errors, files and the selection stack\<close>

text \<open>Modelled from the spec: \<^verbatim>\<open>log_cmd_error\<close>, \<^verbatim>\<open>log_error\<close> and
  \<^verbatim>\<open>log_assert\<close> (kernel/log.h is not part of the sources). A command error leaves
  the current command; a fatal error and a failed assertion end the process. None of them
  returns to its caller.\<close>

definition log_cmd_error :: "string \<Rightarrow> 'n world \<Rightarrow> ('a, 'n) outcome" where
  "log_cmd_error msg w = Raises (CmdError msg) w"

definition log_error :: "string \<Rightarrow> 'n world \<Rightarrow> ('a, 'n) outcome" where
  "log_error msg w = Raises (FatalError msg) w"

definition log_assert :: "bool \<Rightarrow> string \<Rightarrow> 'n world \<Rightarrow> (unit, 'n) outcome" where
  "log_assert ok expr w = (if ok then Returns () w else Raises (AssertFailed expr) w)"

definition emit :: "event \<Rightarrow> 'n world \<Rightarrow> 'n world" where
  "emit e w = w \<lparr> events := events w @ [e] \<rparr>"

text \<open>\<^verbatim>\<open>fopen(path, mode)\<close>: NULL when the file cannot be opened.\<close>

definition fopen :: "'n ext \<Rightarrow> string \<Rightarrow> string \<Rightarrow> 'n world \<Rightarrow> stream option \<times> 'n world" where
  "fopen ext path mode w =
     (if os_can_open ext path mode then (Some (FileStream path mode), emit (Fopen path mode) w)
      else (None, w))"

text \<open>\<^verbatim>\<open>fmemopen(buf, size, "r")\<close> on the here-document text.\<close>

definition fmemopen :: "string \<Rightarrow> 'n world \<Rightarrow> stream option \<times> 'n world" where
  "fmemopen buf w = (Some (MemStream buf), emit (Fmemopen buf) w)"

text \<open>\<^verbatim>\<open>fclose(f)\<close>; the C library leaves \<^verbatim>\<open>fclose(NULL)\<close> undefined.\<close>

definition fclose :: "stream option \<Rightarrow> 'n world \<Rightarrow> (unit, 'n) outcome" where
  "fclose f w =
     (case f of
        None \<Rightarrow> Raises (UndefinedBehaviour ''fclose(NULL)'') w
      | Some s \<Rightarrow> Returns () (emit (Fclose s) w))"

definition set_selection_stack :: "selection list \<Rightarrow> 'n world \<Rightarrow> 'n world" where
  "set_selection_stack st w = w \<lparr> design := (design w) \<lparr> selection_stack := st \<rparr> \<rparr>"

definition set_selected_active_module :: "string \<Rightarrow> 'n world \<Rightarrow> 'n world" where
  "set_selected_active_module n w = w \<lparr> design := (design w) \<lparr> selected_active_module := n \<rparr> \<rparr>"

definition push_back :: "selection \<Rightarrow> 'n world \<Rightarrow> 'n world" where
  "push_back sel w = set_selection_stack (selection_stack (design w) @ [sel]) w"

text \<open>\<^verbatim>\<open>selection_stack.pop_back()\<close>; undefined on an empty vector.\<close>

definition pop_back :: "'n world \<Rightarrow> (unit, 'n) outcome" where
  "pop_back w =
     (if selection_stack (design w) = []
      then Raises (UndefinedBehaviour ''pop_back() on an empty vector'') w
      else Returns () (set_selection_stack (butlast (selection_stack (design w))) w))"

text \<open>\<^verbatim>\<open>while (selection_stack.size() > orig_sel_stack_pos) selection_stack.pop_back();\<close>\<close>

function unwind :: "nat \<Rightarrow> selection list \<Rightarrow> selection list" where
  "unwind orig_sel_stack_pos st =
     (if length st > orig_sel_stack_pos then unwind orig_sel_stack_pos (butlast st) else st)"
  by pat_completeness auto
termination
  by (relation "measure (\<lambda>(n, st). length st)") auto

declare unwind.simps [simp del]

text \<open>\<^verbatim>\<open>design->check()\<close>: a failed check is fatal.\<close>

definition check :: "'n ext \<Rightarrow> 'n world \<Rightarrow> (unit, 'n) outcome" where
  "check ext w =
     (if design_check ext (design w) then Returns () (emit Check w)
      else Raises (FatalError ''design->check()'') (emit Check w))"

subsection \<open>Construction and registration\<close>

definition new_object :: "string \<Rightarrow> string \<Rightarrow> pass_class \<Rightarrow> 'n world \<Rightarrow> nat \<times> 'n world" where
  "new_object name help cls w =
     (let this = store_next w in
      (this,
       w \<lparr> store := (store w) (this :=
              \<lparr> pass_name = name, short_help = help, call_counter = 0, pass_class = cls \<rparr>),
           store_next := Suc this,
           first_queued_pass := this # first_queued_pass w \<rparr>))"

definition Pass_new :: "string \<Rightarrow> string \<Rightarrow> 'n world \<Rightarrow> nat \<times> 'n world" where
  "Pass_new name help w = new_object name help PlainPass w"

text \<open>\<^verbatim>\<open>name.rfind("=", 0) == 0\<close>: the name starts with \<^verbatim>\<open>=\<close>.\<close>

definition starts_with_eq :: "string \<Rightarrow> bool" where
  "starts_with_eq name = (take 1 name = ''='')"

definition Frontend_new :: "string \<Rightarrow> string \<Rightarrow> 'n world \<Rightarrow> nat \<times> 'n world" where
  "Frontend_new name help w =
     new_object (if starts_with_eq name then drop 1 name else ''read_'' @ name) help
       (FrontendPass (if starts_with_eq name then drop 1 name else name)) w"

definition Backend_new :: "string \<Rightarrow> string \<Rightarrow> 'n world \<Rightarrow> nat \<times> 'n world" where
  "Backend_new name help w =
     new_object (if starts_with_eq name then drop 1 name else ''write_'' @ name) help
       (BackendPass (if starts_with_eq name then drop 1 name else name)) w"

definition Pass_run_register :: "nat \<Rightarrow> 'n world \<Rightarrow> (unit, 'n) outcome" where
  "Pass_run_register this w =
     and_then (log_assert (pass_register w (pass_name (store w this)) = None)
                 ''pass_register.count(pass_name) == 0'' w) (\<lambda>_ w.
       Returns () (w \<lparr> pass_register := (pass_register w) (pass_name (store w this) \<mapsto> this) \<rparr>))"

definition Frontend_run_register :: "string \<Rightarrow> nat \<Rightarrow> 'n world \<Rightarrow> (unit, 'n) outcome" where
  "Frontend_run_register frontend_name this w =
     and_then (log_assert (pass_register w (pass_name (store w this)) = None)
                 ''pass_register.count(pass_name) == 0'' w) (\<lambda>_ w.
     and_then (log_assert (frontend_register w frontend_name = None)
                 ''frontend_register.count(frontend_name) == 0''
                 (w \<lparr> pass_register := (pass_register w) (pass_name (store w this) \<mapsto> this) \<rparr>))
       (\<lambda>_ w.
       Returns () (w \<lparr> frontend_register := (frontend_register w) (frontend_name \<mapsto> this) \<rparr>)))"

definition Backend_run_register :: "string \<Rightarrow> nat \<Rightarrow> 'n world \<Rightarrow> (unit, 'n) outcome" where
  "Backend_run_register backend_name this w =
     and_then (log_assert (pass_register w (pass_name (store w this)) = None)
                 ''pass_register.count(pass_name) == 0'' w) (\<lambda>_ w.
     and_then (log_assert (backend_register w backend_name = None)
                 ''backend_register.count(backend_name) == 0''
                 (w \<lparr> pass_register := (pass_register w) (pass_name (store w this) \<mapsto> this) \<rparr>))
       (\<lambda>_ w.
       Returns () (w \<lparr> backend_register := (backend_register w) (backend_name \<mapsto> this) \<rparr>)))"

text \<open>The virtual call \<^verbatim>\<open>first_queued_pass->run_register()\<close>.\<close>

definition run_register :: "nat \<Rightarrow> 'n world \<Rightarrow> (unit, 'n) outcome" where
  "run_register this w =
     (case pass_class (store w this) of
        PlainPass \<Rightarrow> Pass_run_register this w
      | FrontendPass frontend_name \<Rightarrow> Frontend_run_register frontend_name this w
      | BackendPass backend_name \<Rightarrow> Backend_run_register backend_name this w)"

function init_register :: "'n world \<Rightarrow> (unit, 'n) outcome" where
  "init_register w =
     (case first_queued_pass w of
        [] \<Rightarrow> Returns () w
      | this # next_queued_pass \<Rightarrow>
          and_then (run_register this w) (\<lambda>_ w1.
            init_register (w1 \<lparr> first_queued_pass := next_queued_pass \<rparr>)))"
  by pat_completeness auto
termination
  by (relation "measure (\<lambda>w. length (first_queued_pass w))") auto

declare init_register.simps [simp del]

definition done_register :: "'n world \<Rightarrow> (unit, 'n) outcome" where
  "done_register w =
     (let w1 = w \<lparr> frontend_register := Map.empty, pass_register := Map.empty,
                   backend_register := Map.empty \<rparr>
      in log_assert (first_queued_pass w1 = []) ''first_queued_pass == NULL'' w1)"

text \<open>The state before any static constructor has run.\<close>

definition initial_world :: "'n design \<Rightarrow> 'n world" where
  "initial_world d =
     \<lparr> store = (\<lambda>_. \<lparr> pass_name = [], short_help = [], call_counter = 0, pass_class = PlainPass \<rparr>),
       store_next = 0, first_queued_pass = [],
       pass_register = Map.empty, frontend_register = Map.empty, backend_register = Map.empty,
       echo_mode = False, next_args = [], current_script_file = None,
       last_here_document = [], design = d, events = [] \<rparr>"

subsection \<open>Syntax errors\<close>

text \<open>\<^verbatim>\<open>Pass::cmd_error\<close>: the command line rebuilt from the arguments, and a caret
  under the argument at \<^verbatim>\<open>argidx\<close>.\<close>

definition command_text :: "string list \<Rightarrow> string" where
  "command_text args = foldl (\<lambda>t a. t @ (if t = [] then [] else '' '') @ a) [] args"

definition error_pos :: "string list \<Rightarrow> nat \<Rightarrow> nat" where
  "error_pos args argidx = sum_list (map (\<lambda>a. length a + 1) (take argidx args))"

definition cmd_error :: "string list \<Rightarrow> nat \<Rightarrow> string \<Rightarrow> 'n world \<Rightarrow> ('a, 'n) outcome" where
  "cmd_error args argidx msg w =
     log_cmd_error (''Command syntax error: '' @ msg @ [LF] @ ''> '' @ command_text args @ [LF]
                     @ ''> '' @ replicate (error_pos args argidx) CHR '' '' @ ''^'' @ [LF]) w"

subsection \<open>The frontend driver\<close>

definition incr_call_counter :: "nat \<Rightarrow> 'n world \<Rightarrow> 'n world" where
  "incr_call_counter this w =
     w \<lparr> store := (store w) (this := (store w this) \<lparr> call_counter := call_counter (store w this) + 1 \<rparr>) \<rparr>"

text \<open>One pass through the body of the loop in \<^verbatim>\<open>Frontend::execute(args, design)\<close>;
  it returns the new \<^verbatim>\<open>args\<close>.\<close>

definition Frontend_round ::
  "'n ext \<Rightarrow> nat \<Rightarrow> string list \<Rightarrow> 'n world \<Rightarrow> (string list, 'n) outcome" where
  "Frontend_round ext this args w =
     and_then (format_execute ext this None [] args
                 (incr_call_counter this (w \<lparr> next_args := [] \<rparr>))) (\<lambda>f w1.
     and_then (fclose f w1) (\<lambda>_ w2.
       Returns (next_args w1) w2))"

text \<open>The loop \<^verbatim>\<open>do { ... } while (!args.empty())\<close>; \<open>None\<close> when it never ends.\<close>

partial_function (option) Frontend_execute_loop ::
  "'n ext \<Rightarrow> nat \<Rightarrow> string list \<Rightarrow> 'n world \<Rightarrow> (unit, 'n) outcome option" where
  "Frontend_execute_loop ext this args w =
     (case Frontend_round ext this args w of
        Returns args' w' \<Rightarrow>
          if args' \<noteq> [] then Frontend_execute_loop ext this args' w' else Some (Returns () w')
      | Raises e w' \<Rightarrow> Some (Raises e w')
      | Diverges \<Rightarrow> Some Diverges)"

definition Frontend_execute :: "'n ext \<Rightarrow> nat \<Rightarrow> string list \<Rightarrow> 'n world \<Rightarrow> (unit, 'n) outcome" where
  "Frontend_execute ext this args w =
     and_then (log_assert (next_args w = []) ''next_args.empty()'' w) (\<lambda>_ w.
       case Frontend_execute_loop ext this args w of None \<Rightarrow> Diverges | Some r \<Rightarrow> r)"

subsection \<open>Here-documents\<close>

text \<open>\<^verbatim>\<open>fgets(block, n, file)\<close> on the unread rest of a file: NULL at the end of the
  file, else the characters up to and with the first newline, at most \<open>n - 1\<close> of them,
  and the rest that stays unread.\<close>

definition fgets :: "nat \<Rightarrow> string \<Rightarrow> (string \<times> string) option" where
  "fgets n script =
     (if script = [] then None
      else let line = takeWhile (\<lambda>c. c \<noteq> LF) script;
               upto = (if length line < length script then line @ [LF] else line);
               block = take (n - 1) upto
           in Some (block, drop (length block) script))"

text \<open>The inner \<^verbatim>\<open>while (1)\<close>: blocks are appended to \<^verbatim>\<open>buffer\<close> until it ends
  in a newline or a carriage return. No result at the end of the file.\<close>

lemma fgets_shrinks: "fgets 4096 script = Some (block, script') \<Longrightarrow> length script' < length script"
  by (cases script) (auto simp: fgets_def Let_def split: if_splits)

function read_buffer :: "string \<Rightarrow> string \<Rightarrow> string option \<times> string" where
  "read_buffer buffer script =
     (case fgets 4096 script of
        None \<Rightarrow> (None, script)
      | Some (block, script') \<Rightarrow>
          (let buffer' = buffer @ c_str block in
           if length buffer' > 0 \<and> (last buffer' = LF \<or> last buffer' = CR)
           then (Some buffer', script')
           else read_buffer buffer' script'))"
  by pat_completeness auto
termination
  by (relation "measure (\<lambda>(buffer, script). length script)") (auto simp: fgets_shrinks)

declare read_buffer.simps [simp del]

definition npos :: nat where
  "npos = 2 ^ 64 - 1"

text \<open>\<^verbatim>\<open>buffer.find_first_not_of(" \t\r\n")\<close>\<close>

definition find_first_not_of_blank :: "string \<Rightarrow> nat" where
  "find_first_not_of_blank s =
     (if list_all is_blank s then npos else length (takeWhile is_blank s))"

text \<open>\<^verbatim>\<open>s.substr(pos, n)\<close> with \<^verbatim>\<open>pos\<close> an \<^verbatim>\<open>int\<close> converted to
  \<^verbatim>\<open>size_t\<close>; it throws \<^verbatim>\<open>std::out_of_range\<close> when \<^verbatim>\<open>pos > size()\<close>.\<close>

definition substr :: "string \<Rightarrow> int \<Rightarrow> nat \<Rightarrow> string option" where
  "substr s pos n =
     (let pos' = nat (pos mod 2 ^ 64) in
      if pos' > length s then None else Some (take n (drop pos' s)))"

lemma read_buffer_shrinks:
  "read_buffer buffer script = (Some b, script') \<Longrightarrow> length script' < length script"
proof (induction buffer script rule: read_buffer.induct)
  case (1 buffer script)
  show ?case
  proof (cases "fgets 4096 script")
    case None
    with "1.prems" show ?thesis by (simp add: read_buffer.simps)
  next
    case (Some bf)
    obtain block f1 where bf: "bf = (block, f1)" by (cases bf)
    have lt: "length f1 < length script" using Some bf fgets_shrinks by blast
    show ?thesis
    proof (cases "length (buffer @ c_str block) > 0 \<and>
        (last (buffer @ c_str block) = LF \<or> last (buffer @ c_str block) = CR)")
      case True
      with "1.prems" Some bf lt show ?thesis
        by (simp add: read_buffer.simps [of buffer script] Let_def)
    next
      case False
      with "1.prems" Some bf have "read_buffer (buffer @ c_str block) f1 = (Some b, script')"
        by (auto simp add: read_buffer.simps [of buffer script] Let_def split: if_splits)
      with "1.IH" [OF Some bf [symmetric] refl False] lt show ?thesis by simp
    qed
  qed
qed

text \<open>The outer \<^verbatim>\<open>while (1)\<close> of the here-document: the error it stops with, if any,
  the text collected in \<^verbatim>\<open>last_here_document\<close> and the unread rest of the script.\<close>

function here_document ::
  "string \<Rightarrow> string \<Rightarrow> string \<Rightarrow> string \<Rightarrow> error option \<times> string \<times> string" where
  "here_document filename eot_marker doc script =
     (case read_buffer [] script of
        (None, script') \<Rightarrow>
          (Some (FatalError (''Unexpected end of file in here document '' @ [CHR 0x27] @ filename
                              @ [CHR 0x27] @ ''!'' @ [LF])),
           doc, script')
      | (Some buffer, script') \<Rightarrow>
          (let indent = to_int (find_first_not_of_blank buffer) in
           case substr buffer indent (length eot_marker) of
             None \<Rightarrow> (Some StdOutOfRange, doc, script')
           | Some part \<Rightarrow>
               if part = eot_marker then (None, doc, script')
               else here_document filename eot_marker (doc @ buffer) script'))"
  by pat_completeness auto
termination
  by (relation "measure (\<lambda>(filename, eot_marker, doc, script). length script)")
     (auto dest: read_buffer_shrinks [OF sym])

declare here_document.simps [simp del]

text \<open>The source of the input stream in \<^verbatim>\<open>Frontend::extra_args\<close>: a here-document
  read from the open script, or a file opened for reading.\<close>

definition open_input :: "'n ext \<Rightarrow> string \<Rightarrow> 'n world \<Rightarrow> (stream option, 'n) outcome" where
  "open_input ext filename w =
     (if take 2 filename = ''<<'' then
        (case current_script_file w of
           None \<Rightarrow>
             log_error (''Unexpected here document '' @ [CHR 0x27] @ filename @ [CHR 0x27]
                         @ '' outside of script!'' @ [LF]) w
         | Some script \<Rightarrow>
             if length filename \<le> 2 then log_error (''Missing EOT marker in here document!'' @ [LF]) w
             else
               (let eot_marker = drop 2 filename in
                case here_document filename eot_marker [] script of
                  (Some e, doc, script') \<Rightarrow>
                    Raises e (w \<lparr> current_script_file := Some script', last_here_document := doc \<rparr>)
                | (None, doc, script') \<Rightarrow>
                    (case fmemopen doc (w \<lparr> current_script_file := Some script',
                                             last_here_document := doc \<rparr>) of
                       (f, w1) \<Rightarrow> Returns f w1)))
      else (case fopen ext filename ''r'' w of (f, w1) \<Rightarrow> Returns f w1))"

definition Frontend_extra_args ::
  "'n ext \<Rightarrow> stream option \<Rightarrow> string \<Rightarrow> string list \<Rightarrow> nat \<Rightarrow> 'n world
     \<Rightarrow> (stream option \<times> string, 'n) outcome" where
  "Frontend_extra_args ext f filename args argidx w0 =
     (let w = w0 \<lparr> next_args := [] \<rparr> in
      if argidx < length args then
        (let arg = args ! argidx in
         if take 1 arg = ''-'' then cmd_error args argidx ''Unkown option or option in arguments.'' w
         else if f \<noteq> None then
           cmd_error args argidx ''Extra filename argument in direct file mode.'' w
         else
           (let joined = (arg = ''<<'' \<and> argidx + 1 < length args);
                filename = (if joined then arg @ args ! (argidx + 1) else arg);
                argidx = (if joined then argidx + 1 else argidx)
            in and_then (open_input ext filename w) (\<lambda>f w1.
                 if f = None then
                   log_cmd_error (''Can't open input file '' @ [CHR 0x60] @ filename @ [CHR 0x27]
                                   @ '' for reading: '' @ os_strerror ext filename @ [LF]) w1
                 else
                   (case find (\<lambda>i. take 1 (args ! i) = ''-'') [argidx + 1 ..< length args] of
                      Some i \<Rightarrow> cmd_error args i ''Found option, expected arguments.'' w1
                    | None \<Rightarrow>
                        Returns (f, filename)
                          (if argidx + 1 < length args
                           then w1 \<lparr> next_args := take argidx args @ drop (argidx + 1) args \<rparr>
                           else w1)))))
      else if f = None then cmd_error args argidx ''No filename given.'' w
      else Returns (f, filename) w)"

subsection \<open>The backend driver\<close>

definition Backend_execute :: "'n ext \<Rightarrow> nat \<Rightarrow> string list \<Rightarrow> 'n world \<Rightarrow> (unit, 'n) outcome" where
  "Backend_execute ext this args w =
     and_then (format_execute ext this None [] args (incr_call_counter this w)) (\<lambda>f w1.
       if f \<noteq> Some Stdout then fclose f w1 else Returns () w1)"

text \<open>The loop of \<^verbatim>\<open>Backend::extra_args\<close> over the arguments from \<^verbatim>\<open>argidx\<close>
  on; it has no \<^verbatim>\<open>break\<close>.\<close>

function Backend_extra_args_loop ::
  "'n ext \<Rightarrow> stream option \<Rightarrow> string \<Rightarrow> string list \<Rightarrow> nat \<Rightarrow> 'n world
     \<Rightarrow> (stream option \<times> string, 'n) outcome" where
  "Backend_extra_args_loop ext f filename args argidx w =
     (if argidx < length args then
        (let arg = args ! argidx in
         if take 1 arg = ''-'' \<and> arg \<noteq> ''-'' then
           cmd_error args argidx ''Unkown option or option in arguments.'' w
         else if f \<noteq> None then
           cmd_error args argidx ''Extra filename argument in direct file mode.'' w
         else if arg = ''-'' then
           Backend_extra_args_loop ext (Some Stdout) ''<stdout>'' args (argidx + 1) w
         else
           (case fopen ext arg ''w'' w of
              (None, w1) \<Rightarrow>
                log_cmd_error (''Can't open output file '' @ [CHR 0x60] @ arg @ [CHR 0x27]
                                @ '' for writing: '' @ os_strerror ext arg @ [LF]) w1
            | (Some s, w1) \<Rightarrow> Backend_extra_args_loop ext (Some s) arg args (argidx + 1) w1))
      else Returns (f, filename) w)"
  by pat_completeness auto
termination
  by (relation "measure (\<lambda>(ext, f, filename, args, argidx, w). length args - argidx)") auto

declare Backend_extra_args_loop.simps [simp del]

text \<open>\<^verbatim>\<open>Backend::extra_args\<close>. After the loop the local copy of \<^verbatim>\<open>args\<close> gets
  the file name appended when a stream was passed in, and \<^verbatim>\<open>args[0] = pass_name\<close>
  is then written, which is undefined on a vector that is still empty.\<close>

definition Backend_extra_args ::
  "'n ext \<Rightarrow> stream option \<Rightarrow> string \<Rightarrow> string list \<Rightarrow> nat \<Rightarrow> 'n world
     \<Rightarrow> (stream option \<times> string, 'n) outcome" where
  "Backend_extra_args ext f filename args argidx w =
     (let called_with_fp = (f \<noteq> None) in
      and_then (Backend_extra_args_loop ext f filename args argidx w) (\<lambda>(f, filename) w1.
        if (if called_with_fp then args @ [filename] else args) = []
        then Raises (UndefinedBehaviour ''args[0] on an empty vector'') w1
        else if f = None then Returns (Some Stdout, ''<stdout>'') w1
        else Returns (f, filename) w1))"

subsection \<open>The dispatcher\<close>

text \<open>The virtual call \<^verbatim>\<open>pass_register[args[0]]->execute(args, design)\<close>.\<close>

definition execute :: "'n ext \<Rightarrow> nat \<Rightarrow> string list \<Rightarrow> 'n world \<Rightarrow> (unit, 'n) outcome" where
  "execute ext this args w =
     (case pass_class (store w this) of
        PlainPass \<Rightarrow> pass_execute ext this args w
      | FrontendPass _ \<Rightarrow> Frontend_execute ext this args w
      | BackendPass _ \<Rightarrow> Backend_execute ext this args w)"

text \<open>\<^verbatim>\<open>Pass::call(RTLIL::Design *design, std::vector<std::string> args)\<close>. In echo
  mode the command line is written to the log first, which changes nothing here.\<close>

definition Pass_call_vec :: "'n ext \<Rightarrow> string list \<Rightarrow> 'n world \<Rightarrow> (unit, 'n) outcome" where
  "Pass_call_vec ext args w =
     (if length args = 0 \<or> first_char (args ! 0) = CHR ''#'' then Returns () w
      else
        (case pass_register w (args ! 0) of
           None \<Rightarrow>
             log_cmd_error (''No such command: '' @ args ! 0
                             @ '' (type 'help' for a command overview)'' @ [LF]) w
         | Some this \<Rightarrow>
             (let orig_sel_stack_pos = length (selection_stack (design w)) in
              and_then (execute ext this args (incr_call_counter this w)) (\<lambda>_ w1.
                check ext
                  (set_selection_stack (unwind orig_sel_stack_pos (selection_stack (design w1))) w1)))))"

text \<open>\<^verbatim>\<open>while (strsz > 0 && str[strsz-1] == ';') strsz--, num_semikolon++;\<close>\<close>

function semikolon_loop :: "string \<Rightarrow> int \<Rightarrow> int \<Rightarrow> int \<times> int" where
  "semikolon_loop str strsz num_semikolon =
     (if strsz > 0 \<and> str ! nat (strsz - 1) = CHR '';''
      then semikolon_loop str (strsz - 1) (num_semikolon + 1)
      else (strsz, num_semikolon))"
  by pat_completeness auto
termination
  by (relation "measure (\<lambda>(str, strsz, num_semikolon). nat strsz)") auto

declare semikolon_loop.simps [simp del]

definition ends_in_semikolon :: "string \<Rightarrow> bool" where
  "ends_in_semikolon str =
     (let strsz = to_int (length str) in strsz > 0 \<and> str ! nat (strsz - 1) = CHR '';'')"

text \<open>Decimal digits of \<^verbatim>\<open>%d\<close>.\<close>

function show_nat :: "nat \<Rightarrow> string" where
  "show_nat n =
     (if n < 10 then [char_of (48 + n)] else show_nat (n div 10) @ [char_of (48 + n mod 10)])"
  by pat_completeness auto
termination
  by (relation "measure id") auto

declare show_nat.simps [simp del]

definition show_int :: "int \<Rightarrow> string" where
  "show_int i = (if i < 0 then ''-'' @ show_nat (nat (- i)) else show_nat (nat i))"

text \<open>\<^verbatim>\<open>Pass::call(RTLIL::Design *design, std::string command)\<close> and its loop over the
  tokens of \<^verbatim>\<open>strtok_r\<close>, which holds the argument vector built so far. The calls
  \<^verbatim>\<open>call(design, "clean")\<close> and \<^verbatim>\<open>call(design, "clean -purge")\<close> go through
  the string form again.\<close>

function Pass_call_str :: "'n ext \<Rightarrow> string \<Rightarrow> 'n world \<Rightarrow> (unit, 'n) outcome"
  and Pass_call_loop :: "'n ext \<Rightarrow> string list \<Rightarrow> string list \<Rightarrow> 'n world \<Rightarrow> (unit, 'n) outcome"
where
  "Pass_call_str ext command w =
     (let s = dropWhile is_blank (c_str command) in
      if first_char s = NUL \<or> first_char s = CHR ''#'' then Returns () w
      else if first_char s = CHR ''!'' then
        (let s1 = dropWhile (\<lambda>c. c = CHR '' '' \<or> c = TAB) (tl s);
             s2 = rev (dropWhile (\<lambda>c. c = CR \<or> c = LF) (rev s1));
             retCode = os_system ext s2
         in if retCode \<noteq> 0
            then log_cmd_error (''Shell command returned error code '' @ show_int retCode @ ''.''
                                 @ [LF]) (emit (System s2) w)
            else Returns () (emit (System s2) w))
      else Pass_call_loop ext (strtok_all s) [] w)"
| "Pass_call_loop ext [] args w = Pass_call_vec ext args w"
| "Pass_call_loop ext (str # rest) args w =
     (if str = ''#'' then Pass_call_vec ext args w
      else if ends_in_semikolon str then
        (case semikolon_loop str (to_int (length str)) 0 of
           (strsz, num_semikolon) \<Rightarrow>
             and_then (Pass_call_vec ext
                         (if strsz > 0 then args @ [take (nat strsz) str] else args) w) (\<lambda>_ w1.
             and_then (if num_semikolon = 2 then Pass_call_str ext ''clean'' w1
                       else Returns () w1) (\<lambda>_ w2.
             and_then (if num_semikolon = 3 then Pass_call_str ext ''clean -purge'' w2
                       else Returns () w2) (\<lambda>_ w3.
               Pass_call_loop ext rest [] w3))))
      else Pass_call_loop ext rest (args @ [str]) w)"
  by pat_completeness auto

lemma strtok_all_Nil: "strtok_all [] = []"
  by (simp add: strtok_all.simps)

lemma strtok_all_Cons:
  "strtok_all (c # s) =
     (if is_blank c then strtok_all s
      else (c # takeWhile (\<lambda>c. \<not> is_blank c) s) # strtok_all (dropWhile (\<lambda>c. \<not> is_blank c) s))"
  by (simp add: strtok_all.simps [of "c # s"] strtok_all.simps [of s] Let_def)

lemma to_int_small: "n < 2 ^ 31 \<Longrightarrow> to_int n = int n"
  unfolding to_int_def
  apply (simp add: sint_uint unsigned_of_nat)
  apply (simp add: signed_take_bit_eq_take_bit_shift take_bit_nat_eq_self take_bit_int_eq_self)
  done

lemma clean_no_semikolon:
  "\<not> ends_in_semikolon ''clean''" "\<not> ends_in_semikolon ''-purge''"
  by (simp_all add: ends_in_semikolon_def to_int_small)

lemma clean_tokens:
  "strtok_all (dropWhile is_blank (c_str ''clean'')) = [''clean'']"
  "strtok_all (dropWhile is_blank (c_str ''clean -purge'')) = [''clean'', ''-purge'']"
  by (simp_all add: c_str_def is_blank_def strtok_all_Cons strtok_all_Nil)

termination Pass_call_str
proof (relation "inv_image (less_than <*lex*> less_than <*lex*> less_than)
    (\<lambda>x. case x of
       Inl (ext, command, w) \<Rightarrow>
         (if command = ''clean'' \<or> command = ''clean -purge'' then 0 else 1, 1::nat, 0::nat)
     | Inr (ext, toks, args, w) \<Rightarrow>
         (if list_ex ends_in_semikolon toks then 1 else 0::nat, 0, length toks))", goal_cases)
  case 1
  show ?case by (intro wf_inv_image wf_lex_prod wf_less_than)
next
  case (2 ext command w s)
  then show ?case
    by (auto simp: clean_tokens clean_no_semikolon)
next
  case (3 ext str rest args w x strsz num_semikolon)
  then show ?case by auto
next
  case (4 ext str rest args w x strsz num_semikolon)
  then show ?case by auto
next
  case (5 ext str rest args w x strsz num_semikolon)
  then show ?case by auto
next
  case (6 ext str rest args w)
  then show ?case by auto
qed

declare Pass_call_str.simps [simp del]
declare Pass_call_loop.simps [simp del]

subsection \<open>Scoped calls\<close>

definition call_on_selection_str ::
  "'n ext \<Rightarrow> selection \<Rightarrow> string \<Rightarrow> 'n world \<Rightarrow> (unit, 'n) outcome" where
  "call_on_selection_str ext sel command w =
     (let backup_selected_active_module = selected_active_module (design w) in
      and_then (Pass_call_str ext command (push_back sel (set_selected_active_module [] w))) (\<lambda>_ w1.
      and_then (pop_back w1) (\<lambda>_ w2.
        Returns () (set_selected_active_module backup_selected_active_module w2))))"

definition call_on_selection_vec ::
  "'n ext \<Rightarrow> selection \<Rightarrow> string list \<Rightarrow> 'n world \<Rightarrow> (unit, 'n) outcome" where
  "call_on_selection_vec ext sel args w =
     (let backup_selected_active_module = selected_active_module (design w) in
      and_then (Pass_call_vec ext args (push_back sel (set_selected_active_module [] w))) (\<lambda>_ w1.
      and_then (pop_back w1) (\<lambda>_ w2.
        Returns () (set_selected_active_module backup_selected_active_module w2))))"

text \<open>The state \<^verbatim>\<open>call_on_module\<close> hands to the inner call: the active module set
  to the module's name, and \<^verbatim>\<open>Selection(false)\<close> pushed and the module selected in
  it.\<close>

definition enter_module :: "rtlil_module \<Rightarrow> 'n world \<Rightarrow> 'n world" where
  "enter_module m w =
     (let w1 = push_back (Selection False) (set_selected_active_module (name_of_module m) w)
      in set_selection_stack
           (butlast (selection_stack (design w1)) @ [select_module m (last (selection_stack (design w1)))])
           w1)"

definition call_on_module_str ::
  "'n ext \<Rightarrow> rtlil_module \<Rightarrow> string \<Rightarrow> 'n world \<Rightarrow> (unit, 'n) outcome" where
  "call_on_module_str ext m command w =
     (let backup_selected_active_module = selected_active_module (design w) in
      and_then (Pass_call_str ext command (enter_module m w)) (\<lambda>_ w1.
      and_then (pop_back w1) (\<lambda>_ w2.
        Returns () (set_selected_active_module backup_selected_active_module w2))))"

definition call_on_module_vec ::
  "'n ext \<Rightarrow> rtlil_module \<Rightarrow> string list \<Rightarrow> 'n world \<Rightarrow> (unit, 'n) outcome" where
  "call_on_module_vec ext m args w =
     (let backup_selected_active_module = selected_active_module (design w) in
      and_then (Pass_call_vec ext args (enter_module m w)) (\<lambda>_ w1.
      and_then (pop_back w1) (\<lambda>_ w2.
        Returns () (set_selected_active_module backup_selected_active_module w2))))"

subsection \<open>The command language as the specification words it\<close>

text \<open>A token without its trailing semicolons, and how many there were.\<close>

definition strip_semikolon :: "string \<Rightarrow> string" where
  "strip_semikolon str = rev (dropWhile (\<lambda>c. c = CHR '';'') (rev str))"

definition count_semikolon :: "string \<Rightarrow> nat" where
  "count_semikolon str = length str - length (strip_semikolon str)"

subsection \<open>The dispatches of a command line\<close>

text \<open>Dispatching argument vectors one after the other; the first that does not return
  ends the sequence.\<close>

fun dispatch_all :: "'n ext \<Rightarrow> string list list \<Rightarrow> 'n world \<Rightarrow> (unit, 'n) outcome" where
  "dispatch_all ext [] w = Returns () w"
| "dispatch_all ext (args # others) w =
     and_then (Pass_call_vec ext args w) (\<lambda>_ w1. dispatch_all ext others w1)"

text \<open>The argument vectors that the loop of the string form of \<^verbatim>\<open>Pass::call\<close> hands
  to the vector form, in their order, from the tokens still to come and the vector built
  so far. The tests and the counting loop are those of the source; the calls
  \<^verbatim>\<open>call(design, "clean")\<close> and \<^verbatim>\<open>call(design, "clean -purge")\<close> stand as the
  vectors they are tokenized into.\<close>

fun chain :: "string list \<Rightarrow> string list \<Rightarrow> string list list" where
  "chain [] args = [args]"
| "chain (str # rest) args =
     (if str = ''#'' then [args]
      else if ends_in_semikolon str then
        (case semikolon_loop str (to_int (length str)) 0 of
           (strsz, num_semikolon) \<Rightarrow>
             (if strsz > 0 then args @ [take (nat strsz) str] else args)
             # (if num_semikolon = 2 then [[''clean'']] else [])
             @ (if num_semikolon = 3 then [[''clean'', ''-purge'']] else [])
             @ chain rest [])
      else chain rest (args @ [str]))"

subsection \<open>A small configuration for concrete runs\<close>

text \<open>Commands whose \<^verbatim>\<open>execute\<close> does nothing, a check that passes, and a registry
  with the plain passes \<^verbatim>\<open>foo\<close> (object 0) and \<^verbatim>\<open>clean\<close> (object 1).\<close>

definition idle_ext :: "unit ext" where
  "idle_ext =
     \<lparr> pass_execute = (\<lambda>this args w. Returns () w),
       format_execute = (\<lambda>this f filename args w. Returns f w),
       design_check = (\<lambda>d. True),
       os_system = (\<lambda>s. 0),
       os_can_open = (\<lambda>path mode. True),
       os_strerror = (\<lambda>path. []) \<rparr>"

definition empty_design :: "unit design" where
  "empty_design = \<lparr> selection_stack = [], selected_active_module = [], netlist = () \<rparr>"

definition foo_clean_world :: "unit world" where
  "foo_clean_world =
     (initial_world empty_design)
       \<lparr> store := (\<lambda>this.
            \<lparr> pass_name = (if this = 0 then ''foo'' else ''clean''), short_help = [],
              call_counter = 0, pass_class = PlainPass \<rparr>),
         store_next := 2,
         pass_register := [''foo'' \<mapsto> 0, ''clean'' \<mapsto> 1] \<rparr>"

text \<open>The same with one frame on the selection stack.\<close>

definition one_frame_world :: "unit world" where
  "one_frame_world = set_selection_stack [Selection True] foo_clean_world"

text \<open>Commands that end in a command error, under a check that would fail.\<close>

definition failing_ext :: "unit ext" where
  "failing_ext =
     idle_ext \<lparr> pass_execute := (\<lambda>this args w. log_cmd_error ''boom'' w),
                design_check := (\<lambda>d. False) \<rparr>"

text \<open>Commands that leave two more frames on the selection stack, and commands that
  take the top frame off.\<close>

definition pushing_ext :: "unit ext" where
  "pushing_ext =
     idle_ext \<lparr> pass_execute := (\<lambda>this args w.
       Returns () (push_back (Selection True) (push_back (Selection False) w))) \<rparr>"

definition popping_ext :: "unit ext" where
  "popping_ext = idle_ext \<lparr> pass_execute := (\<lambda>this args w. pop_back w) \<rparr>"

text \<open>The state an outcome carries.\<close>

definition outcome_world :: "('a, 'n) outcome \<Rightarrow> 'n world option" where
  "outcome_world r = (case r of Returns _ w \<Rightarrow> Some w | Raises _ w \<Rightarrow> Some w | Diverges \<Rightarrow> None)"

definition depth :: "'n world \<Rightarrow> nat" where
  "depth w = length (selection_stack (design w))"

definition returned :: "('a, 'n) outcome \<Rightarrow> bool" where
  "returned r = (case r of Returns _ _ \<Rightarrow> True | _ \<Rightarrow> False)"

definition raised :: "('a, 'n) outcome \<Rightarrow> error option" where
  "raised r = (case r of Raises e _ \<Rightarrow> Some e | _ \<Rightarrow> None)"

definition counter_of :: "nat \<Rightarrow> 'n world \<Rightarrow> 32 word" where
  "counter_of this w = call_counter (store w this)"

text \<open>The \<^verbatim>\<open>execute\<close> that the dispatch of \<open>args\<close> runs in the state \<open>w\<close>, if
  the dispatch runs one and it returns, leaves at least as many selection frames as it
  found.\<close>

definition leaves_frames :: "'n ext \<Rightarrow> string list \<Rightarrow> 'n world \<Rightarrow> bool" where
  "leaves_frames ext args w =
     (if args = [] \<or> first_char (args ! 0) = CHR ''#'' then True
      else case pass_register w (args ! 0) of
             None \<Rightarrow> True
           | Some this \<Rightarrow>
               (case execute ext this args (incr_call_counter this w) of
                  Returns _ w1 \<Rightarrow> depth w \<le> depth w1
                | _ \<Rightarrow> True))"

text \<open>The same of every dispatch of a sequence, each in the state the dispatch before it
  returned in.\<close>

fun frames_kept :: "'n ext \<Rightarrow> string list list \<Rightarrow> 'n world \<Rightarrow> bool" where
  "frames_kept ext [] w = True"
| "frames_kept ext (args # others) w =
     (leaves_frames ext args w \<and>
      (case Pass_call_vec ext args w of
         Returns _ w1 \<Rightarrow> frames_kept ext others w1
       | _ \<Rightarrow> True))"

text \<open>The argument vectors that the string form of \<^verbatim>\<open>Pass::call\<close> dispatches for a
  line: none for an empty line, a comment and a shell command.\<close>

definition dispatched :: "string \<Rightarrow> string list list" where
  "dispatched command =
     (let s = dropWhile is_blank (c_str command) in
      if first_char s = NUL \<or> first_char s = CHR ''#'' \<or> first_char s = CHR ''!'' then []
      else chain (strtok_all s) [])"

text \<open>Commands of which \<^verbatim>\<open>foo\<close> (object 0) leaves two more frames on the selection
  stack and every other takes the top frame off.\<close>

definition foo_pushing_ext :: "unit ext" where
  "foo_pushing_ext =
     idle_ext \<lparr> pass_execute := (\<lambda>this args w.
       if this = 0 then Returns () (push_back (Selection True) (push_back (Selection False) w))
       else pop_back w) \<rparr>"

subsection \<open>Sequences of constructions\<close>

text \<open>The static constructors that run before \<^verbatim>\<open>init_register\<close>, in their order; the
  \<open>i\<close>-th object constructed from the initial state has address \<open>i\<close>.\<close>

datatype ctor =
    NewPass string string
  | NewFrontend string string
  | NewBackend string string

fun construct :: "ctor \<Rightarrow> 'n world \<Rightarrow> 'n world" where
  "construct (NewPass name help) w = snd (Pass_new name help w)"
| "construct (NewFrontend name help) w = snd (Frontend_new name help w)"
| "construct (NewBackend name help) w = snd (Backend_new name help w)"

definition construct_all :: "ctor list \<Rightarrow> 'n world \<Rightarrow> 'n world" where
  "construct_all cs w = foldl (\<lambda>w c. construct c w) w cs"

text \<open>The names a construction will be registered under: in the namespace of all
  commands, and in the namespace of its format if it is a frontend or a backend.\<close>

fun ctor_object :: "ctor \<Rightarrow> pass_obj" where
  "ctor_object (NewPass name help) =
     \<lparr> pass_name = name, short_help = help, call_counter = 0, pass_class = PlainPass \<rparr>"
| "ctor_object (NewFrontend name help) =
     \<lparr> pass_name = (if starts_with_eq name then drop 1 name else ''read_'' @ name),
       short_help = help, call_counter = 0,
       pass_class = FrontendPass (if starts_with_eq name then drop 1 name else name) \<rparr>"
| "ctor_object (NewBackend name help) =
     \<lparr> pass_name = (if starts_with_eq name then drop 1 name else ''write_'' @ name),
       short_help = help, call_counter = 0,
       pass_class = BackendPass (if starts_with_eq name then drop 1 name else name) \<rparr>"

fun frontend_names :: "pass_obj list \<Rightarrow> string list" where
  "frontend_names [] = []"
| "frontend_names (obj # objs) =
     (case pass_class obj of FrontendPass n \<Rightarrow> n # frontend_names objs | _ \<Rightarrow> frontend_names objs)"

fun backend_names :: "pass_obj list \<Rightarrow> string list" where
  "backend_names [] = []"
| "backend_names (obj # objs) =
     (case pass_class obj of BackendPass n \<Rightarrow> n # backend_names objs | _ \<Rightarrow> backend_names objs)"

definition distinct_names :: "pass_obj list \<Rightarrow> bool" where
  "distinct_names objs =
     (distinct (map pass_name objs) \<and> distinct (frontend_names objs)
      \<and> distinct (backend_names objs))"

text \<open>Every queued object can be registered: the names of the queued objects are distinct
  in each namespace, and none of them is in its register yet.\<close>

definition registrable :: "'n world \<Rightarrow> bool" where
  "registrable w =
     (let objs = map (store w) (first_queued_pass w) in
      distinct_names objs
      \<and> list_all (\<lambda>n. pass_register w n = None) (map pass_name objs)
      \<and> list_all (\<lambda>n. frontend_register w n = None) (frontend_names objs)
      \<and> list_all (\<lambda>n. backend_register w n = None) (backend_names objs))"

text \<open>One registration that meets no assertion, and when that is the case.\<close>

definition registered :: "nat \<Rightarrow> 'n world \<Rightarrow> 'n world" where
  "registered this w =
     (case pass_class (store w this) of
        PlainPass \<Rightarrow> w \<lparr> pass_register := (pass_register w) (pass_name (store w this) \<mapsto> this) \<rparr>
      | FrontendPass n \<Rightarrow>
          w \<lparr> pass_register := (pass_register w) (pass_name (store w this) \<mapsto> this),
              frontend_register := (frontend_register w) (n \<mapsto> this) \<rparr>
      | BackendPass n \<Rightarrow>
          w \<lparr> pass_register := (pass_register w) (pass_name (store w this) \<mapsto> this),
              backend_register := (backend_register w) (n \<mapsto> this) \<rparr>)"

definition can_register :: "nat \<Rightarrow> 'n world \<Rightarrow> bool" where
  "can_register this w =
     (pass_register w (pass_name (store w this)) = None
      \<and> (case pass_class (store w this) of
            PlainPass \<Rightarrow> True
          | FrontendPass n \<Rightarrow> frontend_register w n = None
          | BackendPass n \<Rightarrow> backend_register w n = None))"

subsection \<open>Continuation rounds of the frontend driver\<close>




definition writing_ext :: "unit ext" where
  "writing_ext =
     idle_ext \<lparr> format_execute := (\<lambda>this f filename args w.
       and_then (Backend_extra_args idle_ext f filename args 1 w) (\<lambda>r w1. Returns (fst r) w1)) \<rparr>"

definition verilog_world :: "unit world" where
  "verilog_world =
     (initial_world empty_design)
       \<lparr> store := (\<lambda>this.
            if this = 0
            then \<lparr> pass_name = ''read_verilog'', short_help = [], call_counter = 0,
                   pass_class = FrontendPass ''verilog'' \<rparr>
            else \<lparr> pass_name = ''write_verilog'', short_help = [], call_counter = 0,
                   pass_class = BackendPass ''verilog'' \<rparr>),
         store_next := 2,
         pass_register := [''read_verilog'' \<mapsto> 0, ''write_verilog'' \<mapsto> 1],
         frontend_register := [''verilog'' \<mapsto> 0],
         backend_register := [''verilog'' \<mapsto> 1] \<rparr>"

subsection \<open>Script lines of a here-document\<close>

text \<open>\<^verbatim>\<open>fgets\<close> hands a line over in blocks of at most 4095 characters, and the inner
  loop takes a carriage return at the end of a block for the end of the line: no block but
  the last of the line \<open>l\<close> ends in one.\<close>

function whole_blocks :: "string \<Rightarrow> bool" where
  "whole_blocks l =
     (if length l \<le> 4095 then True else l ! 4094 \<noteq> CR \<and> whole_blocks (drop 4095 l))"
  by pat_completeness auto
termination
  by (relation "measure length") auto

declare whole_blocks.simps [simp del]

text \<open>A script line that the inner loop hands over whole and as it is: it ends in its only
  newline, holds no NUL, is put together again from its blocks, and has a character that
  is not blank, after fewer than \<open>2^31\<close> blanks.\<close>

definition plain_line :: "string \<Rightarrow> bool" where
  "plain_line l =
     (l \<noteq> [] \<and> last l = LF \<and> LF \<notin> set (butlast l) \<and> NUL \<notin> set l \<and> whole_blocks l
      \<and> \<not> list_all is_blank l \<and> length (takeWhile is_blank l) < 2 ^ 31)"

text \<open>The text the specification has a here-document capture from the lines that follow:
  the lines up to, and without, the first one whose content without its leading blanks
  equals the end marker; nothing if no line does.\<close>

fun capture_spec :: "string \<Rightarrow> string list \<Rightarrow> string option" where
  "capture_spec eot_marker [] = None"
| "capture_spec eot_marker (l # ls) =
     (if dropWhile is_blank (butlast l) = eot_marker then Some []
      else map_option (\<lambda>doc. l @ doc) (capture_spec eot_marker ls))"

section \<open>Basic facts\<close>

lemma and_then_Returns [simp]: "and_then (Returns x w) f = f x w"
  by (simp add: and_then_def)

lemma and_then_Raises [simp]: "and_then (Raises e w) f = Raises e w"
  by (simp add: and_then_def)

lemma and_then_Diverges [simp]: "and_then Diverges f = Diverges"
  by (simp add: and_then_def)

lemma and_then_Returns_right [simp]: "and_then m (\<lambda>_ w. Returns () w) = m"
  by (cases m) auto

lemma Pass_call_vec_Nil [simp]: "Pass_call_vec ext [] w = Returns () w"
  by (simp add: Pass_call_vec_def)

subsection \<open>Trailing semicolons\<close>

lemma strip_semikolon_snoc:
  "strip_semikolon (xs @ [c]) = (if c = CHR '';'' then strip_semikolon xs else xs @ [c])"
  by (simp add: strip_semikolon_def)

lemma strip_semikolon_Nil [simp]: "strip_semikolon [] = []"
  by (simp add: strip_semikolon_def)

lemma length_strip_semikolon_le: "length (strip_semikolon s) \<le> length s"
  by (simp add: strip_semikolon_def) (metis length_dropWhile_le length_rev)

lemma semikolon_loop_take:
  "k \<le> length str \<Longrightarrow>
   semikolon_loop str (int k) m =
     (int (length (strip_semikolon (take k str))),
      m + int (k - length (strip_semikolon (take k str))))"
proof (induction k arbitrary: m)
  case 0
  then show ?case by (simp add: semikolon_loop.simps)
next
  case (Suc k)
  then have k: "k < length str" by simp
  have tk: "take (Suc k) str = take k str @ [str ! k]"
    using k by (simp add: take_Suc_conv_app_nth)
  show ?case
  proof (cases "str ! k = CHR '';''")
    case True
    have "semikolon_loop str (int (Suc k)) m = semikolon_loop str (int k) (m + 1)"
      using True by (subst semikolon_loop.simps) simp
    also have "\<dots> = (int (length (strip_semikolon (take k str))),
        m + 1 + int (k - length (strip_semikolon (take k str))))"
      using Suc.IH [of "m + 1"] k by simp
    finally show ?thesis
      using True tk length_strip_semikolon_le [of "take k str"] k
      by (simp add: strip_semikolon_snoc Suc_diff_le)
  next
    case False
    have "semikolon_loop str (int (Suc k)) m = (int (Suc k), m)"
      using False by (subst semikolon_loop.simps) simp
    then show ?thesis
      using False tk k by (simp add: strip_semikolon_snoc)
  qed
qed

lemma semikolon_loop_eq:
  "length str < 2 ^ 31 \<Longrightarrow>
   semikolon_loop str (to_int (length str)) 0 =
     (int (length (strip_semikolon str)), int (count_semikolon str))"
  using semikolon_loop_take [of "length str" str 0]
  by (simp add: to_int_small count_semikolon_def)

lemma ends_in_semikolon_iff:
  "length str < 2 ^ 31 \<Longrightarrow> ends_in_semikolon str = (str \<noteq> [] \<and> last str = CHR '';'')"
  by (cases str rule: rev_cases) (auto simp: ends_in_semikolon_def to_int_small Let_def nth_append)

lemma take_strip_semikolon: "take (length (strip_semikolon s)) s = strip_semikolon s"
proof -
  have "s = strip_semikolon s @ rev (takeWhile (\<lambda>c. c = CHR '';'') (rev s))"
    unfolding strip_semikolon_def
    by (metis rev_append rev_rev_ident takeWhile_dropWhile_id)
  then show ?thesis
    by (metis append_eq_conv_conj)
qed

subsection \<open>The string form of the call, one token at a time\<close>

lemma Pass_call_str_clean: "Pass_call_str ext ''clean'' w = Pass_call_vec ext [''clean''] w"
  apply (subst Pass_call_str.simps)
  apply (simp add: clean_tokens Let_def)
  apply (simp add: c_str_def is_blank_def first_char_def)
  apply (simp add: Pass_call_loop.simps clean_no_semikolon)
  done

lemma Pass_call_str_clean_purge:
  "Pass_call_str ext ''clean -purge'' w = Pass_call_vec ext [''clean'', ''-purge''] w"
  apply (subst Pass_call_str.simps)
  apply (simp add: clean_tokens Let_def)
  apply (simp add: c_str_def is_blank_def first_char_def)
  apply (simp add: Pass_call_loop.simps clean_no_semikolon)
  done

lemma Pass_call_loop_Cons:
  "length str < 2 ^ 31 \<Longrightarrow>
   Pass_call_loop ext (str # rest) args w =
     (if str = ''#'' then Pass_call_vec ext args w
      else if str \<noteq> [] \<and> last str = CHR '';'' then
        and_then (Pass_call_vec ext
           (if strip_semikolon str \<noteq> [] then args @ [strip_semikolon str] else args) w) (\<lambda>_ w1.
        and_then (if count_semikolon str = 2 then Pass_call_vec ext [''clean''] w1
                  else if count_semikolon str = 3 then Pass_call_vec ext [''clean'', ''-purge''] w1
                  else Returns () w1) (\<lambda>_ w2.
          Pass_call_loop ext rest [] w2))
      else Pass_call_loop ext rest (args @ [str]) w)"
  apply (subst Pass_call_loop.simps)
  apply (cases "count_semikolon str = 2"; cases "count_semikolon str = 3")
     apply (simp_all add: ends_in_semikolon_iff semikolon_loop_eq take_strip_semikolon
      Pass_call_str_clean Pass_call_str_clean_purge)
  done

lemma dispatch_all_Nil_eta [simp]: "dispatch_all ext [] = Returns ()"
  by (rule ext) simp

lemma and_then_Returns_eta [simp]: "and_then m Returns = m"
  by (cases m) auto

lemma dispatch_all_Cons_eta:
  "dispatch_all ext (args # others) =
     (\<lambda>w. and_then (Pass_call_vec ext args w) (\<lambda>_. dispatch_all ext others))"
  by (rule ext) simp

lemma Pass_call_loop_Nil: "Pass_call_loop ext [] args w = Pass_call_vec ext args w"
  by (simp add: Pass_call_loop.simps)

lemma and_then_assoc:
  "and_then (and_then m f) g = and_then m (\<lambda>x w. and_then (f x w) g)"
  by (cases m) simp_all

lemma dispatch_all_append:
  "dispatch_all ext (xs @ ys) w =
     and_then (dispatch_all ext xs w) (\<lambda>_ w1. dispatch_all ext ys w1)"
proof (induction xs arbitrary: w)
  case Nil
  show ?case by simp
next
  case (Cons a xs)
  have IH: "dispatch_all ext (xs @ ys) =
      (\<lambda>w. and_then (dispatch_all ext xs w) (\<lambda>_ w1. dispatch_all ext ys w1))"
    by (rule ext) (rule Cons.IH)
  show ?case by (simp add: and_then_assoc IH)
qed

lemma Pass_call_loop_chain:
  "Pass_call_loop ext toks args w = dispatch_all ext (chain toks args) w"
proof (induction toks arbitrary: args w)
  case Nil
  show ?case by (simp add: Pass_call_loop_Nil)
next
  case (Cons t ts)
  have IH: "\<And>args. Pass_call_loop ext ts args = dispatch_all ext (chain ts args)"
    by (rule ext) (rule Cons.IH)
  obtain strsz num_semikolon where
    sl: "semikolon_loop t (to_int (length t)) 0 = (strsz, num_semikolon)"
    by (cases "semikolon_loop t (to_int (length t)) 0")
  show ?case
    apply (subst Pass_call_loop.simps)
    apply (cases "num_semikolon = 2"; cases "num_semikolon = 3")
    apply (simp_all add: sl IH Pass_call_str_clean Pass_call_str_clean_purge
        dispatch_all_Cons_eta)
    done
qed

lemma chain_Cons:
  "length t < 2 ^ 31 \<Longrightarrow>
   chain (t # ts) args =
     (if t = ''#'' then [args]
      else if t \<noteq> [] \<and> last t = CHR '';'' then
        (if strip_semikolon t \<noteq> [] then args @ [strip_semikolon t] else args)
        # (if count_semikolon t = 2 then [[''clean'']]
           else if count_semikolon t = 3 then [[''clean'', ''-purge'']]
           else [])
        @ chain ts []
      else chain ts (args @ [t]))"
  by (simp add: ends_in_semikolon_iff semikolon_loop_eq take_strip_semikolon)

declare chain.simps(2) [simp del]

lemma Pass_call_str_tokens:
  "first_char (dropWhile is_blank (c_str command)) \<notin> {NUL, CHR ''#'', CHR ''!''} \<Longrightarrow>
   Pass_call_str ext command w =
     Pass_call_loop ext (strtok_all (dropWhile is_blank (c_str command))) [] w"
  by (subst Pass_call_str.simps) (simp add: Let_def)

lemmas run_tokens = c_str_def is_blank_def first_char_def strtok_all_Cons strtok_all_Nil
  strip_semikolon_def count_semikolon_def

lemmas run_dispatch = Pass_call_vec_def idle_ext_def foo_clean_world_def initial_world_def
  empty_design_def execute_def incr_call_counter_def check_def emit_def set_selection_stack_def
  unwind.simps log_cmd_error_def first_char_def

section \<open>The tokenizer and chainer\<close>

text \<open>
  Claim C1. A line that is empty or a comment returns at once, and a line that starts with
  \<^verbatim>\<open>!\<close> goes to the shell; neither dispatches anything. Every other line is cut into
  tokens, and \<^verbatim>\<open>Pass::call\<close> dispatches the argument vectors of \<open>chain\<close>, the
  semicolon-separated segments of the line, from left to right (a dispatch that does not
  return ends the line). A token shorter than \<open>2^31\<close> characters that ends in a
  semicolon and keeps a non-empty remainder without its trailing semicolons flushes the
  current vector with the remainder appended, then comes \<^verbatim>\<open>clean\<close> after exactly two
  semicolons and \<^verbatim>\<open>clean -purge\<close> after exactly three, and the line goes on with an
  empty vector; a token that does not end in a semicolon is appended to the vector; the
  token \<^verbatim>\<open>#\<close> and the end of the line flush the vector. The line
  \<^verbatim>\<open>foo bar;; baz\<close> dispatches \<open>[foo, bar]\<close>, \<open>[clean]\<close>, \<open>[baz]\<close>, and
  \<^verbatim>\<open>foo;;;\<close> dispatches \<open>[foo]\<close>, \<open>[clean, -purge]\<close>.
\<close>

theorem Pass_call_str_chains:
  "(first_char (dropWhile is_blank (c_str command)) \<notin> {NUL, CHR ''#'', CHR ''!''} \<longrightarrow>
    Pass_call_str ext command w =
      dispatch_all ext (chain (strtok_all (dropWhile is_blank (c_str command))) []) w)
   \<and> (first_char (dropWhile is_blank (c_str command)) \<in> {NUL, CHR ''#''} \<longrightarrow>
        Pass_call_str ext command w = Returns () w)
   \<and> (first_char (dropWhile is_blank (c_str command)) = CHR ''!'' \<longrightarrow>
        outcome_world (Pass_call_str ext command w) =
          Some (emit (System (rev (dropWhile (\<lambda>c. c = CR \<or> c = LF)
                   (rev (dropWhile (\<lambda>c. c = CHR '' '' \<or> c = TAB)
                      (tl (dropWhile is_blank (c_str command)))))))) w))
   \<and> (length t < 2 ^ 31 \<and> t \<noteq> [] \<and> last t = CHR '';'' \<and> strip_semikolon t \<noteq> [] \<longrightarrow>
        chain (t # ts) args =
          (args @ [strip_semikolon t])
          # (if count_semikolon t = 2 then [[''clean'']]
             else if count_semikolon t = 3 then [[''clean'', ''-purge'']]
             else [])
          @ chain ts [])
   \<and> (length t < 2 ^ 31 \<and> t \<noteq> ''#'' \<and> \<not> (t \<noteq> [] \<and> last t = CHR '';'') \<longrightarrow>
        chain (t # ts) args = chain ts (args @ [t]))
   \<and> chain (''#'' # ts) args = [args]
   \<and> chain [] args = [args]
   \<and> Pass_call_str ext ''foo bar;; baz'' w =
       dispatch_all ext [[''foo'', ''bar''], [''clean''], [''baz'']] w
   \<and> Pass_call_str ext ''foo;;;'' w =
       dispatch_all ext [[''foo''], [''clean'', ''-purge'']] w"
proof -
  let ?s = "dropWhile is_blank (c_str command)"
  have a: "first_char ?s \<notin> {NUL, CHR ''#'', CHR ''!''} \<longrightarrow>
      Pass_call_str ext command w = dispatch_all ext (chain (strtok_all ?s) []) w"
    by (simp add: Pass_call_str_tokens Pass_call_loop_chain)
  have b: "first_char ?s \<in> {NUL, CHR ''#''} \<longrightarrow> Pass_call_str ext command w = Returns () w"
    by (subst Pass_call_str.simps) (simp add: Let_def)
  have c: "first_char ?s = CHR ''!'' \<longrightarrow>
      outcome_world (Pass_call_str ext command w) =
        Some (emit (System (rev (dropWhile (\<lambda>c. c = CR \<or> c = LF)
                 (rev (dropWhile (\<lambda>c. c = CHR '' '' \<or> c = TAB) (tl ?s)))))) w)"
    by (subst Pass_call_str.simps) (simp add: Let_def log_cmd_error_def outcome_world_def)
  have d: "length t < 2 ^ 31 \<and> t \<noteq> [] \<and> last t = CHR '';'' \<and> strip_semikolon t \<noteq> [] \<longrightarrow>
      chain (t # ts) args =
        (args @ [strip_semikolon t])
        # (if count_semikolon t = 2 then [[''clean'']]
           else if count_semikolon t = 3 then [[''clean'', ''-purge'']]
           else [])
        @ chain ts []"
    by (auto simp: chain_Cons strip_semikolon_def)
  have e: "length t < 2 ^ 31 \<and> t \<noteq> ''#'' \<and> \<not> (t \<noteq> [] \<and> last t = CHR '';'') \<longrightarrow>
      chain (t # ts) args = chain ts (args @ [t])"
    by (auto simp: chain_Cons)
  have f: "chain (''#'' # ts) args = [args]" "chain [] args = [args]"
    by (simp_all add: chain_Cons)
  have "Pass_call_str ext ''foo bar;; baz'' w =
      dispatch_all ext (chain [''foo'', ''bar;;'', ''baz''] []) w"
    by (subst Pass_call_str_tokens) (simp_all add: run_tokens Pass_call_loop_chain)
  also have "chain [''foo'', ''bar;;'', ''baz''] []
      = [[''foo'', ''bar''], [''clean''], [''baz'']]"
    by (simp add: chain_Cons run_tokens)
  finally have g: "Pass_call_str ext ''foo bar;; baz'' w =
       dispatch_all ext [[''foo'', ''bar''], [''clean''], [''baz'']] w" .
  have "Pass_call_str ext ''foo;;;'' w = dispatch_all ext (chain [''foo;;;''] []) w"
    by (subst Pass_call_str_tokens) (simp_all add: run_tokens Pass_call_loop_chain)
  also have "chain [''foo;;;''] [] = [[''foo''], [''clean'', ''-purge''], []]"
    by (simp add: chain_Cons run_tokens)
  finally have h: "Pass_call_str ext ''foo;;;'' w =
       dispatch_all ext [[''foo''], [''clean'', ''-purge'']] w"
    by (simp add: dispatch_all_Cons_eta)
  from a b c d e f g h show ?thesis by blast
qed

theorem Pass_call_str_chains_witness:
  "first_char (dropWhile is_blank (c_str ''foo ; foo;; foo;;;'')) \<notin> {NUL, CHR ''#'', CHR ''!''}
   \<and> strtok_all (dropWhile is_blank (c_str ''foo ; foo;; foo;;;''))
       = [''foo'', '';'', ''foo;;'', ''foo;;;'']
   \<and> chain [''foo'', '';'', ''foo;;'', ''foo;;;''] []
       = [[''foo''], [''foo''], [''clean''], [''foo''], [''clean'', ''-purge''], []]
   \<and> Pass_call_str idle_ext ''foo ; foo;; foo;;;'' foo_clean_world =
       dispatch_all idle_ext
         [[''foo''], [''foo''], [''clean''], [''foo''], [''clean'', ''-purge''], []] foo_clean_world
   \<and> (case dispatch_all idle_ext
              [[''foo''], [''foo''], [''clean''], [''foo''], [''clean'', ''-purge''], []]
              foo_clean_world of
         Returns _ w \<Rightarrow> (call_counter (store w 0), call_counter (store w 1), events w)
       | _ \<Rightarrow> (0, 0, [])) = (3, 2, [Check, Check, Check, Check, Check])
   \<and> first_char (dropWhile is_blank (c_str ''  # foo'')) \<in> {NUL, CHR ''#''}
   \<and> Pass_call_str idle_ext ''  # foo'' foo_clean_world = Returns () foo_clean_world
   \<and> first_char (dropWhile is_blank (c_str ''! ls'')) = CHR ''!''
   \<and> outcome_world (Pass_call_str idle_ext ''! ls'' foo_clean_world)
       = Some (emit (System ''ls'') foo_clean_world)
   \<and> length ''foo;;'' < 2 ^ 31 \<and> ''foo;;'' \<noteq> [] \<and> last ''foo;;'' = CHR '';''
   \<and> strip_semikolon ''foo;;'' \<noteq> [] \<and> count_semikolon ''foo;;'' = 2
   \<and> chain [''foo;;'', ''foo;;;''] [''bar'']
       = [''bar'', ''foo''] # [[''clean'']] @ chain [''foo;;;''] []
   \<and> length ''foo'' < 2 ^ 31 \<and> ''foo'' \<noteq> ''#'' \<and> \<not> (''foo'' \<noteq> [] \<and> last ''foo'' = CHR '';'')
   \<and> chain [''foo'', '';''] [] = chain ['';''] [''foo'']"
proof -
  let ?line = "''foo ; foo;; foo;;;''"
  note t = Pass_call_str_chains
  have h1: "first_char (dropWhile is_blank (c_str ?line)) \<notin> {NUL, CHR ''#'', CHR ''!''}"
    by (simp add: run_tokens)
  have toks: "strtok_all (dropWhile is_blank (c_str ?line)) = [''foo'', '';'', ''foo;;'', ''foo;;;'']"
    by (simp add: run_tokens)
  have ch: "chain [''foo'', '';'', ''foo;;'', ''foo;;;''] []
       = [[''foo''], [''foo''], [''clean''], [''foo''], [''clean'', ''-purge''], []]"
    by (simp add: chain_Cons run_tokens)
  have eq: "Pass_call_str idle_ext ?line foo_clean_world =
       dispatch_all idle_ext
         [[''foo''], [''foo''], [''clean''], [''foo''], [''clean'', ''-purge''], []] foo_clean_world"
    using t [where command = ?line and ext = idle_ext and w = foo_clean_world, THEN conjunct1]
      h1
    unfolding toks ch by blast
  have run: "(case dispatch_all idle_ext
              [[''foo''], [''foo''], [''clean''], [''foo''], [''clean'', ''-purge''], []]
              foo_clean_world of
         Returns _ w \<Rightarrow> (call_counter (store w 0), call_counter (store w 1), events w)
       | _ \<Rightarrow> (0, 0, [])) = (3, 2, [Check, Check, Check, Check, Check])"
    by (simp add: run_dispatch)
  have h2: "first_char (dropWhile is_blank (c_str ''  # foo'')) \<in> {NUL, CHR ''#''}"
    by (simp add: run_tokens)
  have r2: "Pass_call_str idle_ext ''  # foo'' foo_clean_world = Returns () foo_clean_world"
    using t [where command = "''  # foo''" and ext = idle_ext and w = foo_clean_world,
        THEN conjunct2, THEN conjunct1] h2
    by blast
  have h3: "first_char (dropWhile is_blank (c_str ''! ls'')) = CHR ''!''"
    by (simp add: run_tokens)
  have r3: "outcome_world (Pass_call_str idle_ext ''! ls'' foo_clean_world)
       = Some (emit (System ''ls'') foo_clean_world)"
    using t [where command = "''! ls''" and ext = idle_ext and w = foo_clean_world,
        THEN conjunct2, THEN conjunct2, THEN conjunct1] h3
    by (simp add: run_tokens)
  have h4: "length ''foo;;'' < 2 ^ 31 \<and> ''foo;;'' \<noteq> [] \<and> last ''foo;;'' = CHR '';''
      \<and> strip_semikolon ''foo;;'' \<noteq> []"
    by (simp add: run_tokens)
  have c4: "count_semikolon ''foo;;'' = 2" "strip_semikolon ''foo;;'' = ''foo''"
    by (simp_all add: run_tokens)
  have r4: "chain [''foo;;'', ''foo;;;''] [''bar'']
       = [''bar'', ''foo''] # [[''clean'']] @ chain [''foo;;;''] []"
    using t [where t = "''foo;;''" and ts = "[''foo;;;'']" and args = "[''bar'']",
        THEN conjunct2, THEN conjunct2, THEN conjunct2, THEN conjunct1] h4
    unfolding c4 by simp
  have h5: "length ''foo'' < 2 ^ 31 \<and> ''foo'' \<noteq> ''#'' \<and> \<not> (''foo'' \<noteq> [] \<and> last ''foo'' = CHR '';'')"
    by simp
  have r5: "chain [''foo'', '';''] [] = chain ['';''] [''foo'']"
    using t [where t = "''foo''" and ts = "['';'']" and args = "[]",
        THEN conjunct2, THEN conjunct2, THEN conjunct2, THEN conjunct2, THEN conjunct1] h5
    by simp
  show ?thesis using h1 toks ch eq run h2 r2 h3 r3 h4 c4 r4 h5 r5 by blast
qed

lemma unwind_eq_take: "unwind n st = take n st"
proof (induction n st rule: unwind.induct)
  case (1 n st)
  show ?case
  proof (cases "length st > n")
    case True
    then have "unwind n st = take n (butlast st)"
      using "1.IH" by (subst unwind.simps) simp
    also have "\<dots> = take n st"
      using True by (simp add: take_butlast)
    finally show ?thesis .
  next
    case False
    then show ?thesis by (subst unwind.simps) simp
  qed
qed

lemma strip_semikolon_replicate [simp]: "strip_semikolon (replicate n CHR '';'') = []"
  by (simp add: strip_semikolon_def)

lemma count_semikolon_replicate [simp]: "count_semikolon (replicate n CHR '';'') = n"
  by (simp add: count_semikolon_def)

lemma Pass_call_loop_Nil_eta [simp]: "Pass_call_loop ext [] = Pass_call_vec ext"
  by (intro ext) (simp add: Pass_call_loop_Nil)

lemma Pass_call_vec_Nil_eta [simp]: "Pass_call_vec ext [] = Returns ()"
  by (intro ext) simp

lemma foo_semis_tokens:
  "first_char (dropWhile is_blank (c_str ''foo ;;'')) \<notin> {NUL, CHR ''#'', CHR ''!''}"
  "strtok_all (dropWhile is_blank (c_str ''foo ;;'')) = [''foo'', '';;'']"
  by (simp_all add: run_tokens)

lemma Pass_call_str_foo_semis:
  "Pass_call_str ext ''foo ;;'' w = dispatch_all ext [[''foo''], [''clean'']] w"
  apply (subst Pass_call_str_tokens)
   apply (rule foo_semis_tokens)
  apply (simp add: foo_semis_tokens)
  apply (subst Pass_call_loop_Cons, simp)
  apply (subst Pass_call_loop_Cons, simp)
  apply (simp add: strip_semikolon_def count_semikolon_def Pass_call_loop_Nil dispatch_all_Cons_eta)
  done

text \<open>
  Claim C2, as the code has it. A token that consists of \<open>n \<ge> 1\<close> semicolons only
  appends nothing and flushes the current argument vector as one dispatch; after the flush
  the code looks at the count alone, so \<^verbatim>\<open>clean\<close> is dispatched when \<open>n = 2\<close>
  and \<^verbatim>\<open>clean -purge\<close> when \<open>n = 3\<close>, as after a non-empty remainder, and nothing
  more for any other \<open>n\<close>. The line \<^verbatim>\<open>foo ;;\<close> dispatches \<open>[foo]\<close> and then
  \<open>[clean]\<close>: the counter of \<^verbatim>\<open>clean\<close> goes up, which it does not when only
  \<open>[foo]\<close> is dispatched.
\<close>

theorem sole_semikolons_flush_then_clean:
  "1 \<le> n \<and> n < 2 ^ 31 \<longrightarrow>
   Pass_call_loop ext (replicate n CHR '';'' # rest) args w =
     and_then (Pass_call_vec ext args w) (\<lambda>_ w1.
     and_then (if n = 2 then Pass_call_vec ext [''clean''] w1
               else if n = 3 then Pass_call_vec ext [''clean'', ''-purge''] w1
               else Returns () w1) (\<lambda>_ w2.
       Pass_call_loop ext rest [] w2))"
proof
  assume n: "1 \<le> n \<and> n < 2 ^ 31"
  then have ne: "replicate n CHR '';'' \<noteq> []" and l: "last (replicate n CHR '';'') = CHR '';''"
    and h: "replicate n CHR '';'' \<noteq> ''#''"
    by (cases n; simp)+
  show "Pass_call_loop ext (replicate n CHR '';'' # rest) args w =
     and_then (Pass_call_vec ext args w) (\<lambda>_ w1.
     and_then (if n = 2 then Pass_call_vec ext [''clean''] w1
               else if n = 3 then Pass_call_vec ext [''clean'', ''-purge''] w1
               else Returns () w1) (\<lambda>_ w2.
       Pass_call_loop ext rest [] w2))"
    using n ne l h by (subst Pass_call_loop_Cons) (simp_all cong: if_cong)
qed

theorem sole_semikolons_counterexample:
  "returned (Pass_call_str idle_ext ''foo ;;'' foo_clean_world)
   \<and> map_option (counter_of 1) (outcome_world (Pass_call_str idle_ext ''foo ;;'' foo_clean_world))
       = Some 1
   \<and> map_option (counter_of 1) (outcome_world (dispatch_all idle_ext [[''foo'']] foo_clean_world))
       = Some 0"
  by (simp add: Pass_call_str_foo_semis run_dispatch returned_def outcome_world_def counter_of_def)

theorem sole_semikolons_flush_then_clean_witness:
  "(1::nat) \<le> 2 \<and> (2::nat) < 2 ^ 31
   \<and> Pass_call_loop idle_ext [''foo'', '';;''] [] foo_clean_world =
       dispatch_all idle_ext [[''foo''], [''clean'']] foo_clean_world"
proof -
  have two: "'';;'' = replicate 2 CHR '';''"
    by (simp add: numeral_2_eq_2)
  have "Pass_call_loop idle_ext [''foo'', '';;''] [] foo_clean_world =
      Pass_call_loop idle_ext [replicate 2 CHR '';''] [''foo''] foo_clean_world"
    unfolding two by (subst Pass_call_loop_Cons) simp_all
  also have "\<dots> = dispatch_all idle_ext [[''foo''], [''clean'']] foo_clean_world"
    using sole_semikolons_flush_then_clean [of 2 idle_ext "[]" "[''foo'']" foo_clean_world]
    by (simp add: Pass_call_loop_Nil dispatch_all_Cons_eta)
  finally show ?thesis by simp
qed

lemma Pass_call_vec_resolved:
  "args \<noteq> [] \<Longrightarrow> first_char (args ! 0) \<noteq> CHR ''#'' \<Longrightarrow> pass_register w (args ! 0) = Some this \<Longrightarrow>
   Pass_call_vec ext args w =
     and_then (execute ext this args (incr_call_counter this w)) (\<lambda>_ w1.
       check ext (set_selection_stack (take (depth w) (selection_stack (design w1))) w1))"
  by (simp add: Pass_call_vec_def unwind_eq_take depth_def)

lemma Pass_call_vec_unknown:
  "args \<noteq> [] \<Longrightarrow> first_char (args ! 0) \<noteq> CHR ''#'' \<Longrightarrow> pass_register w (args ! 0) = None \<Longrightarrow>
   Pass_call_vec ext args w =
     Raises (CmdError (''No such command: '' @ args ! 0
                        @ '' (type 'help' for a command overview)'' @ [LF])) w"
  by (simp add: Pass_call_vec_def log_cmd_error_def)

lemma depth_simps [simp]:
  "depth (emit e w) = depth w"
  "depth (set_selection_stack st w) = length st"
  "depth (incr_call_counter this w) = depth w"
  "depth (set_selected_active_module n w) = depth w"
  by (simp_all add: depth_def emit_def set_selection_stack_def incr_call_counter_def
      set_selected_active_module_def)

lemma selection_stack_simps [simp]:
  "selection_stack (design (emit e w)) = selection_stack (design w)"
  "selection_stack (design (set_selection_stack st w)) = st"
  "selection_stack (design (incr_call_counter this w)) = selection_stack (design w)"
  "selection_stack (design (set_selected_active_module n w)) = selection_stack (design w)"
  by (simp_all add: emit_def set_selection_stack_def incr_call_counter_def
      set_selected_active_module_def)

lemma events_simps [simp]:
  "events (emit e w) = events w @ [e]"
  "events (set_selection_stack st w) = events w"
  "events (incr_call_counter this w) = events w"
  "events (set_selected_active_module n w) = events w"
  by (simp_all add: emit_def set_selection_stack_def incr_call_counter_def
      set_selected_active_module_def)

lemma returned_simps [simp]:
  "returned (Returns x w)" "\<not> returned (Raises e w)" "\<not> returned Diverges"
  by (simp_all add: returned_def)

lemma raised_simps [simp]:
  "raised (Returns x w) = None" "raised (Raises e w) = Some e" "raised Diverges = None"
  by (simp_all add: raised_def)

lemma outcome_world_simps [simp]:
  "outcome_world (Returns x w) = Some w"
  "outcome_world (Raises e w) = Some w"
  "outcome_world Diverges = None"
  by (simp_all add: outcome_world_def)

lemma events_check: "map_option events (outcome_world (check ext w)) = Some (events w @ [Check])"
  by (simp add: check_def)

lemmas run_world = one_frame_world_def foo_clean_world_def initial_world_def empty_design_def
  idle_ext_def failing_ext_def pushing_ext_def popping_ext_def push_back_def pop_back_def
  set_selection_stack_def incr_call_counter_def emit_def check_def execute_def depth_def
  first_char_def log_cmd_error_def Selection_def

section \<open>The dispatcher\<close>

text \<open>
  Claim C4, as the code has it. When a dispatch through the vector form of
  \<^verbatim>\<open>Pass::call\<close> resolves its command, \<^verbatim>\<open>execute\<close> returns and the check
  passes, the dispatch returns with the selection stack cut back to the depth recorded
  before \<^verbatim>\<open>execute\<close>: the stack is the first \<open>depth w\<close> frames of what
  \<^verbatim>\<open>execute\<close> left, so its depth is the smaller of the recorded depth and the
  depth \<^verbatim>\<open>execute\<close> left. It never exceeds the recorded depth, and equals it however
  many frames \<^verbatim>\<open>execute\<close> pushed, as long as \<^verbatim>\<open>execute\<close> left no fewer frames
  than it found. Frames that \<^verbatim>\<open>execute\<close> took off are not put back: a command that
  pops the one frame of a stack of depth 1 leaves depth 0.
\<close>

theorem dispatch_unwinds_to_recorded_depth:
  "args \<noteq> [] \<and> first_char (args ! 0) \<noteq> CHR ''#'' \<and> pass_register w (args ! 0) = Some this
   \<and> execute ext this args (incr_call_counter this w) = Returns () w1
   \<and> design_check ext ((design w1) \<lparr> selection_stack := take (depth w) (selection_stack (design w1)) \<rparr>)
   \<longrightarrow> (\<exists>w2. Pass_call_vec ext args w = Returns () w2
          \<and> selection_stack (design w2) = take (depth w) (selection_stack (design w1))
          \<and> depth w2 = min (depth w) (depth w1)
          \<and> depth w2 \<le> depth w
          \<and> (depth w \<le> depth w1 \<longrightarrow> depth w2 = depth w))"
proof
  assume h: "args \<noteq> [] \<and> first_char (args ! 0) \<noteq> CHR ''#'' \<and> pass_register w (args ! 0) = Some this
   \<and> execute ext this args (incr_call_counter this w) = Returns () w1
   \<and> design_check ext ((design w1) \<lparr> selection_stack := take (depth w) (selection_stack (design w1)) \<rparr>)"
  let ?w2 = "emit Check (set_selection_stack (take (depth w) (selection_stack (design w1))) w1)"
  have "Pass_call_vec ext args w = Returns () ?w2"
    using h by (simp add: Pass_call_vec_resolved check_def set_selection_stack_def)
  moreover have "selection_stack (design ?w2) = take (depth w) (selection_stack (design w1))"
    by simp
  moreover have "depth ?w2 = min (depth w) (depth w1)"
    by (simp add: depth_def min_def)
  ultimately show "\<exists>w2. Pass_call_vec ext args w = Returns () w2
          \<and> selection_stack (design w2) = take (depth w) (selection_stack (design w1))
          \<and> depth w2 = min (depth w) (depth w1)
          \<and> depth w2 \<le> depth w
          \<and> (depth w \<le> depth w1 \<longrightarrow> depth w2 = depth w)"
    by (intro exI [of _ ?w2]) (simp add: min_def)
qed

theorem dispatch_depth_counterexample:
  "returned (Pass_call_vec popping_ext [''foo''] one_frame_world)
   \<and> map_option depth (outcome_world (Pass_call_vec popping_ext [''foo''] one_frame_world)) = Some 0
   \<and> depth one_frame_world = 1"
  by (simp add: Pass_call_vec_def unwind_eq_take run_world returned_def)

theorem dispatch_unwinds_to_recorded_depth_witness:
  "[''foo''] \<noteq> [] \<and> first_char ([''foo''] ! 0) \<noteq> CHR ''#''
   \<and> pass_register one_frame_world ([''foo''] ! 0) = Some 0
   \<and> (\<exists>w1. execute pushing_ext 0 [''foo''] (incr_call_counter 0 one_frame_world) = Returns () w1
         \<and> depth w1 = 3
         \<and> design_check pushing_ext
             ((design w1) \<lparr> selection_stack := take (depth one_frame_world) (selection_stack (design w1)) \<rparr>))
   \<and> (\<exists>w2. Pass_call_vec pushing_ext [''foo''] one_frame_world = Returns () w2 \<and> depth w2 = 1)
   \<and> depth one_frame_world = 1"
proof -
  let ?w1 = "push_back (Selection True) (push_back (Selection False) (incr_call_counter 0 one_frame_world))"
  have a: "[''foo''] \<noteq> []" by simp
  have b: "first_char ([''foo''] ! 0) \<noteq> CHR ''#''" by (simp add: first_char_def)
  have c: "pass_register one_frame_world ([''foo''] ! 0) = Some 0" by (simp add: run_world)
  have d: "execute pushing_ext 0 [''foo''] (incr_call_counter 0 one_frame_world) = Returns () ?w1"
    by (simp add: run_world)
  have e: "design_check pushing_ext
     ((design ?w1) \<lparr> selection_stack := take (depth one_frame_world) (selection_stack (design ?w1)) \<rparr>)"
    by (simp add: run_world)
  have d1: "depth one_frame_world = 1" by (simp add: run_world)
  have d3: "depth ?w1 = 3" by (simp add: run_world)
  from dispatch_unwinds_to_recorded_depth [of "[''foo'']" one_frame_world 0 pushing_ext ?w1] a b c d e
  obtain w2 where "Pass_call_vec pushing_ext [''foo''] one_frame_world = Returns () w2"
    and "depth w2 = min (depth one_frame_world) (depth ?w1)"
    by blast
  then have f: "\<exists>w2. Pass_call_vec pushing_ext [''foo''] one_frame_world = Returns () w2 \<and> depth w2 = 1"
    using d1 d3 by simp
  show ?thesis using a b c d e d1 d3 f by blast
qed


text \<open>
  Claim C7, as the code has it. The consistency check is the last step of a dispatch that
  resolves its command and whose \<^verbatim>\<open>execute\<close> returns: it runs once, after the
  selection stack is unwound. A dispatch that ends earlier does not reach it: when
  \<^verbatim>\<open>execute\<close> leaves with an error the dispatch leaves with that error in the
  state \<^verbatim>\<open>execute\<close> left, an unknown command name is a command error in an
  unchanged state, and an empty or comment vector returns at once. Under a check that
  would fail, both failing dispatches end in their command error with no check recorded.
\<close>

theorem check_runs_after_returning_execute:
  "(args \<noteq> [] \<and> first_char (args ! 0) \<noteq> CHR ''#'' \<and> pass_register w (args ! 0) = Some this
      \<and> execute ext this args (incr_call_counter this w) = Returns () w1
    \<longrightarrow> Pass_call_vec ext args w =
          check ext (set_selection_stack (take (depth w) (selection_stack (design w1))) w1)
        \<and> map_option events (outcome_world (Pass_call_vec ext args w)) = Some (events w1 @ [Check]))
   \<and> (args \<noteq> [] \<and> first_char (args ! 0) \<noteq> CHR ''#'' \<and> pass_register w (args ! 0) = Some this
      \<and> execute ext this args (incr_call_counter this w) = Raises e w1
    \<longrightarrow> Pass_call_vec ext args w = Raises e w1)
   \<and> (args \<noteq> [] \<and> first_char (args ! 0) \<noteq> CHR ''#'' \<and> pass_register w (args ! 0) = None
    \<longrightarrow> Pass_call_vec ext args w =
          Raises (CmdError (''No such command: '' @ args ! 0
                             @ '' (type 'help' for a command overview)'' @ [LF])) w)
   \<and> (args = [] \<or> first_char (args ! 0) = CHR ''#'' \<longrightarrow> Pass_call_vec ext args w = Returns () w)"
proof (intro conjI impI)
  assume h: "args \<noteq> [] \<and> first_char (args ! 0) \<noteq> CHR ''#'' \<and> pass_register w (args ! 0) = Some this
      \<and> execute ext this args (incr_call_counter this w) = Returns () w1"
  then show eq: "Pass_call_vec ext args w =
      check ext (set_selection_stack (take (depth w) (selection_stack (design w1))) w1)"
    by (simp add: Pass_call_vec_resolved)
  show "map_option events (outcome_world (Pass_call_vec ext args w)) = Some (events w1 @ [Check])"
    unfolding eq by (simp add: events_check)
next
  assume "args \<noteq> [] \<and> first_char (args ! 0) \<noteq> CHR ''#'' \<and> pass_register w (args ! 0) = Some this
      \<and> execute ext this args (incr_call_counter this w) = Raises e w1"
  then show "Pass_call_vec ext args w = Raises e w1"
    by (simp add: Pass_call_vec_resolved)
next
  assume "args \<noteq> [] \<and> first_char (args ! 0) \<noteq> CHR ''#'' \<and> pass_register w (args ! 0) = None"
  then show "Pass_call_vec ext args w =
          Raises (CmdError (''No such command: '' @ args ! 0
                             @ '' (type 'help' for a command overview)'' @ [LF])) w"
    by (simp add: Pass_call_vec_unknown)
next
  assume "args = [] \<or> first_char (args ! 0) = CHR ''#''"
  then show "Pass_call_vec ext args w = Returns () w"
    by (auto simp: Pass_call_vec_def)
qed

theorem check_skipped_counterexample:
  "raised (Pass_call_vec failing_ext [''baz''] foo_clean_world)
     = Some (CmdError (''No such command: baz (type 'help' for a command overview)'' @ [LF]))
   \<and> map_option events (outcome_world (Pass_call_vec failing_ext [''baz''] foo_clean_world)) = Some []
   \<and> raised (Pass_call_vec failing_ext [''foo''] foo_clean_world) = Some (CmdError ''boom'')
   \<and> map_option events (outcome_world (Pass_call_vec failing_ext [''foo''] foo_clean_world)) = Some []
   \<and> raised (check failing_ext foo_clean_world) = Some (FatalError ''design->check()'')
   \<and> map_option events (outcome_world (check failing_ext foo_clean_world)) = Some [Check]"
  by (simp add: Pass_call_vec_def run_world)

theorem check_runs_after_returning_execute_witness:
  "[''foo''] \<noteq> [] \<and> first_char ([''foo''] ! 0) \<noteq> CHR ''#''
   \<and> pass_register foo_clean_world ([''foo''] ! 0) = Some 0
   \<and> execute idle_ext 0 [''foo''] (incr_call_counter 0 foo_clean_world)
       = Returns () (incr_call_counter 0 foo_clean_world)
   \<and> map_option events (outcome_world (Pass_call_vec idle_ext [''foo''] foo_clean_world))
       = Some (events (incr_call_counter 0 foo_clean_world) @ [Check])
   \<and> events (incr_call_counter 0 foo_clean_world) = []
   \<and> execute failing_ext 0 [''foo''] (incr_call_counter 0 foo_clean_world)
       = Raises (CmdError ''boom'') (incr_call_counter 0 foo_clean_world)
   \<and> Pass_call_vec failing_ext [''foo''] foo_clean_world
       = Raises (CmdError ''boom'') (incr_call_counter 0 foo_clean_world)
   \<and> [''baz''] \<noteq> [] \<and> first_char ([''baz''] ! 0) \<noteq> CHR ''#''
   \<and> pass_register foo_clean_world ([''baz''] ! 0) = None
   \<and> Pass_call_vec idle_ext [''baz''] foo_clean_world
       = Raises (CmdError (''No such command: baz (type 'help' for a command overview)'' @ [LF]))
           foo_clean_world
   \<and> Pass_call_vec idle_ext [] foo_clean_world = Returns () foo_clean_world"
proof -
  have a: "[''foo''] \<noteq> [] \<and> first_char ([''foo''] ! 0) \<noteq> CHR ''#''
      \<and> pass_register foo_clean_world ([''foo''] ! 0) = Some 0"
    by (simp add: run_world)
  have b: "execute idle_ext 0 [''foo''] (incr_call_counter 0 foo_clean_world)
       = Returns () (incr_call_counter 0 foo_clean_world)"
    by (simp add: execute_def idle_ext_def foo_clean_world_def incr_call_counter_def)
  have c: "execute failing_ext 0 [''foo''] (incr_call_counter 0 foo_clean_world)
       = Raises (CmdError ''boom'') (incr_call_counter 0 foo_clean_world)"
    by (simp add: execute_def idle_ext_def failing_ext_def foo_clean_world_def
        incr_call_counter_def log_cmd_error_def)
  have d: "[''baz''] \<noteq> [] \<and> first_char ([''baz''] ! 0) \<noteq> CHR ''#''
      \<and> pass_register foo_clean_world ([''baz''] ! 0) = None"
    by (simp add: run_world)
  have ev: "events (incr_call_counter 0 foo_clean_world) = []"
    by (simp add: run_world)
  note t1 = check_runs_after_returning_execute
    [of "[''foo'']" foo_clean_world 0 idle_ext "incr_call_counter 0 foo_clean_world"]
  note t2 = check_runs_after_returning_execute
    [of "[''foo'']" foo_clean_world 0 failing_ext "incr_call_counter 0 foo_clean_world"
      "CmdError ''boom''"]
  note t3 = check_runs_after_returning_execute [of "[''baz'']" foo_clean_world _ idle_ext]
  note t4 = check_runs_after_returning_execute [of "[]" foo_clean_world _ idle_ext]
  have r1: "map_option events (outcome_world (Pass_call_vec idle_ext [''foo''] foo_clean_world))
      = Some (events (incr_call_counter 0 foo_clean_world) @ [Check])"
    using t1 a b by blast
  have r2: "Pass_call_vec failing_ext [''foo''] foo_clean_world
       = Raises (CmdError ''boom'') (incr_call_counter 0 foo_clean_world)"
    using t2 a c by blast
  have r3: "Pass_call_vec idle_ext [''baz''] foo_clean_world
       = Raises (CmdError (''No such command: baz (type 'help' for a command overview)'' @ [LF]))
           foo_clean_world"
    using t3 d by (simp del: nth_Cons_0) simp
  have r4: "Pass_call_vec idle_ext [] foo_clean_world = Returns () foo_clean_world"
    using t4 by blast
  show ?thesis using a b c d ev r1 r2 r3 r4 by blast
qed

section \<open>Scoped calls\<close>

lemma and_then_Returns_iff:
  "and_then m f = Returns y w' \<longleftrightarrow> (\<exists>x w1. m = Returns x w1 \<and> f x w1 = Returns y w')"
  by (cases m) auto

lemma check_Returns_iff:
  "check ext w = Returns x w' \<longleftrightarrow> design_check ext (design w) \<and> w' = emit Check w"
  by (auto simp: check_def)

lemma Pass_call_vec_depth:
  assumes "leaves_frames ext args w" and "Pass_call_vec ext args w = Returns () w'"
  shows "depth w' = depth w"
proof (cases "length args = 0 \<or> first_char (args ! 0) = CHR ''#''")
  case True
  with assms(2) show ?thesis by (simp add: Pass_call_vec_def)
next
  case False
  then have ne: "args \<noteq> []" and nc: "first_char (args ! 0) \<noteq> CHR ''#''" by auto
  show ?thesis
  proof (cases "pass_register w (args ! 0)")
    case None
    with assms(2) ne nc show ?thesis by (simp add: Pass_call_vec_unknown)
  next
    case (Some this)
    from assms(2) obtain w1 where
      ex: "execute ext this args (incr_call_counter this w) = Returns () w1"
      and w': "w' = emit Check (set_selection_stack (take (depth w) (selection_stack (design w1))) w1)"
      unfolding Pass_call_vec_resolved [OF ne nc Some]
      by (auto simp: and_then_Returns_iff check_Returns_iff)
    have "depth w \<le> depth w1"
      using assms(1) ex ne nc Some unfolding leaves_frames_def by simp
    then show ?thesis
      unfolding w' by (simp add: depth_def)
  qed
qed

lemma dispatch_all_depth:
  "frames_kept ext vectors w \<Longrightarrow> dispatch_all ext vectors w = Returns () w' \<Longrightarrow>
   depth w' = depth w"
proof (induction vectors arbitrary: w)
  case Nil
  then show ?case by simp
next
  case (Cons args others)
  from Cons.prems(2) obtain w1 where
    r1: "Pass_call_vec ext args w = Returns () w1"
    and r2: "dispatch_all ext others w1 = Returns () w'"
    by (auto simp: and_then_Returns_iff)
  from Cons.prems(1) r1 have l: "leaves_frames ext args w" and k: "frames_kept ext others w1"
    by simp_all
  from Cons.IH [OF k r2] Pass_call_vec_depth [OF l r1] show ?case by simp
qed

lemma Pass_call_str_depth:
  assumes "frames_kept ext (dispatched command) w" and "Pass_call_str ext command w = Returns () w'"
  shows "depth w' = depth w"
proof -
  let ?s = "dropWhile is_blank (c_str command)"
  show ?thesis
  proof (cases "first_char ?s = NUL \<or> first_char ?s = CHR ''#''")
    case True
    with assms(2) show ?thesis
      by (subst (asm) Pass_call_str.simps) (simp add: Let_def)
  next
    case nz: False
    show ?thesis
    proof (cases "first_char ?s = CHR ''!''")
      case True
      with nz assms(2) show ?thesis
        by (subst (asm) Pass_call_str.simps)
           (auto simp: Let_def log_cmd_error_def split: if_splits)
    next
      case False
      with nz have t: "first_char ?s \<notin> {NUL, CHR ''#'', CHR ''!''}" by simp
      from nz False assms(1) have k: "frames_kept ext (chain (strtok_all ?s) []) w"
        by (simp add: dispatched_def Let_def)
      from assms(2) have "dispatch_all ext (chain (strtok_all ?s) []) w = Returns () w'"
        by (simp add: Pass_call_str_tokens [OF t] Pass_call_loop_chain)
      with k show ?thesis by (rule dispatch_all_depth)
    qed
  qed
qed

lemma enter_module_stack:
  "selection_stack (design (enter_module m w)) =
     selection_stack (design w)
       @ [\<lparr> full_selection = False, selected_modules = {name_of_module m}, selected_members = {} \<rparr>]"
  by (simp add: enter_module_def Let_def push_back_def Selection_def select_module_def)

lemma enter_module_active:
  "selected_active_module (design (enter_module m w)) = name_of_module m"
  by (simp add: enter_module_def Let_def push_back_def set_selection_stack_def
      set_selected_active_module_def)

lemma pop_back_Returns_iff:
  "pop_back w = Returns x w' \<longleftrightarrow>
     selection_stack (design w) \<noteq> [] \<and> w' = set_selection_stack (butlast (selection_stack (design w))) w"
  by (auto simp: pop_back_def)

lemma call_on_module_str_Returns:
  "call_on_module_str ext m command w = Returns () w' \<Longrightarrow>
   \<exists>w1. Pass_call_str ext command (enter_module m w) = Returns () w1
      \<and> selection_stack (design w1) \<noteq> []
      \<and> w' = set_selected_active_module (selected_active_module (design w))
                (set_selection_stack (butlast (selection_stack (design w1))) w1)"
  by (auto simp: call_on_module_str_def Let_def and_then_Returns_iff pop_back_Returns_iff)

lemma Pass_call_str_foo: "Pass_call_str ext ''foo'' w = Pass_call_vec ext [''foo''] w"
  apply (subst Pass_call_str_tokens)
   apply (simp add: run_tokens)
  apply (simp add: run_tokens Pass_call_loop_chain chain_Cons)
  done

text \<open>
  Claim C5, as the code has it. \<^verbatim>\<open>call_on_module(design, M, command)\<close> hands the
  inner call a design whose active module is the name of \<open>M\<close> and whose selection
  stack has one more frame on top, \<^verbatim>\<open>Selection(false)\<close> with exactly \<open>M\<close>
  selected. If the inner call leaves with an error, so does the wrapper, in the state
  reached. When the wrapper returns, the inner call has returned and the active module is
  the one from before the call. The depth of the selection stack is the one from before the
  call when the \<^verbatim>\<open>execute\<close> of every command that the call dispatches leaves at least
  as many frames as it found (it may push and pop, or leave frames behind, which the
  dispatcher unwinds); what a command that is not dispatched would do is of no account. A
  command that pops the frame the wrapper pushed makes the wrapper pop a frame of its
  caller: from depth 1 the call returns with depth 0.
\<close>

theorem call_on_module_restores:
  "selected_active_module (design (enter_module m w)) = name_of_module m
   \<and> selection_stack (design (enter_module m w)) =
       selection_stack (design w)
         @ [\<lparr> full_selection = False, selected_modules = {name_of_module m}, selected_members = {} \<rparr>]
   \<and> (Pass_call_str ext command (enter_module m w) = Raises e w1
        \<longrightarrow> call_on_module_str ext m command w = Raises e w1)
   \<and> (call_on_module_str ext m command w = Returns () w'
        \<longrightarrow> returned (Pass_call_str ext command (enter_module m w))
          \<and> selected_active_module (design w') = selected_active_module (design w))
   \<and> (frames_kept ext (dispatched command) (enter_module m w)
        \<and> call_on_module_str ext m command w = Returns () w'
        \<longrightarrow> depth w' = depth w)"
proof (intro conjI impI)
  show "selected_active_module (design (enter_module m w)) = name_of_module m"
    by (rule enter_module_active)
  show "selection_stack (design (enter_module m w)) =
       selection_stack (design w)
         @ [\<lparr> full_selection = False, selected_modules = {name_of_module m}, selected_members = {} \<rparr>]"
    by (rule enter_module_stack)
next
  assume "Pass_call_str ext command (enter_module m w) = Raises e w1"
  then show "call_on_module_str ext m command w = Raises e w1"
    by (simp add: call_on_module_str_def)
next
  assume r: "call_on_module_str ext m command w = Returns () w'"
  from call_on_module_str_Returns [OF r] obtain w1 where
    inner: "Pass_call_str ext command (enter_module m w) = Returns () w1"
    and w': "w' = set_selected_active_module (selected_active_module (design w))
                (set_selection_stack (butlast (selection_stack (design w1))) w1)"
    by blast
  show "returned (Pass_call_str ext command (enter_module m w))"
    by (simp add: inner)
  show "selected_active_module (design w') = selected_active_module (design w)"
    unfolding w' by (simp add: set_selected_active_module_def)
next
  assume "frames_kept ext (dispatched command) (enter_module m w)
      \<and> call_on_module_str ext m command w = Returns () w'"
  then have k: "frames_kept ext (dispatched command) (enter_module m w)"
    and r: "call_on_module_str ext m command w = Returns () w'"
    by simp_all
  from call_on_module_str_Returns [OF r] obtain w1 where
    inner: "Pass_call_str ext command (enter_module m w) = Returns () w1"
    and w': "w' = set_selected_active_module (selected_active_module (design w))
                (set_selection_stack (butlast (selection_stack (design w1))) w1)"
    by blast
  have "depth w1 = depth (enter_module m w)"
    using Pass_call_str_depth [OF k inner] .
  also have "\<dots> = Suc (depth w)"
    by (simp add: depth_def enter_module_stack)
  finally show "depth w' = depth w"
    unfolding w' by (simp add: depth_def)
qed

theorem call_on_module_depth_counterexample:
  "returned (call_on_module_str popping_ext \<lparr> name_of_module = ''top'' \<rparr> ''foo'' one_frame_world)
   \<and> map_option depth
        (outcome_world (call_on_module_str popping_ext \<lparr> name_of_module = ''top'' \<rparr> ''foo'' one_frame_world))
       = Some 0
   \<and> depth one_frame_world = 1"
  by (simp add: call_on_module_str_def Pass_call_str_foo Pass_call_vec_def unwind_eq_take
      enter_module_def select_module_def set_selected_active_module_def run_world)

theorem call_on_module_restores_witness:
  "dispatched ''foo; foo'' = [[''foo''], [''foo'']]
   \<and> frames_kept foo_pushing_ext (dispatched ''foo; foo'')
        (enter_module \<lparr> name_of_module = ''top'' \<rparr> one_frame_world)
   \<and> \<not> leaves_frames foo_pushing_ext [''clean'']
         (enter_module \<lparr> name_of_module = ''top'' \<rparr> one_frame_world)
   \<and> returned (call_on_module_str foo_pushing_ext \<lparr> name_of_module = ''top'' \<rparr> ''foo; foo''
        one_frame_world)
   \<and> map_option depth
        (outcome_world (call_on_module_str foo_pushing_ext \<lparr> name_of_module = ''top'' \<rparr> ''foo; foo''
           one_frame_world))
       = Some (depth one_frame_world)
   \<and> map_option (\<lambda>w. selected_active_module (design w))
        (outcome_world (call_on_module_str foo_pushing_ext \<lparr> name_of_module = ''top'' \<rparr> ''foo; foo''
           one_frame_world))
       = Some (selected_active_module (design one_frame_world))"
proof -
  let ?m = "\<lparr> name_of_module = ''top'' \<rparr>"
  let ?line = "''foo; foo''"
  have d: "dispatched ?line = [[''foo''], [''foo'']]"
    by (simp add: dispatched_def chain_Cons run_tokens)
  have k: "frames_kept foo_pushing_ext (dispatched ?line) (enter_module ?m one_frame_world)"
    unfolding d
    by (simp add: leaves_frames_def foo_pushing_ext_def Pass_call_vec_def unwind_eq_take
      enter_module_def select_module_def set_selected_active_module_def run_world)
  have n: "\<not> leaves_frames foo_pushing_ext [''clean''] (enter_module ?m one_frame_world)"
    by (simp add: leaves_frames_def foo_pushing_ext_def
      enter_module_def select_module_def set_selected_active_module_def run_world)
  have t: "first_char (dropWhile is_blank (c_str ?line)) \<notin> {NUL, CHR ''#'', CHR ''!''}"
    by (simp add: run_tokens)
  have s: "Pass_call_str foo_pushing_ext ?line w = dispatch_all foo_pushing_ext [[''foo''], [''foo'']] w"
    for w
    using d t by (simp add: Pass_call_str_tokens Pass_call_loop_chain dispatched_def Let_def)
  have ret: "returned (call_on_module_str foo_pushing_ext ?m ?line one_frame_world)"
    unfolding call_on_module_str_def s
    by (simp add: foo_pushing_ext_def Pass_call_vec_def unwind_eq_take
      enter_module_def select_module_def set_selected_active_module_def run_world)
  then obtain w' where r: "call_on_module_str foo_pushing_ext ?m ?line one_frame_world = Returns () w'"
    by (cases "call_on_module_str foo_pushing_ext ?m ?line one_frame_world") auto
  note t = call_on_module_restores [of ?m one_frame_world foo_pushing_ext ?line _ _ w']
  have "depth w' = depth one_frame_world"
    using t k r by blast
  moreover have "selected_active_module (design w') = selected_active_module (design one_frame_world)"
    using t r by blast
  ultimately show ?thesis
    using d k n ret r by simp
qed

section \<open>The registry\<close>

lemma frontend_names_append [simp]:
  "frontend_names (xs @ ys) = frontend_names xs @ frontend_names ys"
  by (induction xs) (auto split: pass_class.splits)

lemma backend_names_append [simp]:
  "backend_names (xs @ ys) = backend_names xs @ backend_names ys"
  by (induction xs) (auto split: pass_class.splits)

lemma frontend_names_rev: "frontend_names (rev xs) = rev (frontend_names xs)"
  by (induction xs) (auto split: pass_class.splits)

lemma backend_names_rev: "backend_names (rev xs) = rev (backend_names xs)"
  by (induction xs) (auto split: pass_class.splits)

lemma distinct_names_rev: "distinct_names (rev objs) = distinct_names objs"
  by (simp add: distinct_names_def frontend_names_rev backend_names_rev rev_map [symmetric])

lemma run_register_ok: "can_register this w \<Longrightarrow> run_register this w = Returns () (registered this w)"
  by (auto simp: can_register_def run_register_def registered_def Pass_run_register_def
      Frontend_run_register_def Backend_run_register_def log_assert_def split: pass_class.splits)

lemma run_register_fails:
  "\<not> can_register this w \<Longrightarrow> \<exists>msg w'. run_register this w = Raises (AssertFailed msg) w'"
  by (auto simp: can_register_def run_register_def Pass_run_register_def
      Frontend_run_register_def Backend_run_register_def log_assert_def split: pass_class.splits)

lemma registered_fields [simp]:
  "store (registered this w) = store w"
  "first_queued_pass (registered this w) = first_queued_pass w"
  "pass_register (registered this w) = (pass_register w) (pass_name (store w this) \<mapsto> this)"
  by (simp_all add: registered_def split: pass_class.splits)

lemma init_register_Nil: "first_queued_pass w = [] \<Longrightarrow> init_register w = Returns () w"
  by (subst init_register.simps) simp

lemma init_register_Cons:
  "first_queued_pass w = this # rest \<Longrightarrow>
   init_register w =
     and_then (run_register this w) (\<lambda>_ w1. init_register (w1 \<lparr> first_queued_pass := rest \<rparr>))"
  by (subst init_register.simps) simp

lemma registrable_Cons:
  "first_queued_pass w = this # rest \<Longrightarrow>
   registrable w \<longleftrightarrow>
     can_register this w \<and> registrable ((registered this w) \<lparr> first_queued_pass := rest \<rparr>)"
  unfolding registrable_def can_register_def distinct_names_def Let_def
  by (cases "pass_class (store w this)")
     (auto simp: registered_def list_all_iff image_iff)

lemma init_register_registrable:
  "first_queued_pass w = q \<Longrightarrow> registrable w \<Longrightarrow>
   \<exists>w'. init_register w = Returns () w' \<and> first_queued_pass w' = [] \<and> store w' = store w
      \<and> pass_register w' = pass_register w ++ map_of (map (\<lambda>i. (pass_name (store w i), i)) q)"
proof (induction q arbitrary: w)
  case Nil
  then show ?case by (simp add: init_register_Nil)
next
  case (Cons this rest)
  let ?w1 = "(registered this w) \<lparr> first_queued_pass := rest \<rparr>"
  from Cons.prems have can: "can_register this w" and reg: "registrable ?w1"
    by (simp_all add: registrable_Cons)
  have "\<exists>w'. init_register ?w1 = Returns () w' \<and> first_queued_pass w' = [] \<and> store w' = store ?w1
      \<and> pass_register w' = pass_register ?w1 ++ map_of (map (\<lambda>i. (pass_name (store ?w1 i), i)) rest)"
    by (rule Cons.IH [of ?w1]) (simp_all add: reg)
  then obtain w' where
    r: "init_register ?w1 = Returns () w'" and q: "first_queued_pass w' = []"
    and st: "store w' = store w"
    and pr: "pass_register w' = pass_register ?w1 ++ map_of (map (\<lambda>i. (pass_name (store w i), i)) rest)"
    by auto
  have fresh: "pass_name (store w this) \<notin> dom (map_of (map (\<lambda>i. (pass_name (store w i), i)) rest))"
    using reg by (auto simp: registrable_def Let_def list_all_iff dom_map_of_conv_image_fst image_iff)
  have "init_register w = Returns () w'"
    using Cons.prems(1) can r by (simp add: init_register_Cons run_register_ok)
  moreover have "pass_register w' =
      pass_register w ++ map_of (map (\<lambda>i. (pass_name (store w i), i)) (this # rest))"
    using fresh by (simp add: pr map_add_upd_left)
  ultimately show ?case using q st by blast
qed

lemma init_register_not_registrable:
  "first_queued_pass w = q \<Longrightarrow> \<not> registrable w \<Longrightarrow>
   \<exists>msg w'. init_register w = Raises (AssertFailed msg) w'"
proof (induction q arbitrary: w)
  case Nil
  then show ?case by (simp add: registrable_def distinct_names_def)
next
  case (Cons this rest)
  show ?case
  proof (cases "can_register this w")
    case False
    from run_register_fails [OF False] Cons.prems(1) show ?thesis
      by (auto simp: init_register_Cons)
  next
    case True
    let ?w1 = "(registered this w) \<lparr> first_queued_pass := rest \<rparr>"
    from True Cons.prems have "\<not> registrable ?w1"
      by (simp add: registrable_Cons)
    from Cons.IH [of ?w1, OF _ this] True Cons.prems(1) show ?thesis
      by (simp add: init_register_Cons run_register_ok)
  qed
qed

lemma construct_eq:
  "construct c w =
     w \<lparr> store := (store w) (store_next w := ctor_object c),
         store_next := Suc (store_next w),
         first_queued_pass := store_next w # first_queued_pass w \<rparr>"
  by (cases c) (simp_all add: Pass_new_def Frontend_new_def Backend_new_def new_object_def Let_def)

lemma construct_all_Cons: "construct_all (c # cs) w = construct_all cs (construct c w)"
  by (simp add: construct_all_def)

lemma construct_all_Nil: "construct_all [] w = w"
  by (simp add: construct_all_def)

lemma construct_all_unchanged:
  "store_next (construct_all cs w) = store_next w + length cs"
  "pass_register (construct_all cs w) = pass_register w"
  "frontend_register (construct_all cs w) = frontend_register w"
  "backend_register (construct_all cs w) = backend_register w"
  by (induction cs arbitrary: w) (simp_all add: construct_all_Nil construct_all_Cons construct_eq)

lemma construct_all_queue:
  "first_queued_pass (construct_all cs w) =
     rev [store_next w ..< store_next w + length cs] @ first_queued_pass w"
proof (induction cs arbitrary: w)
  case Nil
  show ?case by (simp add: construct_all_Nil)
next
  case (Cons c cs)
  have "first_queued_pass (construct_all (c # cs) w) =
      rev [Suc (store_next w) ..< Suc (store_next w) + length cs] @ store_next w # first_queued_pass w"
    by (simp add: construct_all_Cons Cons.IH construct_eq)
  moreover have "[store_next w ..< store_next w + length (c # cs)] =
      store_next w # [Suc (store_next w) ..< Suc (store_next w) + length cs]"
    by (subst upt_rec) (simp del: upt_Suc)
  ultimately show ?case by (simp del: upt_Suc)
qed

lemmas construct_all_fields = construct_all_unchanged construct_all_queue

lemma construct_all_store_old:
  "i < store_next w \<Longrightarrow> store (construct_all cs w) i = store w i"
  by (induction cs arbitrary: w) (simp_all add: construct_all_Nil construct_all_Cons construct_eq)

lemma construct_all_store_new:
  "j < length cs \<Longrightarrow> store (construct_all cs w) (store_next w + j) = ctor_object (cs ! j)"
proof (induction cs arbitrary: w j)
  case Nil
  then show ?case by simp
next
  case (Cons c cs)
  show ?case
  proof (cases j)
    case 0
    then show ?thesis
      by (simp add: construct_all_Cons construct_all_store_old construct_eq)
  next
    case (Suc k)
    with Cons.prems have "k < length cs" by simp
    from Cons.IH [OF this, of "construct c w"] Suc show ?thesis
      by (simp add: construct_all_Cons construct_eq)
  qed
qed

lemma constructed_initial:
  "first_queued_pass (construct_all cs (initial_world d)) = rev [0 ..< length cs]"
  "pass_register (construct_all cs (initial_world d)) = Map.empty"
  "frontend_register (construct_all cs (initial_world d)) = Map.empty"
  "backend_register (construct_all cs (initial_world d)) = Map.empty"
  "i < length cs \<Longrightarrow> store (construct_all cs (initial_world d)) i = ctor_object (cs ! i)"
  using construct_all_store_new [of i cs "initial_world d"]
  by (simp_all add: construct_all_fields) (simp_all add: initial_world_def)

lemma constructed_objects:
  "map (store (construct_all cs (initial_world d))) (rev [0 ..< length cs])
     = rev (map ctor_object cs)"
proof -
  have "map (store (construct_all cs (initial_world d))) [0 ..< length cs]
      = map (\<lambda>i. ctor_object (cs ! i)) [0 ..< length cs]"
    by (rule map_cong) (simp_all add: constructed_initial)
  also have "\<dots> = map ctor_object (map ((!) cs) [0 ..< length cs])"
    by simp
  also have "\<dots> = map ctor_object cs"
    by (simp only: map_nth)
  finally have e: "map (store (construct_all cs (initial_world d))) [0 ..< length cs]
      = map ctor_object cs" .
  show ?thesis
    unfolding rev_map [symmetric] e ..
qed

lemma registrable_constructed:
  "registrable (construct_all cs (initial_world d)) = distinct_names (map ctor_object cs)"
  unfolding registrable_def Let_def
  by (simp add: constructed_initial constructed_objects distinct_names_rev list_all_iff)


lemma constructed_lookup:
  assumes d: "distinct (map pass_name (map ctor_object cs))"
  shows "i < length cs \<Longrightarrow>
         map_of (map (\<lambda>i. (pass_name (store (construct_all cs (initial_world d0)) i), i))
                  (rev [0 ..< length cs])) (pass_name (ctor_object (cs ! i))) = Some i"
    and "n \<notin> set (map pass_name (map ctor_object cs)) \<Longrightarrow>
         map_of (map (\<lambda>i. (pass_name (store (construct_all cs (initial_world d0)) i), i))
                  (rev [0 ..< length cs])) n = None"
proof -
  let ?W = "construct_all cs (initial_world d0)"
  let ?xs = "map (\<lambda>i. (pass_name (store ?W i), i)) (rev [0 ..< length cs])"
  have "map fst ?xs = map pass_name (map (store ?W) (rev [0 ..< length cs]))"
    by (simp add: comp_def)
  also have "\<dots> = map pass_name (rev (map ctor_object cs))"
    by (simp only: constructed_objects)
  finally have fst: "map fst ?xs = rev (map pass_name (map ctor_object cs))"
    by (simp add: rev_map)
  have dist: "distinct (map fst ?xs)"
    unfolding fst using d by simp
  {
    assume i: "i < length cs"
    then have "(pass_name (ctor_object (cs ! i)), i) \<in> set ?xs"
      by (auto simp: constructed_initial image_iff intro!: bexI [of _ i])
    then show "map_of ?xs (pass_name (ctor_object (cs ! i))) = Some i"
      using dist by (simp add: map_of_eq_Some_iff)
  }
  {
    assume "n \<notin> set (map pass_name (map ctor_object cs))"
    then have "n \<notin> fst ` set ?xs"
      using fst by (metis set_map set_rev)
    then show "map_of ?xs n = None"
      by (simp add: map_of_eq_None_iff)
  }
qed

text \<open>
  Claim C6. The names of a descriptor are the ones it is registered under: its
  \<^verbatim>\<open>pass_name\<close> in the namespace of all commands and, for a frontend or backend,
  its format name in the namespace of its kind. For constructions from the initial state
  whose names are pairwise distinct in each namespace, \<^verbatim>\<open>init_register\<close> returns
  with an empty queue and a pass register that holds the \<open>i\<close>-th descriptor under its
  own name and nothing under any other name; dispatching such another name is the command
  error \<^verbatim>\<open>No such command\<close> in an unchanged state. When two descriptors share a name
  in one namespace, \<^verbatim>\<open>init_register\<close> ends in a failed assertion.
\<close>

theorem init_register_builds_registry:
  "(distinct_names (map ctor_object cs) \<longrightarrow>
      (\<exists>w. init_register (construct_all cs (initial_world d)) = Returns () w
         \<and> first_queued_pass w = []
         \<and> (\<forall>i < length cs. store w i = ctor_object (cs ! i)
               \<and> pass_register w (pass_name (ctor_object (cs ! i))) = Some i)
         \<and> (\<forall>n. n \<notin> set (map pass_name (map ctor_object cs)) \<longrightarrow>
               pass_register w n = None
               \<and> (\<forall>ext args. first_char n \<noteq> CHR ''#'' \<longrightarrow>
                     Pass_call_vec ext (n # args) w =
                       Raises (CmdError (''No such command: '' @ n
                                 @ '' (type 'help' for a command overview)'' @ [LF])) w))))
   \<and> (\<not> distinct_names (map ctor_object cs) \<longrightarrow>
      (\<exists>msg w. init_register (construct_all cs (initial_world d)) = Raises (AssertFailed msg) w))"
proof (intro conjI impI)
  let ?W = "construct_all cs (initial_world d)"
  assume dn: "distinct_names (map ctor_object cs)"
  then have reg: "registrable ?W" by (simp add: registrable_constructed)
  from init_register_registrable [OF constructed_initial(1) reg] obtain w where
    r: "init_register ?W = Returns () w" and q: "first_queued_pass w = []"
    and st: "store w = store ?W"
    and pr: "pass_register w =
        pass_register ?W ++ map_of (map (\<lambda>i. (pass_name (store ?W i), i)) (rev [0 ..< length cs]))"
    by blast
  have d: "distinct (map pass_name (map ctor_object cs))"
    using dn by (simp add: distinct_names_def)
  have a: "\<forall>i < length cs. store w i = ctor_object (cs ! i)
               \<and> pass_register w (pass_name (ctor_object (cs ! i))) = Some i"
    using constructed_lookup(1) [OF d, where ?d0.0 = d] by (simp add: st pr constructed_initial)
  have b: "\<forall>n. n \<notin> set (map pass_name (map ctor_object cs)) \<longrightarrow>
               pass_register w n = None
               \<and> (\<forall>ext args. first_char n \<noteq> CHR ''#'' \<longrightarrow>
                     Pass_call_vec ext (n # args) w =
                       Raises (CmdError (''No such command: '' @ n
                                 @ '' (type 'help' for a command overview)'' @ [LF])) w)"
  proof (intro allI impI conjI)
    fix n assume "n \<notin> set (map pass_name (map ctor_object cs))"
    then show none: "pass_register w n = None"
      using constructed_lookup(2) [OF d, where ?d0.0 = d] by (simp add: pr constructed_initial)
    fix ext :: "'a ext" and args assume "first_char n \<noteq> CHR ''#''"
    then show "Pass_call_vec ext (n # args) w =
        Raises (CmdError (''No such command: '' @ n
                  @ '' (type 'help' for a command overview)'' @ [LF])) w"
      using none Pass_call_vec_unknown [of "n # args" w ext] by simp
  qed
  show "\<exists>w. init_register ?W = Returns () w
         \<and> first_queued_pass w = []
         \<and> (\<forall>i < length cs. store w i = ctor_object (cs ! i)
               \<and> pass_register w (pass_name (ctor_object (cs ! i))) = Some i)
         \<and> (\<forall>n. n \<notin> set (map pass_name (map ctor_object cs)) \<longrightarrow>
               pass_register w n = None
               \<and> (\<forall>ext args. first_char n \<noteq> CHR ''#'' \<longrightarrow>
                     Pass_call_vec ext (n # args) w =
                       Raises (CmdError (''No such command: '' @ n
                                 @ '' (type 'help' for a command overview)'' @ [LF])) w))"
    using r q a b by blast
next
  assume "\<not> distinct_names (map ctor_object cs)"
  then have "\<not> registrable (construct_all cs (initial_world d))"
    by (simp add: registrable_constructed)
  from init_register_not_registrable [OF constructed_initial(1) this]
  show "\<exists>msg w. init_register (construct_all cs (initial_world d)) = Raises (AssertFailed msg) w" .
qed

theorem init_register_builds_registry_witness:
  "distinct_names (map ctor_object [NewPass ''foo'' [], NewFrontend ''verilog'' [], NewBackend ''=dump'' []])
   \<and> (\<exists>w. init_register (construct_all [NewPass ''foo'' [], NewFrontend ''verilog'' [],
              NewBackend ''=dump'' []] (initial_world empty_design)) = Returns () w
         \<and> pass_register w ''foo'' = Some 0
         \<and> pass_register w ''read_verilog'' = Some 1
         \<and> pass_register w ''dump'' = Some 2
         \<and> pass_register w ''verilog'' = None
         \<and> Pass_call_vec idle_ext [''verilog''] w =
             Raises (CmdError (''No such command: verilog (type 'help' for a command overview)''
                       @ [LF])) w)
   \<and> \<not> distinct_names (map ctor_object [NewPass ''read_v'' [], NewFrontend ''v'' []])
   \<and> (\<exists>msg w. init_register (construct_all [NewPass ''read_v'' [], NewFrontend ''v'' []]
                   (initial_world empty_design)) = Raises (AssertFailed msg) w)"
proof -
  let ?cs = "[NewPass ''foo'' [], NewFrontend ''verilog'' [], NewBackend ''=dump'' []]"
  let ?bad = "[NewPass ''read_v'' [], NewFrontend ''v'' []]"
  have d: "distinct_names (map ctor_object ?cs)"
    by (simp add: distinct_names_def starts_with_eq_def)
  have nd: "\<not> distinct_names (map ctor_object ?bad)"
    by (simp add: distinct_names_def starts_with_eq_def)
  from init_register_builds_registry [of ?cs empty_design] d obtain w where
    r: "init_register (construct_all ?cs (initial_world empty_design)) = Returns () w"
    and a: "\<forall>i < length ?cs. store w i = ctor_object (?cs ! i)
               \<and> pass_register w (pass_name (ctor_object (?cs ! i))) = Some i"
    and b: "\<forall>n. n \<notin> set (map pass_name (map ctor_object ?cs)) \<longrightarrow>
               pass_register w n = None
               \<and> (\<forall>ext args. first_char n \<noteq> CHR ''#'' \<longrightarrow>
                     Pass_call_vec ext (n # args) w =
                       Raises (CmdError (''No such command: '' @ n
                                 @ '' (type 'help' for a command overview)'' @ [LF])) w)"
    by blast
  have p0: "pass_register w ''foo'' = Some 0"
    using a [rule_format, of 0] by simp
  have p1: "pass_register w ''read_verilog'' = Some 1"
    using a [rule_format, of 1] by (simp add: starts_with_eq_def)
  have p2: "pass_register w ''dump'' = Some 2"
    using a [rule_format, of 2] by (simp add: starts_with_eq_def)
  have nv: "''verilog'' \<notin> set (map pass_name (map ctor_object ?cs))"
    by (simp add: starts_with_eq_def)
  have fc: "first_char ''verilog'' \<noteq> CHR ''#''"
    by (simp add: first_char_def)
  have n1: "pass_register w ''verilog'' = None"
    using b nv by blast
  have n2: "Pass_call_vec idle_ext [''verilog''] w =
             Raises (CmdError (''No such command: verilog (type 'help' for a command overview)''
                       @ [LF])) w"
    using b [rule_format, OF nv, THEN conjunct2, rule_format, OF fc, of idle_ext "[]"] by simp
  from init_register_builds_registry [of ?bad empty_design] nd
  have f: "\<exists>msg w. init_register (construct_all ?bad (initial_world empty_design))
      = Raises (AssertFailed msg) w"
    by blast
  show ?thesis using d nd r p0 p1 p2 n1 n2 f by blast
qed

lemma Frontend_new_fields:
  "fst (Frontend_new name hlp w) = store_next w"
  "store (snd (Frontend_new name hlp w)) (store_next w) = ctor_object (NewFrontend name hlp)"
  "pass_register (snd (Frontend_new name hlp w)) = pass_register w"
  "frontend_register (snd (Frontend_new name hlp w)) = frontend_register w"
  "backend_register (snd (Frontend_new name hlp w)) = backend_register w"
  by (simp_all add: Frontend_new_def new_object_def Let_def)

lemma Backend_new_fields:
  "fst (Backend_new name hlp w) = store_next w"
  "store (snd (Backend_new name hlp w)) (store_next w) = ctor_object (NewBackend name hlp)"
  "pass_register (snd (Backend_new name hlp w)) = pass_register w"
  "frontend_register (snd (Backend_new name hlp w)) = frontend_register w"
  "backend_register (snd (Backend_new name hlp w)) = backend_register w"
  by (simp_all add: Backend_new_def new_object_def Let_def)

lemma registered_Frontend:
  "pass_class (store w this) = FrontendPass n \<Longrightarrow>
   frontend_register (registered this w) = (frontend_register w) (n \<mapsto> this)
   \<and> backend_register (registered this w) = backend_register w"
  by (simp add: registered_def)

lemma registered_Backend:
  "pass_class (store w this) = BackendPass n \<Longrightarrow>
   backend_register (registered this w) = (backend_register w) (n \<mapsto> this)
   \<and> frontend_register (registered this w) = frontend_register w"
  by (simp add: registered_def)

lemma Frontend_registers:
  assumes "pass_register w (if starts_with_eq name then drop 1 name else ''read_'' @ name) = None"
    and "frontend_register w (if starts_with_eq name then drop 1 name else name) = None"
  shows "\<exists>w2. run_register (fst (Frontend_new name hlp w)) (snd (Frontend_new name hlp w))
            = Returns () w2
     \<and> pass_register w2 = (pass_register w)
          ((if starts_with_eq name then drop 1 name else ''read_'' @ name)
             \<mapsto> fst (Frontend_new name hlp w))
     \<and> frontend_register w2 = (frontend_register w)
          ((if starts_with_eq name then drop 1 name else name) \<mapsto> fst (Frontend_new name hlp w))
     \<and> backend_register w2 = backend_register w"
proof -
  let ?obj = "fst (Frontend_new name hlp w)" and ?w1 = "snd (Frontend_new name hlp w)"
  have cls: "pass_class (store ?w1 ?obj)
      = FrontendPass (if starts_with_eq name then drop 1 name else name)"
    and nm: "pass_name (store ?w1 ?obj)
      = (if starts_with_eq name then drop 1 name else ''read_'' @ name)"
    by (simp_all add: Frontend_new_fields)
  have "can_register ?obj ?w1"
    using assms unfolding can_register_def cls nm by (simp add: Frontend_new_fields)
  then have "run_register ?obj ?w1 = Returns () (registered ?obj ?w1)"
    by (rule run_register_ok)
  moreover have "pass_register (registered ?obj ?w1) = (pass_register w)
          ((if starts_with_eq name then drop 1 name else ''read_'' @ name) \<mapsto> ?obj)"
    unfolding registered_fields nm by (simp add: Frontend_new_fields)
  moreover have "frontend_register (registered ?obj ?w1) = (frontend_register w)
          ((if starts_with_eq name then drop 1 name else name) \<mapsto> ?obj)"
    and "backend_register (registered ?obj ?w1) = backend_register w"
    using registered_Frontend [OF cls] by (simp_all add: Frontend_new_fields)
  ultimately show ?thesis by blast
qed

lemma Backend_registers:
  assumes "pass_register w (if starts_with_eq name then drop 1 name else ''write_'' @ name) = None"
    and "backend_register w (if starts_with_eq name then drop 1 name else name) = None"
  shows "\<exists>w2. run_register (fst (Backend_new name hlp w)) (snd (Backend_new name hlp w))
            = Returns () w2
     \<and> pass_register w2 = (pass_register w)
          ((if starts_with_eq name then drop 1 name else ''write_'' @ name)
             \<mapsto> fst (Backend_new name hlp w))
     \<and> backend_register w2 = (backend_register w)
          ((if starts_with_eq name then drop 1 name else name) \<mapsto> fst (Backend_new name hlp w))
     \<and> frontend_register w2 = frontend_register w"
proof -
  let ?obj = "fst (Backend_new name hlp w)" and ?w1 = "snd (Backend_new name hlp w)"
  have cls: "pass_class (store ?w1 ?obj)
      = BackendPass (if starts_with_eq name then drop 1 name else name)"
    and nm: "pass_name (store ?w1 ?obj)
      = (if starts_with_eq name then drop 1 name else ''write_'' @ name)"
    by (simp_all add: Backend_new_fields)
  have "can_register ?obj ?w1"
    using assms unfolding can_register_def cls nm by (simp add: Backend_new_fields)
  then have "run_register ?obj ?w1 = Returns () (registered ?obj ?w1)"
    by (rule run_register_ok)
  moreover have "pass_register (registered ?obj ?w1) = (pass_register w)
          ((if starts_with_eq name then drop 1 name else ''write_'' @ name) \<mapsto> ?obj)"
    unfolding registered_fields nm by (simp add: Backend_new_fields)
  moreover have "backend_register (registered ?obj ?w1) = (backend_register w)
          ((if starts_with_eq name then drop 1 name else name) \<mapsto> ?obj)"
    and "frontend_register (registered ?obj ?w1) = frontend_register w"
    using registered_Backend [OF cls] by (simp_all add: Backend_new_fields)
  ultimately show ?thesis by blast
qed

text \<open>
  Claim C8. A frontend constructed with the name \<open>N\<close> and then registered, in a state
  where its names are free, is in \<^verbatim>\<open>pass_register\<close> under \<^verbatim>\<open>read_\<close> followed
  by \<open>N\<close> and in \<^verbatim>\<open>frontend_register\<close> under \<open>N\<close> when \<open>N\<close> does not
  begin with \<^verbatim>\<open>=\<close>, and in both registers under \<open>N\<close> without its first character
  when it does. A backend is the same with \<^verbatim>\<open>write_\<close> and
  \<^verbatim>\<open>backend_register\<close>. The register of the other kind is left as it was.
\<close>

theorem frontend_backend_registered_names:
  "(take 1 name \<noteq> ''='' \<and> pass_register w (''read_'' @ name) = None \<and> frontend_register w name = None
      \<longrightarrow> (\<exists>w2. run_register (fst (Frontend_new name hlp w)) (snd (Frontend_new name hlp w))
                  = Returns () w2
            \<and> pass_register w2 = (pass_register w) (''read_'' @ name \<mapsto> fst (Frontend_new name hlp w))
            \<and> frontend_register w2 = (frontend_register w) (name \<mapsto> fst (Frontend_new name hlp w))
            \<and> backend_register w2 = backend_register w))
   \<and> (take 1 name = ''='' \<and> pass_register w (drop 1 name) = None
        \<and> frontend_register w (drop 1 name) = None
      \<longrightarrow> (\<exists>w2. run_register (fst (Frontend_new name hlp w)) (snd (Frontend_new name hlp w))
                  = Returns () w2
            \<and> pass_register w2 = (pass_register w) (drop 1 name \<mapsto> fst (Frontend_new name hlp w))
            \<and> frontend_register w2 = (frontend_register w) (drop 1 name \<mapsto> fst (Frontend_new name hlp w))
            \<and> backend_register w2 = backend_register w))
   \<and> (take 1 name \<noteq> ''='' \<and> pass_register w (''write_'' @ name) = None \<and> backend_register w name = None
      \<longrightarrow> (\<exists>w2. run_register (fst (Backend_new name hlp w)) (snd (Backend_new name hlp w))
                  = Returns () w2
            \<and> pass_register w2 = (pass_register w) (''write_'' @ name \<mapsto> fst (Backend_new name hlp w))
            \<and> backend_register w2 = (backend_register w) (name \<mapsto> fst (Backend_new name hlp w))
            \<and> frontend_register w2 = frontend_register w))
   \<and> (take 1 name = ''='' \<and> pass_register w (drop 1 name) = None
        \<and> backend_register w (drop 1 name) = None
      \<longrightarrow> (\<exists>w2. run_register (fst (Backend_new name hlp w)) (snd (Backend_new name hlp w))
                  = Returns () w2
            \<and> pass_register w2 = (pass_register w) (drop 1 name \<mapsto> fst (Backend_new name hlp w))
            \<and> backend_register w2 = (backend_register w) (drop 1 name \<mapsto> fst (Backend_new name hlp w))
            \<and> frontend_register w2 = frontend_register w))"
proof (cases "starts_with_eq name")
  case True
  then have "take 1 name = ''=''" by (simp add: starts_with_eq_def)
  then show ?thesis
    using Frontend_registers [of w name hlp] Backend_registers [of w name hlp] True
    by simp
next
  case False
  then have "take 1 name \<noteq> ''=''" by (simp add: starts_with_eq_def)
  then show ?thesis
    using Frontend_registers [of w name hlp] Backend_registers [of w name hlp] False
    by simp
qed

theorem frontend_backend_registered_names_witness:
  "take 1 ''verilog'' \<noteq> ''=''
   \<and> pass_register foo_clean_world ''read_verilog'' = None
   \<and> frontend_register foo_clean_world ''verilog'' = None
   \<and> (\<exists>w2. run_register (fst (Frontend_new ''verilog'' [] foo_clean_world))
                (snd (Frontend_new ''verilog'' [] foo_clean_world)) = Returns () w2
          \<and> pass_register w2 ''read_verilog'' = Some 2
          \<and> pass_register w2 ''verilog'' = None
          \<and> frontend_register w2 ''verilog'' = Some 2)
   \<and> take 1 ''=script'' = ''=''
   \<and> pass_register foo_clean_world (drop 1 ''=script'') = None
   \<and> frontend_register foo_clean_world (drop 1 ''=script'') = None
   \<and> (\<exists>w2. run_register (fst (Frontend_new ''=script'' [] foo_clean_world))
                (snd (Frontend_new ''=script'' [] foo_clean_world)) = Returns () w2
          \<and> pass_register w2 ''script'' = Some 2
          \<and> frontend_register w2 ''script'' = Some 2)
   \<and> backend_register foo_clean_world ''verilog'' = None
   \<and> pass_register foo_clean_world ''write_verilog'' = None
   \<and> (\<exists>w2. run_register (fst (Backend_new ''verilog'' [] foo_clean_world))
                (snd (Backend_new ''verilog'' [] foo_clean_world)) = Returns () w2
          \<and> pass_register w2 ''write_verilog'' = Some 2
          \<and> backend_register w2 ''verilog'' = Some 2)
   \<and> backend_register foo_clean_world (drop 1 ''=script'') = None
   \<and> (\<exists>w2. run_register (fst (Backend_new ''=script'' [] foo_clean_world))
                (snd (Backend_new ''=script'' [] foo_clean_world)) = Returns () w2
          \<and> pass_register w2 ''script'' = Some 2
          \<and> backend_register w2 ''script'' = Some 2)"
proof -
  let ?w = foo_clean_world
  have h: "take 1 ''verilog'' \<noteq> ''=''" "pass_register ?w ''read_verilog'' = None"
    "frontend_register ?w ''verilog'' = None" "take 1 ''=script'' = ''=''"
    "pass_register ?w (drop 1 ''=script'') = None" "frontend_register ?w (drop 1 ''=script'') = None"
    "backend_register ?w ''verilog'' = None" "pass_register ?w ''write_verilog'' = None"
    "backend_register ?w (drop 1 ''=script'') = None"
    by (simp_all add: foo_clean_world_def initial_world_def)
  have id: "fst (Frontend_new ''verilog'' [] ?w) = 2" "fst (Frontend_new ''=script'' [] ?w) = 2"
    "fst (Backend_new ''verilog'' [] ?w) = 2" "fst (Backend_new ''=script'' [] ?w) = 2"
    by (simp_all add: Frontend_new_fields Backend_new_fields foo_clean_world_def)
  note v = frontend_backend_registered_names [of "''verilog''" ?w "[]"]
  note s = frontend_backend_registered_names [of "''=script''" ?w "[]"]
  have a: "\<exists>w2. run_register (fst (Frontend_new ''verilog'' [] ?w))
                (snd (Frontend_new ''verilog'' [] ?w)) = Returns () w2
          \<and> pass_register w2 ''read_verilog'' = Some 2
          \<and> pass_register w2 ''verilog'' = None
          \<and> frontend_register w2 ''verilog'' = Some 2"
    using v h unfolding id by (auto simp: foo_clean_world_def initial_world_def)
  have b: "\<exists>w2. run_register (fst (Frontend_new ''=script'' [] ?w))
                (snd (Frontend_new ''=script'' [] ?w)) = Returns () w2
          \<and> pass_register w2 ''script'' = Some 2
          \<and> frontend_register w2 ''script'' = Some 2"
    using s h unfolding id by auto
  have c: "\<exists>w2. run_register (fst (Backend_new ''verilog'' [] ?w))
                (snd (Backend_new ''verilog'' [] ?w)) = Returns () w2
          \<and> pass_register w2 ''write_verilog'' = Some 2
          \<and> backend_register w2 ''verilog'' = Some 2"
    using v h unfolding id by auto
  have d: "\<exists>w2. run_register (fst (Backend_new ''=script'' [] ?w))
                (snd (Backend_new ''=script'' [] ?w)) = Returns () w2
          \<and> pass_register w2 ''script'' = Some 2
          \<and> backend_register w2 ''script'' = Some 2"
    using s h unfolding id by auto
  show ?thesis using h a b c d by blast
qed

section \<open>The frontend and backend drivers\<close>

lemma counter_of_simps [simp]:
  "counter_of this (incr_call_counter this w) = counter_of this w + 1"
  "counter_of this (emit e w) = counter_of this w"
  "counter_of this (set_selection_stack st w) = counter_of this w"
  "counter_of this (w \<lparr> next_args := a \<rparr>) = counter_of this w"
  by (simp_all add: counter_of_def incr_call_counter_def emit_def set_selection_stack_def)





text \<open>At the largest value the counter goes round to the smallest.\<close>

lemma incr_call_counter_wraps:
  "sint (counter_of this w) = 2147483647 \<Longrightarrow>
   sint (counter_of this (incr_call_counter this w)) = - 2147483648"
proof -
  assume "sint (counter_of this w) = 2147483647"
  moreover have "counter_of this w = word_of_int (sint (counter_of this w))"
    by simp
  ultimately have "counter_of this w = 2147483647"
    by simp
  then show ?thesis by simp
qed








lemma Backend_extra_args_loop_done:
  "length args \<le> argidx \<Longrightarrow>
   Backend_extra_args_loop ext f filename args argidx w = Returns (f, filename) w"
  by (subst Backend_extra_args_loop.simps) simp

lemma drop_single:
  "drop argidx args = [x] \<Longrightarrow> argidx < length args \<and> args ! argidx = x \<and> length args = Suc argidx"
proof -
  assume d: "drop argidx args = [x]"
  then have "length (drop argidx args) = 1" by simp
  then have l: "length args = Suc argidx" by simp
  moreover have "args ! argidx = hd (drop argidx args)"
    using l by (simp add: hd_drop_conv_nth)
  ultimately show ?thesis using d by simp
qed

lemma Backend_extra_args_absent:
  "args \<noteq> [] \<Longrightarrow> length args \<le> argidx \<Longrightarrow>
   Backend_extra_args ext None filename args argidx w = Returns (Some Stdout, ''<stdout>'') w"
  by (simp add: Backend_extra_args_def Backend_extra_args_loop_done)

lemma Backend_extra_args_dash:
  "drop argidx args = [''-''] \<Longrightarrow>
   Backend_extra_args ext None filename args argidx w = Returns (Some Stdout, ''<stdout>'') w"
  apply (drule drop_single)
  apply (subgoal_tac "args \<noteq> []")
   apply (simp add: Backend_extra_args_def)
   apply (subst Backend_extra_args_loop.simps)
   apply (simp add: Backend_extra_args_loop_done)
  apply auto
  done

lemma Backend_extra_args_path:
  "drop argidx args = [path] \<Longrightarrow> take 1 path \<noteq> ''-'' \<Longrightarrow> os_can_open ext path ''w'' \<Longrightarrow>
   Backend_extra_args ext None filename args argidx w =
     Returns (Some (FileStream path ''w''), path) (emit (Fopen path ''w'') w)"
  apply (drule drop_single)
  apply (subgoal_tac "args \<noteq> []")
   apply (simp add: Backend_extra_args_def)
   apply (subst Backend_extra_args_loop.simps)
   apply (auto simp: Backend_extra_args_loop_done fopen_def)
  done

lemma Backend_extra_args_second_path:
  "drop argidx args = p1 # p2 # others \<Longrightarrow> take 1 p1 \<noteq> ''-'' \<Longrightarrow> os_can_open ext p1 ''w'' \<Longrightarrow>
   \<not> (take 1 p2 = ''-'' \<and> p2 \<noteq> ''-'') \<Longrightarrow>
   Backend_extra_args ext None filename args argidx w =
     cmd_error args (argidx + 1) ''Extra filename argument in direct file mode.''
       (emit (Fopen p1 ''w'') w)"
proof -
  assume d: "drop argidx args = p1 # p2 # others" and p: "take 1 p1 \<noteq> ''-''"
    and o: "os_can_open ext p1 ''w''" and q: "\<not> (take 1 p2 = ''-'' \<and> p2 \<noteq> ''-'')"
  from d have "length (drop argidx args) = Suc (Suc (length others))" by simp
  then have l: "Suc argidx < length args" by simp
  have a1: "args ! argidx = p1"
    using d l by (metis Suc_lessD hd_drop_conv_nth list.sel(1))
  have "drop (Suc argidx) args = p2 # others"
    using d by (metis drop_Suc list.sel(3) tl_drop)
  then have a2: "args ! Suc argidx = p2"
    using l by (metis hd_drop_conv_nth list.sel(1))
  have p1': "p1 \<noteq> ''-''" using p by auto
  have s2: "Backend_extra_args_loop ext (Some (FileStream p1 ''w'')) p1 args (Suc argidx) w' =
      cmd_error args (Suc argidx) ''Extra filename argument in direct file mode.'' w'" for w'
    using l a2 q by (subst Backend_extra_args_loop.simps) auto
  have s1: "Backend_extra_args_loop ext None filename args argidx w =
      cmd_error args (Suc argidx) ''Extra filename argument in direct file mode.''
        (emit (Fopen p1 ''w'') w)"
    using l a1 p p1' o by (subst Backend_extra_args_loop.simps) (auto simp: fopen_def s2)
  show ?thesis
    unfolding Backend_extra_args_def Let_def s1
    by (simp add: cmd_error_def log_cmd_error_def)
qed

lemma writing_ext_format:
  "format_execute writing_ext this f filename args w =
     and_then (Backend_extra_args idle_ext f filename args 1 w) (\<lambda>r w1. Returns (fst r) w1)"
  by (simp add: writing_ext_def)

text \<open>
  Claim C10, as the code has it. When the format-specific call of
  \<^verbatim>\<open>Backend::execute(args, design)\<close> returns with the stream \<open>s\<close>, the driver
  returns, and what it adds to the calls made so far is one \<^verbatim>\<open>fclose\<close> of \<open>s\<close> if
  \<open>s\<close> is not standard output and nothing if it is. \<^verbatim>\<open>Backend::extra_args\<close>,
  entered without a stream and with a command name in \<^verbatim>\<open>args\<close>, yields standard
  output under the file name \<^verbatim>\<open><stdout>\<close> when no destination token is left and when
  the one token left is \<^verbatim>\<open>-\<close>, opening nothing; and for one token that is a path
  which can be opened it yields the stream opened for writing on that path. When the
  format-specific call leaves by an error, the driver leaves by that error in the state
  the call left, so it closes nothing; \<^verbatim>\<open>Backend::extra_args\<close> does so after it has
  opened a path when another destination token follows, with the stream of the path left
  open. A format-specific call that returns without a stream leaves the driver with
  \<^verbatim>\<open>fclose(NULL)\<close>.
\<close>

theorem backend_closes_all_but_stdout:
  "(format_execute ext this None [] args (incr_call_counter this w) = Returns (Some s) w1
      \<longrightarrow> (\<exists>w2. Backend_execute ext this args w = Returns () w2
             \<and> events w2 = events w1 @ (if s = Stdout then [] else [Fclose s])))
   \<and> (args \<noteq> [] \<and> length args \<le> argidx
      \<longrightarrow> Backend_extra_args ext None filename args argidx w = Returns (Some Stdout, ''<stdout>'') w)
   \<and> (drop argidx args = [''-'']
      \<longrightarrow> Backend_extra_args ext None filename args argidx w = Returns (Some Stdout, ''<stdout>'') w)
   \<and> (drop argidx args = [path] \<and> take 1 path \<noteq> ''-'' \<and> os_can_open ext path ''w''
      \<longrightarrow> Backend_extra_args ext None filename args argidx w =
            Returns (Some (FileStream path ''w''), path) (emit (Fopen path ''w'') w))
   \<and> (format_execute ext this None [] args (incr_call_counter this w) = Raises e w1
      \<longrightarrow> Backend_execute ext this args w = Raises e w1)
   \<and> (drop argidx args = path # token # others \<and> take 1 path \<noteq> ''-'' \<and> os_can_open ext path ''w''
        \<and> \<not> (take 1 token = ''-'' \<and> token \<noteq> ''-'')
      \<longrightarrow> Backend_extra_args ext None filename args argidx w =
            cmd_error args (argidx + 1) ''Extra filename argument in direct file mode.''
              (emit (Fopen path ''w'') w))
   \<and> (format_execute ext this None [] args (incr_call_counter this w) = Returns None w1
      \<longrightarrow> Backend_execute ext this args w = Raises (UndefinedBehaviour ''fclose(NULL)'') w1)"
proof (intro conjI impI)
  assume "format_execute ext this None [] args (incr_call_counter this w) = Returns (Some s) w1"
  then show "\<exists>w2. Backend_execute ext this args w = Returns () w2
             \<and> events w2 = events w1 @ (if s = Stdout then [] else [Fclose s])"
    by (simp add: Backend_execute_def fclose_def)
next
  assume "args \<noteq> [] \<and> length args \<le> argidx"
  then show "Backend_extra_args ext None filename args argidx w = Returns (Some Stdout, ''<stdout>'') w"
    by (simp add: Backend_extra_args_absent)
next
  assume "drop argidx args = [''-'']"
  then show "Backend_extra_args ext None filename args argidx w = Returns (Some Stdout, ''<stdout>'') w"
    by (rule Backend_extra_args_dash)
next
  assume "drop argidx args = [path] \<and> take 1 path \<noteq> ''-'' \<and> os_can_open ext path ''w''"
  then show "Backend_extra_args ext None filename args argidx w =
            Returns (Some (FileStream path ''w''), path) (emit (Fopen path ''w'') w)"
    by (simp add: Backend_extra_args_path)
next
  assume "format_execute ext this None [] args (incr_call_counter this w) = Raises e w1"
  then show "Backend_execute ext this args w = Raises e w1"
    by (simp add: Backend_execute_def)
next
  assume "drop argidx args = path # token # others \<and> take 1 path \<noteq> ''-'' \<and> os_can_open ext path ''w''
        \<and> \<not> (take 1 token = ''-'' \<and> token \<noteq> ''-'')"
  then have "drop argidx args = path # token # others" "take 1 path \<noteq> ''-''"
    "os_can_open ext path ''w''" "\<not> (take 1 token = ''-'' \<and> token \<noteq> ''-'')"
    by blast+
  then show "Backend_extra_args ext None filename args argidx w =
            cmd_error args (argidx + 1) ''Extra filename argument in direct file mode.''
              (emit (Fopen path ''w'') w)"
    by (rule Backend_extra_args_second_path)
next
  assume "format_execute ext this None [] args (incr_call_counter this w) = Returns None w1"
  then show "Backend_execute ext this args w = Raises (UndefinedBehaviour ''fclose(NULL)'') w1"
    by (simp add: Backend_execute_def fclose_def)
qed

text \<open>The claim has every stream opened from a real path closed. With two file names the
  first is opened, the second is refused, and the driver is left without a call of
  \<^verbatim>\<open>fclose\<close>.\<close>

theorem backend_leaves_stream_open_counterexample:
  "raised (Backend_execute writing_ext 1 [''write_verilog'', ''o1.v'', ''o2.v''] verilog_world)
     = Some (CmdError (''Command syntax error: Extra filename argument in direct file mode.'' @ [LF]
               @ ''> write_verilog o1.v o2.v'' @ [LF]
               @ ''>                    ^'' @ [LF]))
   \<and> map_option events
       (outcome_world (Backend_execute writing_ext 1 [''write_verilog'', ''o1.v'', ''o2.v''] verilog_world))
     = Some [Fopen ''o1.v'' ''w'']"
  by (simp add: Backend_execute_def writing_ext_def idle_ext_def Backend_extra_args_def
      Backend_extra_args_loop.simps fopen_def cmd_error_def log_cmd_error_def command_text_def
      error_pos_def raised_def outcome_world_def emit_def incr_call_counter_def verilog_world_def
      initial_world_def Let_def)

theorem backend_closes_all_but_stdout_witness:
  "[''write_verilog''] \<noteq> [] \<and> length [''write_verilog''] \<le> 1
   \<and> format_execute writing_ext 1 None [] [''write_verilog''] (incr_call_counter 1 verilog_world)
       = Returns (Some Stdout) (incr_call_counter 1 verilog_world)
   \<and> map_option events (outcome_world (Backend_execute writing_ext 1 [''write_verilog''] verilog_world))
       = Some []
   \<and> drop 1 [''write_verilog'', ''-''] = [''-'']
   \<and> format_execute writing_ext 1 None [] [''write_verilog'', ''-''] (incr_call_counter 1 verilog_world)
       = Returns (Some Stdout) (incr_call_counter 1 verilog_world)
   \<and> map_option events
        (outcome_world (Backend_execute writing_ext 1 [''write_verilog'', ''-''] verilog_world))
       = Some []
   \<and> drop 1 [''write_verilog'', ''out.v''] = [''out.v''] \<and> take 1 ''out.v'' \<noteq> ''-''
   \<and> os_can_open idle_ext ''out.v'' ''w''
   \<and> format_execute writing_ext 1 None [] [''write_verilog'', ''out.v'']
        (incr_call_counter 1 verilog_world)
       = Returns (Some (FileStream ''out.v'' ''w''))
           (emit (Fopen ''out.v'' ''w'') (incr_call_counter 1 verilog_world))
   \<and> map_option events
        (outcome_world (Backend_execute writing_ext 1 [''write_verilog'', ''out.v''] verilog_world))
       = Some [Fopen ''out.v'' ''w'', Fclose (FileStream ''out.v'' ''w'')]
   \<and> drop 1 [''write_verilog'', ''o1.v'', ''o2.v''] = ''o1.v'' # ''o2.v'' # []
   \<and> take 1 ''o1.v'' \<noteq> ''-'' \<and> os_can_open idle_ext ''o1.v'' ''w''
   \<and> \<not> (take 1 ''o2.v'' = ''-'' \<and> ''o2.v'' \<noteq> ''-'')
   \<and> format_execute writing_ext 1 None [] [''write_verilog'', ''o1.v'', ''o2.v'']
        (incr_call_counter 1 verilog_world)
       = cmd_error [''write_verilog'', ''o1.v'', ''o2.v''] 2
           ''Extra filename argument in direct file mode.''
           (emit (Fopen ''o1.v'' ''w'') (incr_call_counter 1 verilog_world))
   \<and> Backend_execute writing_ext 1 [''write_verilog'', ''o1.v'', ''o2.v''] verilog_world
       = cmd_error [''write_verilog'', ''o1.v'', ''o2.v''] 2
           ''Extra filename argument in direct file mode.''
           (emit (Fopen ''o1.v'' ''w'') (incr_call_counter 1 verilog_world))
   \<and> format_execute idle_ext 1 None [] [''write_verilog''] (incr_call_counter 1 verilog_world)
       = Returns None (incr_call_counter 1 verilog_world)
   \<and> Backend_execute idle_ext 1 [''write_verilog''] verilog_world
       = Raises (UndefinedBehaviour ''fclose(NULL)'') (incr_call_counter 1 verilog_world)"
proof -
  let ?W = "incr_call_counter 1 verilog_world"
  let ?two = "[''write_verilog'', ''o1.v'', ''o2.v'']"
  have ev: "events ?W = []"
    by (simp add: verilog_world_def initial_world_def)
  have h1: "[''write_verilog''] \<noteq> [] \<and> length [''write_verilog''] \<le> 1" by simp
  have h2: "drop 1 [''write_verilog'', ''-''] = [''-'']" by simp
  have h3: "drop 1 [''write_verilog'', ''out.v''] = [''out.v''] \<and> take 1 ''out.v'' \<noteq> ''-''
      \<and> os_can_open idle_ext ''out.v'' ''w''"
    by (simp add: idle_ext_def)
  have h4: "drop 1 ?two = ''o1.v'' # ''o2.v'' # [] \<and> take 1 ''o1.v'' \<noteq> ''-''
      \<and> os_can_open idle_ext ''o1.v'' ''w'' \<and> \<not> (take 1 ''o2.v'' = ''-'' \<and> ''o2.v'' \<noteq> ''-'')"
    by (simp add: idle_ext_def)
  note t = backend_closes_all_but_stdout
  have f1: "format_execute writing_ext 1 None [] [''write_verilog''] ?W = Returns (Some Stdout) ?W"
    using t [where ext = idle_ext and args = "[''write_verilog'']" and argidx = 1 and filename = "[]"
        and w = ?W, THEN conjunct2, THEN conjunct1] h1
    by (simp add: writing_ext_format)
  have f2: "format_execute writing_ext 1 None [] [''write_verilog'', ''-''] ?W
      = Returns (Some Stdout) ?W"
    using t [where ext = idle_ext and args = "[''write_verilog'', ''-'']" and argidx = 1
        and filename = "[]" and w = ?W, THEN conjunct2, THEN conjunct2, THEN conjunct1] h2
    by (simp add: writing_ext_format)
  have f3: "format_execute writing_ext 1 None [] [''write_verilog'', ''out.v''] ?W
      = Returns (Some (FileStream ''out.v'' ''w'')) (emit (Fopen ''out.v'' ''w'') ?W)"
    using t [where ext = idle_ext and args = "[''write_verilog'', ''out.v'']" and argidx = 1
        and filename = "[]" and w = ?W and path = "''out.v''",
        THEN conjunct2, THEN conjunct2, THEN conjunct2, THEN conjunct1] h3
    by (simp add: writing_ext_format)
  have x4: "Backend_extra_args idle_ext None [] ?two 1 ?W
      = cmd_error ?two 2 ''Extra filename argument in direct file mode.''
          (emit (Fopen ''o1.v'' ''w'') ?W)"
    using t [where ext = idle_ext and args = ?two and argidx = 1
        and filename = "[]" and w = ?W and path = "''o1.v''" and token = "''o2.v''"
        and others = "[]",
        THEN conjunct2, THEN conjunct2, THEN conjunct2, THEN conjunct2, THEN conjunct2,
        THEN conjunct1] h4
    by (simp add: numeral_2_eq_2)
  obtain e where e: "(cmd_error ?two 2 ''Extra filename argument in direct file mode.''
          (emit (Fopen ''o1.v'' ''w'') ?W) :: (unit, unit) outcome)
        = Raises e (emit (Fopen ''o1.v'' ''w'') ?W)"
    by (simp add: cmd_error_def log_cmd_error_def)
  have f4: "format_execute writing_ext 1 None [] ?two ?W
      = cmd_error ?two 2 ''Extra filename argument in direct file mode.''
          (emit (Fopen ''o1.v'' ''w'') ?W)"
    unfolding writing_ext_format x4 by (simp add: cmd_error_def log_cmd_error_def)
  have e1: "map_option events (outcome_world (Backend_execute writing_ext 1 [''write_verilog''] verilog_world))
       = Some []"
    using t [where ext = writing_ext and this = 1 and args = "[''write_verilog'']"
        and w = verilog_world and s = Stdout and ?w1.0 = ?W, THEN conjunct1] f1 ev
    by auto
  have e2: "map_option events
        (outcome_world (Backend_execute writing_ext 1 [''write_verilog'', ''-''] verilog_world))
       = Some []"
    using t [where ext = writing_ext and this = 1 and args = "[''write_verilog'', ''-'']"
        and w = verilog_world and s = Stdout and ?w1.0 = ?W, THEN conjunct1]
      f2 ev
    by auto
  have e3: "map_option events
        (outcome_world (Backend_execute writing_ext 1 [''write_verilog'', ''out.v''] verilog_world))
       = Some [Fopen ''out.v'' ''w'', Fclose (FileStream ''out.v'' ''w'')]"
    using t [where ext = writing_ext and this = 1 and args = "[''write_verilog'', ''out.v'']"
        and w = verilog_world and s = "FileStream ''out.v'' ''w''"
        and ?w1.0 = "emit (Fopen ''out.v'' ''w'') ?W", THEN conjunct1] f3 ev
    by auto
  have e4: "Backend_execute writing_ext 1 ?two verilog_world
      = cmd_error ?two 2 ''Extra filename argument in direct file mode.''
          (emit (Fopen ''o1.v'' ''w'') ?W)"
    using t [where ext = writing_ext and this = 1 and args = ?two and w = verilog_world
        and e = e and ?w1.0 = "emit (Fopen ''o1.v'' ''w'') ?W",
        THEN conjunct2, THEN conjunct2, THEN conjunct2, THEN conjunct2, THEN conjunct1] f4 e
    by (simp add: cmd_error_def log_cmd_error_def)
  have f5: "format_execute idle_ext 1 None [] [''write_verilog''] ?W = Returns None ?W"
    by (simp add: idle_ext_def)
  have e5: "Backend_execute idle_ext 1 [''write_verilog''] verilog_world
      = Raises (UndefinedBehaviour ''fclose(NULL)'') ?W"
    using t [where ext = idle_ext and this = 1 and args = "[''write_verilog'']"
        and w = verilog_world and ?w1.0 = ?W,
        THEN conjunct2, THEN conjunct2, THEN conjunct2, THEN conjunct2, THEN conjunct2,
        THEN conjunct2] f5
    by blast
  show ?thesis using h1 h2 h3 h4 f1 f2 f3 f4 e1 e2 e3 e4 f5 e5 by blast
qed

section \<open>Here-documents\<close>

lemma fgets_line:
  assumes "l \<noteq> []" and "last l = LF" and "LF \<notin> set (butlast l)"
  shows "fgets 4096 (l @ rest) = Some (take 4095 l, drop 4095 l @ rest)"
proof -
  have l: "l = butlast l @ [LF]"
    using assms(1,2) by (metis append_butlast_last_id)
  have tw: "takeWhile (\<lambda>c. c \<noteq> LF) (l @ rest) = butlast l"
    using assms(3) by (subst l) (auto simp: takeWhile_tail takeWhile_eq_all_conv)
  have len: "length (butlast l) < length (l @ rest)"
    using assms(1) by (cases l rule: rev_cases) simp_all
  have up: "butlast l @ [LF] = l" using l by simp
  show ?thesis
    unfolding fgets_def tw Let_def using assms(1) len
    by (simp add: up min_def)
qed

lemma read_buffer_line:
  "l \<noteq> [] \<Longrightarrow> last l = LF \<Longrightarrow> LF \<notin> set (butlast l) \<Longrightarrow> NUL \<notin> set l \<Longrightarrow> whole_blocks l \<Longrightarrow>
   read_buffer buffer (l @ rest) = (Some (buffer @ l), rest)"
proof (induction l arbitrary: buffer rule: whole_blocks.induct)
  case (1 l)
  have f: "fgets 4096 (l @ rest) = Some (take 4095 l, drop 4095 l @ rest)"
    using "1.prems"(1,2,3) by (rule fgets_line)
  have c: "c_str (take 4095 l) = take 4095 l"
    using "1.prems"(4) by (auto simp: c_str_def takeWhile_eq_all_conv dest: in_set_takeD)
  show ?case
  proof (cases "length l \<le> 4095")
    case True
    with f c "1.prems"(1,2) show ?thesis
      by (subst read_buffer.simps) (simp add: Let_def)
  next
    case False
    then have long: "4095 < length l" by simp
    have wb: "l ! 4094 \<noteq> CR" "whole_blocks (drop 4095 l)"
      using "1.prems"(5) False by (subst (asm) whole_blocks.simps, simp)+
    have i: "4094 < length (butlast l)" using long by simp
    then have "butlast l ! 4094 \<in> set (butlast l)" by (rule nth_mem)
    moreover have "butlast l ! 4094 = l ! 4094" using i by (simp add: nth_butlast)
    ultimately have nl: "l ! 4094 \<noteq> LF" using "1.prems"(3) by auto
    have tl: "length (take 4095 l) = 4095" using long by simp
    have tn: "take 4095 l \<noteq> []" using tl by auto
    then have "last (take 4095 l) = take 4095 l ! (length (take 4095 l) - 1)"
      by (rule last_conv_nth)
    then have "last (take 4095 l) = l ! 4094"
      unfolding tl by simp
    then have la: "last (buffer @ take 4095 l) = l ! 4094"
      using tn by simp
    have d1: "drop 4095 l \<noteq> []" using long by simp
    have d2: "last (drop 4095 l) = LF" using long "1.prems"(2) by simp
    have d3: "LF \<notin> set (butlast (drop 4095 l))"
      using "1.prems"(3) by (auto simp: butlast_drop dest: in_set_dropD)
    have d4: "NUL \<notin> set (drop 4095 l)"
      using "1.prems"(4) by (auto dest: in_set_dropD)
    have "read_buffer buffer (l @ rest) = read_buffer (buffer @ take 4095 l) (drop 4095 l @ rest)"
      using f c la nl wb(1) by (subst read_buffer.simps) (simp add: Let_def)
    also have "\<dots> = (Some ((buffer @ take 4095 l) @ drop 4095 l), rest)"
      using "1.IH" [OF False d1 d2 d3 d4 wb(2)] .
    finally show ?thesis by simp
  qed
qed

lemma read_buffer_plain: "plain_line l \<Longrightarrow> read_buffer [] (l @ rest) = (Some l, rest)"
  using read_buffer_line [of l "[]" rest] by (simp add: plain_line_def)

lemma substr_indent_plain:
  assumes "plain_line l"
  shows "substr l (to_int (find_first_not_of_blank l)) n = Some (take n (dropWhile is_blank l))"
proof -
  from assms have nb: "\<not> list_all is_blank l" and len: "length (takeWhile is_blank l) < 2 ^ 31"
    by (simp_all add: plain_line_def)
  let ?i = "length (takeWhile is_blank l)"
  have i: "?i \<le> length l" by (rule length_takeWhile_le)
  have ti: "to_int ?i = int ?i" using len by (rule to_int_small)
  have "int ?i < 2 ^ 64"
    using len by (simp add: less_trans [where y = "2 ^ 31"])
  then have "int ?i mod 2 ^ 64 = int ?i"
    by (intro mod_pos_pos_trivial) simp_all
  then show ?thesis
    using nb i by (simp add: substr_def find_first_not_of_blank_def ti Let_def dropWhile_eq_drop)
qed

lemma here_document_other:
  "plain_line l \<Longrightarrow> take (length eot_marker) (dropWhile is_blank l) \<noteq> eot_marker \<Longrightarrow>
   here_document filename eot_marker doc (l @ rest) = here_document filename eot_marker (doc @ l) rest"
  by (subst here_document.simps) (simp add: read_buffer_plain substr_indent_plain)

lemma here_document_marker:
  "plain_line l \<Longrightarrow> take (length eot_marker) (dropWhile is_blank l) = eot_marker \<Longrightarrow>
   here_document filename eot_marker doc (l @ rest) = (None, doc, rest)"
  by (subst here_document.simps) (simp add: read_buffer_plain substr_indent_plain)

lemma here_document_lines:
  "list_all (\<lambda>l. plain_line l \<and> take (length eot_marker) (dropWhile is_blank l) \<noteq> eot_marker) ls \<Longrightarrow>
   plain_line m \<Longrightarrow> take (length eot_marker) (dropWhile is_blank m) = eot_marker \<Longrightarrow>
   here_document filename eot_marker doc (concat ls @ m @ rest) = (None, doc @ concat ls, rest)"
proof (induction ls arbitrary: doc)
  case Nil
  then show ?case by (simp add: here_document_marker)
next
  case (Cons l ls)
  then have "here_document filename eot_marker doc (concat (l # ls) @ m @ rest)
      = here_document filename eot_marker (doc @ l) (concat ls @ m @ rest)"
    by (simp add: here_document_other)
  with Cons show ?case by simp
qed

lemma open_input_here_document:
  assumes "eot_marker \<noteq> []" and "current_script_file w = Some (concat ls @ m @ rest)"
    and "list_all (\<lambda>l. plain_line l \<and> take (length eot_marker) (dropWhile is_blank l) \<noteq> eot_marker) ls"
    and "plain_line m" and "take (length eot_marker) (dropWhile is_blank m) = eot_marker"
  shows "open_input ext (''<<'' @ eot_marker) w =
     Returns (Some (MemStream (concat ls)))
       (emit (Fmemopen (concat ls))
          (w \<lparr> current_script_file := Some rest, last_here_document := concat ls \<rparr>))"
  using assms(1,2) here_document_lines [OF assms(3,4,5), of "''<<'' @ eot_marker" "[]" rest]
  by (simp add: open_input_def fmemopen_def)

lemma find_no_option:
  assumes "list_all (\<lambda>a. take 1 a \<noteq> ''-'') (drop n args)"
  shows "find (\<lambda>i. take 1 (args ! i) = ''-'') [n ..< length args] = None"
proof -
  have "take 1 (args ! i) \<noteq> ''-''" if i: "n \<le> i" "i < length args" for i
  proof -
    have "drop n args ! (i - n) = args ! i" using i by simp
    moreover have "drop n args ! (i - n) \<in> set (drop n args)"
      using i by (intro nth_mem) simp
    ultimately show ?thesis using assms by (auto simp: list_all_iff)
  qed
  then show ?thesis by (auto simp: find_None_iff)
qed

lemma Frontend_extra_args_here_document:
  assumes "eot_marker \<noteq> []" and "argidx < length args" and "args ! argidx = ''<<'' @ eot_marker"
    and "list_all (\<lambda>a. take 1 a \<noteq> ''-'') (drop (argidx + 1) args)"
    and "current_script_file w = Some (concat ls @ m @ rest)"
    and "list_all (\<lambda>l. plain_line l \<and> take (length eot_marker) (dropWhile is_blank l) \<noteq> eot_marker) ls"
    and "plain_line m" and "take (length eot_marker) (dropWhile is_blank m) = eot_marker"
  shows "Frontend_extra_args ext None filename args argidx w =
     Returns (Some (MemStream (concat ls)), ''<<'' @ eot_marker)
       (emit (Fmemopen (concat ls))
          (w \<lparr> next_args := (if argidx + 1 < length args
                               then take argidx args @ drop (argidx + 1) args else []),
               current_script_file := Some rest, last_here_document := concat ls \<rparr>))"
proof -
  define arg where "arg = ''<<'' @ eot_marker"
  have s: "current_script_file (w \<lparr> next_args := [] \<rparr>) = Some (concat ls @ m @ rest)"
    using assms(5) by simp
  have a: "args ! argidx = arg" using assms(3) by (simp add: arg_def)
  have nj: "arg \<noteq> ''<<''" "take 1 arg \<noteq> ''-''"
    using assms(1) by (simp_all add: arg_def)
  have oi: "open_input ext arg (w \<lparr> next_args := [] \<rparr>) =
     Returns (Some (MemStream (concat ls)))
       (emit (Fmemopen (concat ls))
          (w \<lparr> next_args := [], current_script_file := Some rest,
               last_here_document := concat ls \<rparr>))"
    unfolding arg_def using open_input_here_document [OF assms(1) s assms(6,7,8), of ext]
    by simp
  have fo: "find (\<lambda>i. take 1 (args ! i) = ''-'') [argidx + 1 ..< length args] = None"
    using assms(4) by (rule find_no_option)
  have "Frontend_extra_args ext None filename args argidx w =
     Returns (Some (MemStream (concat ls)), arg)
       (emit (Fmemopen (concat ls))
          (w \<lparr> next_args := (if argidx + 1 < length args
                               then take argidx args @ drop (argidx + 1) args else []),
               current_script_file := Some rest, last_here_document := concat ls \<rparr>))"
    unfolding Frontend_extra_args_def Let_def
    using assms(2) nj by (simp add: a oi fo [simplified] emit_def)
  then show ?thesis by (simp only: arg_def)
qed

lemma Frontend_extra_args_here_document_split:
  assumes "eot_marker \<noteq> []" and "argidx + 1 < length args" and "args ! argidx = ''<<''"
    and "args ! (argidx + 1) = eot_marker"
    and "list_all (\<lambda>a. take 1 a \<noteq> ''-'') (drop (argidx + 2) args)"
    and "current_script_file w = Some (concat ls @ m @ rest)"
    and "list_all (\<lambda>l. plain_line l \<and> take (length eot_marker) (dropWhile is_blank l) \<noteq> eot_marker) ls"
    and "plain_line m" and "take (length eot_marker) (dropWhile is_blank m) = eot_marker"
  shows "Frontend_extra_args ext None filename args argidx w =
     Returns (Some (MemStream (concat ls)), ''<<'' @ eot_marker)
       (emit (Fmemopen (concat ls))
          (w \<lparr> next_args := (if argidx + 2 < length args
                               then take (argidx + 1) args @ drop (argidx + 2) args else []),
               current_script_file := Some rest, last_here_document := concat ls \<rparr>))"
proof -
  have s: "current_script_file (w \<lparr> next_args := [] \<rparr>) = Some (concat ls @ m @ rest)"
    using assms(6) by simp
  have lt: "argidx < length args" "Suc argidx < length args" using assms(2) by simp_all
  have oi: "open_input ext (''<<'' @ eot_marker) (w \<lparr> next_args := [] \<rparr>) =
     Returns (Some (MemStream (concat ls)))
       (emit (Fmemopen (concat ls))
          (w \<lparr> next_args := [], current_script_file := Some rest,
               last_here_document := concat ls \<rparr>))"
    using open_input_here_document [OF assms(1) s assms(7,8,9), of ext]
    by simp
  have fo: "find (\<lambda>i. take 1 (args ! i) = ''-'') [argidx + 2 ..< length args] = None"
    using assms(5) by (rule find_no_option)
  show ?thesis
    unfolding Frontend_extra_args_def Let_def
    using lt assms(3,4) by (simp add: oi [simplified] fo [simplified] emit_def)
qed

lemma plain_examples:
  "plain_line (''a'' @ [LF])" "plain_line (''b'' @ [LF])" "plain_line (''EOT'' @ [LF])"
  "plain_line (''EOTX'' @ [LF])" "plain_line (''  b'' @ [LF])" "plain_line ([TAB] @ ''EOT'' @ [LF])"
  "plain_line ([TAB] @ ''END_OF_TEXT and more'' @ [LF])"
  by (simp_all add: plain_line_def is_blank_def whole_blocks.simps)

lemma plain_long_line: "plain_line (replicate 5000 CHR ''x'' @ [LF])"
proof -
  let ?l = "replicate 5000 CHR ''x'' @ [LF]"
  have w2: "whole_blocks (replicate 905 CHR ''x'' @ [LF])"
    by (subst whole_blocks.simps) simp
  have w1: "whole_blocks ?l"
    by (subst whole_blocks.simps) (simp add: nth_append w2)
  have tw: "takeWhile is_blank ?l = []"
    by (subst replicate_Suc [of 4999, simplified]) (simp add: is_blank_def)
  have nb: "\<not> list_all is_blank ?l"
    by (subst replicate_Suc [of 4999, simplified]) (simp add: is_blank_def)
  show ?thesis
    unfolding plain_line_def using w1 nb by (simp add: tw)
qed

lemma here_document_a_b_EOT:
  "here_document filename ''EOT'' [] (''a'' @ [LF] @ ''b'' @ [LF] @ ''EOT'' @ [LF])
     = (None, ''a'' @ [LF] @ ''b'' @ [LF], [])"
  using here_document_lines [of "''EOT''" "[''a'' @ [LF], ''b'' @ [LF]]" "''EOT'' @ [LF]" filename "[]" "[]"]
  by (simp add: plain_examples [simplified] is_blank_def)

text \<open>
  Claim C3, as the code has it. A here-document is \<^verbatim>\<open><<\<close> followed by a non-empty
  end marker, in the same argument or as the next one, with no option after it. While the open script holds lines that
  each end in their newline, hold no NUL, are not blank throughout and have no carriage
  return at the end of one of the blocks \<^verbatim>\<open>fgets\<close> cuts a long line into,
  \<^verbatim>\<open>Frontend::extra_args\<close> collects them as they are, whatever their length, and
  stops at the first line that, without its leading blanks, begins with the end marker (the
  comparison takes as many characters as the marker has, so more text may follow it on the
  line); that line is read but not collected, the rest of the script stays unread, and the
  text collected is opened as the input stream. With the marker \<^verbatim>\<open>EOT\<close> and the
  script lines \<^verbatim>\<open>a\<close>, \<^verbatim>\<open>b\<close>, \<^verbatim>\<open>EOT\<close> the text collected and opened as the
  input stream is the two lines \<^verbatim>\<open>a\<close> and \<^verbatim>\<open>b\<close>, whether the here-document is
  the first argument or follows an option the frontend consumed. A line \<^verbatim>\<open>EOTX\<close>
  ends the here-document too, where comparing for equality would collect it and go on.
\<close>

theorem here_document_capture:
  "(eot_marker \<noteq> [] \<and> argidx < length args \<and> args ! argidx = ''<<'' @ eot_marker
      \<and> list_all (\<lambda>a. take 1 a \<noteq> ''-'') (drop (argidx + 1) args)
      \<and> current_script_file w = Some (concat ls @ m @ rest)
      \<and> list_all (\<lambda>l. plain_line l \<and> take (length eot_marker) (dropWhile is_blank l) \<noteq> eot_marker) ls
      \<and> plain_line m \<and> take (length eot_marker) (dropWhile is_blank m) = eot_marker
    \<longrightarrow> Frontend_extra_args ext None filename args argidx w =
          Returns (Some (MemStream (concat ls)), ''<<'' @ eot_marker)
            (emit (Fmemopen (concat ls))
               (w \<lparr> next_args := (if argidx + 1 < length args
                                    then take argidx args @ drop (argidx + 1) args else []),
                    current_script_file := Some rest, last_here_document := concat ls \<rparr>)))
   \<and> (eot_marker \<noteq> [] \<and> argidx + 1 < length args \<and> args ! argidx = ''<<''
      \<and> args ! (argidx + 1) = eot_marker
      \<and> list_all (\<lambda>a. take 1 a \<noteq> ''-'') (drop (argidx + 2) args)
      \<and> current_script_file w = Some (concat ls @ m @ rest)
      \<and> list_all (\<lambda>l. plain_line l \<and> take (length eot_marker) (dropWhile is_blank l) \<noteq> eot_marker) ls
      \<and> plain_line m \<and> take (length eot_marker) (dropWhile is_blank m) = eot_marker
    \<longrightarrow> Frontend_extra_args ext None filename args argidx w =
          Returns (Some (MemStream (concat ls)), ''<<'' @ eot_marker)
            (emit (Fmemopen (concat ls))
               (w \<lparr> next_args := (if argidx + 2 < length args
                                    then take (argidx + 1) args @ drop (argidx + 2) args else []),
                    current_script_file := Some rest, last_here_document := concat ls \<rparr>)))
   \<and> (current_script_file w = Some (''a'' @ [LF] @ ''b'' @ [LF] @ ''EOT'' @ [LF])
    \<longrightarrow> Frontend_extra_args ext None filename [name, ''<<EOT''] 1 w =
          Returns (Some (MemStream (''a'' @ [LF] @ ''b'' @ [LF])), ''<<EOT'')
            (emit (Fmemopen (''a'' @ [LF] @ ''b'' @ [LF]))
               (w \<lparr> next_args := [], current_script_file := Some [],
                    last_here_document := ''a'' @ [LF] @ ''b'' @ [LF] \<rparr>))
        \<and> Frontend_extra_args ext None filename [name, ''-'', ''<<EOT''] 2 w =
          Returns (Some (MemStream (''a'' @ [LF] @ ''b'' @ [LF])), ''<<EOT'')
            (emit (Fmemopen (''a'' @ [LF] @ ''b'' @ [LF]))
               (w \<lparr> next_args := [], current_script_file := Some [],
                    last_here_document := ''a'' @ [LF] @ ''b'' @ [LF] \<rparr>)))"
proof (intro conjI impI)
  assume "eot_marker \<noteq> [] \<and> argidx < length args \<and> args ! argidx = ''<<'' @ eot_marker
      \<and> list_all (\<lambda>a. take 1 a \<noteq> ''-'') (drop (argidx + 1) args)
      \<and> current_script_file w = Some (concat ls @ m @ rest)
      \<and> list_all (\<lambda>l. plain_line l \<and> take (length eot_marker) (dropWhile is_blank l) \<noteq> eot_marker) ls
      \<and> plain_line m \<and> take (length eot_marker) (dropWhile is_blank m) = eot_marker"
  then have "eot_marker \<noteq> []" "argidx < length args" "args ! argidx = ''<<'' @ eot_marker"
    "list_all (\<lambda>a. take 1 a \<noteq> ''-'') (drop (argidx + 1) args)"
    "current_script_file w = Some (concat ls @ m @ rest)"
    "list_all (\<lambda>l. plain_line l \<and> take (length eot_marker) (dropWhile is_blank l) \<noteq> eot_marker) ls"
    "plain_line m" "take (length eot_marker) (dropWhile is_blank m) = eot_marker"
    by blast+
  then show "Frontend_extra_args ext None filename args argidx w =
          Returns (Some (MemStream (concat ls)), ''<<'' @ eot_marker)
            (emit (Fmemopen (concat ls))
               (w \<lparr> next_args := (if argidx + 1 < length args
                                    then take argidx args @ drop (argidx + 1) args else []),
                    current_script_file := Some rest, last_here_document := concat ls \<rparr>))"
    by (rule Frontend_extra_args_here_document)
next
  assume "eot_marker \<noteq> [] \<and> argidx + 1 < length args \<and> args ! argidx = ''<<''
      \<and> args ! (argidx + 1) = eot_marker
      \<and> list_all (\<lambda>a. take 1 a \<noteq> ''-'') (drop (argidx + 2) args)
      \<and> current_script_file w = Some (concat ls @ m @ rest)
      \<and> list_all (\<lambda>l. plain_line l \<and> take (length eot_marker) (dropWhile is_blank l) \<noteq> eot_marker) ls
      \<and> plain_line m \<and> take (length eot_marker) (dropWhile is_blank m) = eot_marker"
  then have "eot_marker \<noteq> []" "argidx + 1 < length args" "args ! argidx = ''<<''"
    "args ! (argidx + 1) = eot_marker"
    "list_all (\<lambda>a. take 1 a \<noteq> ''-'') (drop (argidx + 2) args)"
    "current_script_file w = Some (concat ls @ m @ rest)"
    "list_all (\<lambda>l. plain_line l \<and> take (length eot_marker) (dropWhile is_blank l) \<noteq> eot_marker) ls"
    "plain_line m" "take (length eot_marker) (dropWhile is_blank m) = eot_marker"
    by blast+
  then show "Frontend_extra_args ext None filename args argidx w =
          Returns (Some (MemStream (concat ls)), ''<<'' @ eot_marker)
            (emit (Fmemopen (concat ls))
               (w \<lparr> next_args := (if argidx + 2 < length args
                                    then take (argidx + 1) args @ drop (argidx + 2) args else []),
                    current_script_file := Some rest, last_here_document := concat ls \<rparr>))"
    by (rule Frontend_extra_args_here_document_split)
next
  assume "current_script_file w = Some (''a'' @ [LF] @ ''b'' @ [LF] @ ''EOT'' @ [LF])"
  then show "Frontend_extra_args ext None filename [name, ''<<EOT''] 1 w =
          Returns (Some (MemStream (''a'' @ [LF] @ ''b'' @ [LF])), ''<<EOT'')
            (emit (Fmemopen (''a'' @ [LF] @ ''b'' @ [LF]))
               (w \<lparr> next_args := [], current_script_file := Some [],
                    last_here_document := ''a'' @ [LF] @ ''b'' @ [LF] \<rparr>))"
    using here_document_a_b_EOT [of "''<<EOT''"]
    by (simp add: Frontend_extra_args_def open_input_def fmemopen_def emit_def)
next
  assume "current_script_file w = Some (''a'' @ [LF] @ ''b'' @ [LF] @ ''EOT'' @ [LF])"
  then show "Frontend_extra_args ext None filename [name, ''-'', ''<<EOT''] 2 w =
          Returns (Some (MemStream (''a'' @ [LF] @ ''b'' @ [LF])), ''<<EOT'')
            (emit (Fmemopen (''a'' @ [LF] @ ''b'' @ [LF]))
               (w \<lparr> next_args := [], current_script_file := Some [],
                    last_here_document := ''a'' @ [LF] @ ''b'' @ [LF] \<rparr>))"
    using here_document_a_b_EOT [of "''<<EOT''"]
    by (simp add: Frontend_extra_args_def open_input_def fmemopen_def emit_def)
qed

theorem here_document_prefix_counterexample:
  "capture_spec ''EOT'' [''a'' @ [LF], ''EOTX'' @ [LF], ''b'' @ [LF], ''EOT'' @ [LF]]
     = Some (''a'' @ [LF] @ ''EOTX'' @ [LF] @ ''b'' @ [LF])
   \<and> here_document ''<<EOT'' ''EOT'' []
        (concat [''a'' @ [LF], ''EOTX'' @ [LF], ''b'' @ [LF], ''EOT'' @ [LF]])
     = (None, ''a'' @ [LF], ''b'' @ [LF] @ ''EOT'' @ [LF])
   \<and> Frontend_extra_args idle_ext None [] [''read_verilog'', ''<<EOT''] 1
        (verilog_world \<lparr> current_script_file :=
           Some (concat [''a'' @ [LF], ''EOTX'' @ [LF], ''b'' @ [LF], ''EOT'' @ [LF]]) \<rparr>)
     = Returns (Some (MemStream (''a'' @ [LF])), ''<<EOT'')
         (emit (Fmemopen (''a'' @ [LF]))
            (verilog_world \<lparr> current_script_file := Some (''b'' @ [LF] @ ''EOT'' @ [LF]),
                             last_here_document := ''a'' @ [LF] \<rparr>))"
proof (intro conjI)
  show "capture_spec ''EOT'' [''a'' @ [LF], ''EOTX'' @ [LF], ''b'' @ [LF], ''EOT'' @ [LF]]
     = Some (''a'' @ [LF] @ ''EOTX'' @ [LF] @ ''b'' @ [LF])"
    by (simp add: is_blank_def)
  show h: "here_document ''<<EOT'' ''EOT'' []
        (concat [''a'' @ [LF], ''EOTX'' @ [LF], ''b'' @ [LF], ''EOT'' @ [LF]])
     = (None, ''a'' @ [LF], ''b'' @ [LF] @ ''EOT'' @ [LF])"
    using here_document_lines [of "''EOT''" "[''a'' @ [LF]]" "''EOTX'' @ [LF]" "''<<EOT''" "[]"
        "''b'' @ [LF] @ ''EOT'' @ [LF]"]
    by (simp add: plain_examples [simplified] is_blank_def)
  show "Frontend_extra_args idle_ext None [] [''read_verilog'', ''<<EOT''] 1
        (verilog_world \<lparr> current_script_file :=
           Some (concat [''a'' @ [LF], ''EOTX'' @ [LF], ''b'' @ [LF], ''EOT'' @ [LF]]) \<rparr>)
     = Returns (Some (MemStream (''a'' @ [LF])), ''<<EOT'')
         (emit (Fmemopen (''a'' @ [LF]))
            (verilog_world \<lparr> current_script_file := Some (''b'' @ [LF] @ ''EOT'' @ [LF]),
                             last_here_document := ''a'' @ [LF] \<rparr>))"
    using h
    by (simp add: Frontend_extra_args_def open_input_def fmemopen_def emit_def verilog_world_def
        initial_world_def)
qed

theorem here_document_capture_witness:
  "''END_OF_TEXT'' \<noteq> [] \<and> 1 < length [''read_verilog'', ''<<END_OF_TEXT'', ''more.v'']
   \<and> [''read_verilog'', ''<<END_OF_TEXT'', ''more.v''] ! 1 = ''<<'' @ ''END_OF_TEXT''
   \<and> list_all (\<lambda>a. take 1 a \<noteq> ''-'')
        (drop (1 + 1) [''read_verilog'', ''<<END_OF_TEXT'', ''more.v''])
   \<and> list_all (\<lambda>l. plain_line l \<and> take (length ''END_OF_TEXT'') (dropWhile is_blank l) \<noteq> ''END_OF_TEXT'')
        [''a'' @ [LF], replicate 5000 CHR ''x'' @ [LF], ''  b'' @ [LF]]
   \<and> plain_line ([TAB] @ ''END_OF_TEXT and more'' @ [LF])
   \<and> take (length ''END_OF_TEXT'') (dropWhile is_blank ([TAB] @ ''END_OF_TEXT and more'' @ [LF]))
       = ''END_OF_TEXT''
   \<and> Frontend_extra_args idle_ext None [] [''read_verilog'', ''<<END_OF_TEXT'', ''more.v''] 1
        (verilog_world \<lparr> current_script_file :=
           Some (concat [''a'' @ [LF], replicate 5000 CHR ''x'' @ [LF], ''  b'' @ [LF]]
                 @ ([TAB] @ ''END_OF_TEXT and more'' @ [LF]) @ (''after'' @ [LF])) \<rparr>)
       = Returns (Some (MemStream (''a'' @ [LF] @ replicate 5000 CHR ''x'' @ [LF] @ ''  b'' @ [LF])),
                  ''<<END_OF_TEXT'')
           (emit (Fmemopen (''a'' @ [LF] @ replicate 5000 CHR ''x'' @ [LF] @ ''  b'' @ [LF]))
              (verilog_world \<lparr> next_args := [''read_verilog'', ''more.v''],
                   current_script_file := Some (''after'' @ [LF]),
                   last_here_document :=
                     ''a'' @ [LF] @ replicate 5000 CHR ''x'' @ [LF] @ ''  b'' @ [LF] \<rparr>))
   \<and> ''EOT'' \<noteq> [] \<and> 1 + 1 < length [''read_verilog'', ''<<'', ''EOT'', ''more.v'']
   \<and> [''read_verilog'', ''<<'', ''EOT'', ''more.v''] ! 1 = ''<<''
   \<and> [''read_verilog'', ''<<'', ''EOT'', ''more.v''] ! (1 + 1) = ''EOT''
   \<and> list_all (\<lambda>a. take 1 a \<noteq> ''-'')
        (drop (1 + 2) [''read_verilog'', ''<<'', ''EOT'', ''more.v''])
   \<and> list_all (\<lambda>l. plain_line l \<and> take (length ''EOT'') (dropWhile is_blank l) \<noteq> ''EOT'')
        [''a'' @ [LF], ''b'' @ [LF]]
   \<and> plain_line (''EOT'' @ [LF])
   \<and> take (length ''EOT'') (dropWhile is_blank (''EOT'' @ [LF])) = ''EOT''
   \<and> Frontend_extra_args idle_ext None [] [''read_verilog'', ''<<'', ''EOT'', ''more.v''] 1
        (verilog_world \<lparr> current_script_file :=
           Some (concat [''a'' @ [LF], ''b'' @ [LF]] @ (''EOT'' @ [LF]) @ []) \<rparr>)
       = Returns (Some (MemStream (''a'' @ [LF] @ ''b'' @ [LF])), ''<<EOT'')
           (emit (Fmemopen (''a'' @ [LF] @ ''b'' @ [LF]))
              (verilog_world \<lparr> next_args := [''read_verilog'', ''<<'', ''more.v''],
                   current_script_file := Some [],
                   last_here_document := ''a'' @ [LF] @ ''b'' @ [LF] \<rparr>))
   \<and> current_script_file (verilog_world \<lparr> current_script_file :=
          Some (''a'' @ [LF] @ ''b'' @ [LF] @ ''EOT'' @ [LF]) \<rparr>)
       = Some (''a'' @ [LF] @ ''b'' @ [LF] @ ''EOT'' @ [LF])
   \<and> map_option last_here_document
        (outcome_world (Frontend_extra_args idle_ext None [] [''read_verilog'', ''-'', ''<<EOT''] 2
           (verilog_world \<lparr> current_script_file :=
              Some (''a'' @ [LF] @ ''b'' @ [LF] @ ''EOT'' @ [LF]) \<rparr>)))
       = Some (''a'' @ [LF] @ ''b'' @ [LF])"
proof -
  let ?args = "[''read_verilog'', ''<<END_OF_TEXT'', ''more.v'']"
  let ?ls = "[''a'' @ [LF], replicate 5000 CHR ''x'' @ [LF], ''  b'' @ [LF]]"
  let ?m = "[TAB] @ ''END_OF_TEXT and more'' @ [LF]"
  let ?v = "verilog_world \<lparr> current_script_file :=
      Some (concat ?ls @ ?m @ (''after'' @ [LF])) \<rparr>"
  let ?w = "verilog_world \<lparr> current_script_file := Some (''a'' @ [LF] @ ''b'' @ [LF] @ ''EOT'' @ [LF]) \<rparr>"
  have h1: "''END_OF_TEXT'' \<noteq> [] \<and> 1 < length ?args \<and> ?args ! 1 = ''<<'' @ ''END_OF_TEXT''
      \<and> list_all (\<lambda>a. take 1 a \<noteq> ''-'') (drop (1 + 1) ?args)"
    by simp
  have x: "take (length ''END_OF_TEXT'') (dropWhile is_blank (replicate 5000 CHR ''x'' @ [LF]))
      \<noteq> ''END_OF_TEXT''"
    by (subst replicate_Suc [of 4999, simplified]) (simp add: is_blank_def)
  have h2: "list_all (\<lambda>l. plain_line l \<and> take (length ''END_OF_TEXT'') (dropWhile is_blank l) \<noteq> ''END_OF_TEXT'')
      ?ls"
    using plain_examples plain_long_line x by (simp add: is_blank_def)
  have h3: "plain_line ?m"
    "take (length ''END_OF_TEXT'') (dropWhile is_blank ?m) = ''END_OF_TEXT''"
    using plain_examples by (simp_all add: is_blank_def)
  have h4: "current_script_file ?v = Some (concat ?ls @ ?m @ (''after'' @ [LF]))"
    by simp
  have s: "current_script_file ?w = Some (''a'' @ [LF] @ ''b'' @ [LF] @ ''EOT'' @ [LF])"
    by simp
  note t = here_document_capture [where eot_marker = "''END_OF_TEXT''" and argidx = 1
      and args = ?args and ls = ?ls and m = ?m and rest = "''after'' @ [LF]" and w = ?v
      and ext = idle_ext and filename = "[]"]
  have "Frontend_extra_args idle_ext None [] ?args 1 ?v =
      Returns (Some (MemStream (concat ?ls)), ''<<'' @ ''END_OF_TEXT'')
        (emit (Fmemopen (concat ?ls))
           (?v \<lparr> next_args := (if 1 + 1 < length ?args then take 1 ?args @ drop (1 + 1) ?args else []),
                current_script_file := Some (''after'' @ [LF]),
                last_here_document := concat ?ls \<rparr>))"
    using t [THEN conjunct1] h1 h2 h3 h4 by blast
  then have a: "Frontend_extra_args idle_ext None [] ?args 1 ?v
       = Returns (Some (MemStream (''a'' @ [LF] @ replicate 5000 CHR ''x'' @ [LF] @ ''  b'' @ [LF])),
                  ''<<END_OF_TEXT'')
           (emit (Fmemopen (''a'' @ [LF] @ replicate 5000 CHR ''x'' @ [LF] @ ''  b'' @ [LF]))
              (verilog_world \<lparr> next_args := [''read_verilog'', ''more.v''],
                   current_script_file := Some (''after'' @ [LF]),
                   last_here_document :=
                     ''a'' @ [LF] @ replicate 5000 CHR ''x'' @ [LF] @ ''  b'' @ [LF] \<rparr>))"
    by (simp add: emit_def)
  let ?sargs = "[''read_verilog'', ''<<'', ''EOT'', ''more.v'']"
  let ?sv = "verilog_world \<lparr> current_script_file :=
      Some (concat [''a'' @ [LF], ''b'' @ [LF]] @ (''EOT'' @ [LF]) @ []) \<rparr>"
  have g1: "''EOT'' \<noteq> [] \<and> 1 + 1 < length ?sargs \<and> ?sargs ! 1 = ''<<'' \<and> ?sargs ! (1 + 1) = ''EOT''
      \<and> list_all (\<lambda>a. take 1 a \<noteq> ''-'') (drop (1 + 2) ?sargs)"
    by simp
  have g2: "list_all (\<lambda>l. plain_line l \<and> take (length ''EOT'') (dropWhile is_blank l) \<noteq> ''EOT'')
      [''a'' @ [LF], ''b'' @ [LF]]"
    using plain_examples by (simp add: is_blank_def)
  have g3: "plain_line (''EOT'' @ [LF])"
    "take (length ''EOT'') (dropWhile is_blank (''EOT'' @ [LF])) = ''EOT''"
    using plain_examples by (simp_all add: is_blank_def)
  have g4: "current_script_file ?sv = Some (concat [''a'' @ [LF], ''b'' @ [LF]] @ (''EOT'' @ [LF]) @ [])"
    by simp
  note v = here_document_capture [where eot_marker = "''EOT''" and argidx = 1
      and args = ?sargs and ls = "[''a'' @ [LF], ''b'' @ [LF]]" and m = "''EOT'' @ [LF]"
      and rest = "[]" and w = ?sv and ext = idle_ext and filename = "[]"]
  have "Frontend_extra_args idle_ext None [] ?sargs 1 ?sv =
      Returns (Some (MemStream (concat [''a'' @ [LF], ''b'' @ [LF]])), ''<<'' @ ''EOT'')
        (emit (Fmemopen (concat [''a'' @ [LF], ''b'' @ [LF]]))
           (?sv \<lparr> next_args := (if 1 + 2 < length ?sargs
                                  then take (1 + 1) ?sargs @ drop (1 + 2) ?sargs else []),
                current_script_file := Some [],
                last_here_document := concat [''a'' @ [LF], ''b'' @ [LF]] \<rparr>))"
    using v [THEN conjunct2, THEN conjunct1] g1 g2 g3 g4 by blast
  then have c: "Frontend_extra_args idle_ext None [] ?sargs 1 ?sv
       = Returns (Some (MemStream (''a'' @ [LF] @ ''b'' @ [LF])), ''<<EOT'')
           (emit (Fmemopen (''a'' @ [LF] @ ''b'' @ [LF]))
              (verilog_world \<lparr> next_args := [''read_verilog'', ''<<'', ''more.v''],
                   current_script_file := Some [],
                   last_here_document := ''a'' @ [LF] @ ''b'' @ [LF] \<rparr>))"
    by (simp add: emit_def)
  note u = here_document_capture [where w = ?w and ext = idle_ext and name = "''read_verilog''"
      and filename = "[]"]
  have "Frontend_extra_args idle_ext None [] [''read_verilog'', ''-'', ''<<EOT''] 2 ?w =
          Returns (Some (MemStream (''a'' @ [LF] @ ''b'' @ [LF])), ''<<EOT'')
            (emit (Fmemopen (''a'' @ [LF] @ ''b'' @ [LF]))
               (?w \<lparr> next_args := [], current_script_file := Some [],
                    last_here_document := ''a'' @ [LF] @ ''b'' @ [LF] \<rparr>))"
    using u [THEN conjunct2, THEN conjunct2] s by blast
  then have b: "map_option last_here_document
        (outcome_world (Frontend_extra_args idle_ext None [] [''read_verilog'', ''-'', ''<<EOT''] 2 ?w))
       = Some (''a'' @ [LF] @ ''b'' @ [LF])"
    by (simp add: emit_def)
  show ?thesis using h1 h2 h3 a g1 g2 g3 c s b by blast
qed

text \<open>Lines the theorem above does not cover. For a line that is blank throughout
  \<^verbatim>\<open>find_first_not_of\<close> yields \<^verbatim>\<open>npos\<close>, which is \<open>-1\<close> as an
  \<^verbatim>\<open>int\<close>, and \<^verbatim>\<open>substr\<close> throws. A NUL ends what \<^verbatim>\<open>buffer += block\<close>
  takes from the block, so the rest of the line and its newline are lost and the next line
  is joined on. A last line without a newline is followed by the end of the file. A carriage
  return at the end of a block of 4095 characters ends the line there, so the rest of the
  line is compared with the end marker as if it were a line.\<close>

lemma here_document_blank_line:
  "here_document ''<<EOT'' ''EOT'' [] ([LF] @ ''EOT'' @ [LF]) = (Some StdOutOfRange, [], ''EOT'' @ [LF])"
proof -
  have f: "fgets 4096 ([LF] @ ''EOT'' @ [LF]) = Some ([LF], ''EOT'' @ [LF])"
    by (simp add: fgets_def Let_def)
  have r: "read_buffer [] ([LF] @ ''EOT'' @ [LF]) = (Some [LF], ''EOT'' @ [LF])"
    using f by (subst read_buffer.simps) (simp add: c_str_def)
  have i: "to_int (find_first_not_of_blank [LF]) = - 1"
    by (simp add: find_first_not_of_blank_def is_blank_def npos_def to_int_def)
  show ?thesis
    using r i by (subst here_document.simps) (simp add: substr_def)
qed

lemma read_buffer_end_of_file: "read_buffer buffer [] = (None, [])"
  by (subst read_buffer.simps) (simp add: fgets_def)

lemma here_document_NUL_line:
  "here_document ''<<EOT'' ''EOT'' [] (''a'' @ [NUL] @ ''b'' @ [LF] @ ''c'' @ [LF] @ ''EOT'' @ [LF])
     = (None, ''ac'' @ [LF], [])"
proof -
  have f1: "fgets 4096 (''a'' @ [NUL] @ ''b'' @ [LF] @ ''c'' @ [LF] @ ''EOT'' @ [LF])
      = Some (''a'' @ [NUL] @ ''b'' @ [LF], ''c'' @ [LF] @ ''EOT'' @ [LF])"
    by (simp add: fgets_def Let_def)
  have f2: "fgets 4096 (''c'' @ [LF] @ ''EOT'' @ [LF]) = Some (''c'' @ [LF], ''EOT'' @ [LF])"
    by (simp add: fgets_def Let_def)
  have r2: "read_buffer ''a'' (''c'' @ [LF] @ ''EOT'' @ [LF]) = (Some (''ac'' @ [LF]), ''EOT'' @ [LF])"
    using f2 by (subst read_buffer.simps) (simp add: c_str_def)
  have r1: "read_buffer [] (''a'' @ [NUL] @ ''b'' @ [LF] @ ''c'' @ [LF] @ ''EOT'' @ [LF])
      = (Some (''ac'' @ [LF]), ''EOT'' @ [LF])"
    using f1 r2 by (subst read_buffer.simps) (simp add: c_str_def)
  have i: "substr (''ac'' @ [LF]) (to_int (find_first_not_of_blank (''ac'' @ [LF]))) n
      = Some (take n (''ac'' @ [LF]))" for n
    by (simp add: find_first_not_of_blank_def is_blank_def to_int_small substr_def)
  have "here_document ''<<EOT'' ''EOT'' [] (''a'' @ [NUL] @ ''b'' @ [LF] @ ''c'' @ [LF] @ ''EOT'' @ [LF])
      = here_document ''<<EOT'' ''EOT'' (''ac'' @ [LF]) (''EOT'' @ [LF])"
    using r1 i by (subst here_document.simps) simp
  also have "\<dots> = (None, ''ac'' @ [LF], [])"
    using here_document_marker [of "''EOT'' @ [LF]" "''EOT''" "''<<EOT''" "''ac'' @ [LF]" "[]"]
      plain_examples
    by (simp add: is_blank_def)
  finally show ?thesis .
qed

lemma here_document_no_last_newline:
  "here_document ''<<EOT'' ''EOT'' [] (''a'' @ [LF] @ ''EOT'')
     = (Some (FatalError (''Unexpected end of file in here document '' @ [CHR 0x27] @ ''<<EOT''
                           @ [CHR 0x27] @ ''!'' @ [LF])),
        ''a'' @ [LF], [])"
proof -
  have f: "fgets 4096 ''EOT'' = Some (''EOT'', [])"
    by (simp add: fgets_def Let_def)
  have r: "read_buffer [] ''EOT'' = (None, [])"
    using f by (subst read_buffer.simps) (simp add: c_str_def read_buffer_end_of_file)
  have "here_document ''<<EOT'' ''EOT'' [] (''a'' @ [LF] @ ''EOT'')
      = here_document ''<<EOT'' ''EOT'' (''a'' @ [LF]) ''EOT''"
    using here_document_other [of "''a'' @ [LF]" "''EOT''" "''<<EOT''" "[]" "''EOT''"] plain_examples
    by (simp add: is_blank_def)
  also have "\<dots> = (Some (FatalError (''Unexpected end of file in here document '' @ [CHR 0x27]
                           @ ''<<EOT'' @ [CHR 0x27] @ ''!'' @ [LF])), ''a'' @ [LF], [])"
    using r by (subst here_document.simps) simp
  finally show ?thesis .
qed

lemma here_document_block_ends_in_CR:
  "here_document ''<<EOT'' ''EOT'' []
     ((replicate 4094 CHR ''x'' @ [CR] @ ''EOT'' @ [LF]) @ (''b'' @ [LF] @ ''EOT'' @ [LF]))
     = (None, replicate 4094 CHR ''x'' @ [CR], ''b'' @ [LF] @ ''EOT'' @ [LF])"
proof -
  let ?x = "replicate 4094 CHR ''x''"
  let ?rest = "''b'' @ [LF] @ ''EOT'' @ [LF]"
  have l: "?x @ [CR] @ ''EOT'' @ [LF] \<noteq> []" "last (?x @ [CR] @ ''EOT'' @ [LF]) = LF"
    "LF \<notin> set (butlast (?x @ [CR] @ ''EOT'' @ [LF]))"
    by (simp_all add: butlast_append)
  have f: "fgets 4096 ((?x @ [CR] @ ''EOT'' @ [LF]) @ ?rest)
      = Some (?x @ [CR], (''EOT'' @ [LF]) @ ?rest)"
    unfolding fgets_line [OF l] by simp
  have c: "c_str (?x @ [CR]) = ?x @ [CR]"
    by (simp add: c_str_def takeWhile_eq_all_conv)
  have r: "read_buffer [] ((?x @ [CR] @ ''EOT'' @ [LF]) @ ?rest)
      = (Some (?x @ [CR]), (''EOT'' @ [LF]) @ ?rest)"
    using f c by (subst read_buffer.simps) simp
  have tw: "takeWhile is_blank (?x @ [CR]) = []" "\<not> list_all is_blank ?x"
    "take 3 (?x @ [CR]) \<noteq> ''EOT''"
    by (subst replicate_Suc [of 4093, simplified], simp add: is_blank_def)+
  have i: "substr (?x @ [CR]) (to_int (find_first_not_of_blank (?x @ [CR]))) n
      = Some (take n (?x @ [CR]))" for n
    using tw(1,2) by (simp add: find_first_not_of_blank_def to_int_small substr_def)
  have "here_document ''<<EOT'' ''EOT'' [] ((?x @ [CR] @ ''EOT'' @ [LF]) @ ?rest)
      = here_document ''<<EOT'' ''EOT'' (?x @ [CR]) ((''EOT'' @ [LF]) @ ?rest)"
    using r i tw(3) by (subst here_document.simps) simp
  also have "\<dots> = (None, ?x @ [CR], ?rest)"
    using plain_examples by (intro here_document_marker) (simp_all add: is_blank_def)
  finally show ?thesis .
qed

end
